(* ===== verification/Kape_Prelude.thy ===== *)
theory Kape_Prelude
  imports Complex_Main "HOL-Library.Word" "HOL-Library.Char_ord" "HOL-Library.List_Lexorder"
begin

text \<open>
  What every component theory shares: the widths of the Go integer types, the Go results
  (an error or a value), the string functions of Go's \<open>strings\<close> package the sources call,
  the big-endian keys of \<open>encoding/binary\<close>, and generic lemmas on lists and words.

  Go's \<open>string\<close> and \<open>[]byte\<close> are byte strings, so both are \<^typ>\<open>string\<close>; their order
  (\<open>sort.Strings\<close>, the key order of a bbolt bucket) is the lexicographic order of the
  bytes, which \<open>List_Lexorder\<close> and \<open>Char_ord\<close> give to \<^typ>\<open>string\<close>.
\<close>

section \<open>Integer widths\<close>

type_synonym u64 = "64 word"
type_synonym u32 = "32 word"
type_synonym i64 = "64 word"

abbreviation (input) u64_limit :: nat where
  "u64_limit \<equiv> 18446744073709551616"

named_theorems u64_simps \<open>unsigned values of 64-bit words\<close>

lemma unat_u64_less [simp]: "unat (x :: u64) < u64_limit"
  using unsigned_less [of x] by simp

lemma unat_u64_of_nat [u64_simps]: "n < u64_limit \<Longrightarrow> unat (of_nat n :: u64) = n"
  by (simp add: unat_of_nat take_bit_eq_mod)

lemma unat_u64_Suc [u64_simps]: "Suc (unat x) < u64_limit \<Longrightarrow> unat (x + 1 :: u64) = Suc (unat x)"
  by (simp add: unat_word_ariths)

lemma u64_of_nat_Suc [u64_simps]: "of_nat (Suc n) = (of_nat n + 1 :: u64)"
  by (simp add: add.commute)

lemma u64_less_iff: "(x < y) = (unat x < unat (y :: u64))"
  by (simp add: word_less_nat_alt)

lemma u64_le_iff: "(x \<le> y) = (unat x \<le> unat (y :: u64))"
  by (simp add: word_le_nat_alt)

section \<open>Results\<close>

text \<open>A Go call that returns a value and an error: \<open>Inl\<close> the error, \<open>Inr\<close> the value.\<close>

type_synonym ('e, 'a) result = "'e + 'a"

definition is_err :: "'e + 'a \<Rightarrow> bool" where
  "is_err r = (case r of Inl _ \<Rightarrow> True | Inr _ \<Rightarrow> False)"

lemma is_err_simps [simp]: "is_err (Inl e)" "\<not> is_err (Inr v)"
  by (simp_all add: is_err_def)

section \<open>Go's strings package\<close>

definition has_prefix :: "string \<Rightarrow> string \<Rightarrow> bool" where
  "has_prefix s p = (take (length p) s = p)"

definition has_suffix :: "string \<Rightarrow> string \<Rightarrow> bool" where
  "has_suffix s p = (length p \<le> length s \<and> drop (length s - length p) s = p)"

definition trim_prefix :: "string \<Rightarrow> string \<Rightarrow> string" where
  "trim_prefix s p = (if has_prefix s p then drop (length p) s else s)"

definition trim_suffix :: "string \<Rightarrow> string \<Rightarrow> string" where
  "trim_suffix s p = (if has_suffix s p then take (length s - length p) s else s)"

text \<open>\<open>strings.Cut\<close> at a one-byte separator: the parts before and after its first
  occurrence, \<open>None\<close> when it does not occur.\<close>

fun cut :: "char \<Rightarrow> string \<Rightarrow> (string \<times> string) option" where
  "cut c [] = None"
| "cut c (x # xs) =
     (if x = c then Some ([], xs)
      else map_option (\<lambda>(a, b). (x # a, b)) (cut c xs))"

text \<open>\<open>strings.ToLower\<close> on ASCII bytes; also the case folding by which
  \<open>encoding/json\<close> matches member names.\<close>

definition lower_char :: "char \<Rightarrow> char" where
  "lower_char c = (let n = (of_char c :: nat) in if 65 \<le> n \<and> n \<le> 90 then char_of (n + 32) else c)"

definition to_lower :: "string \<Rightarrow> string" where
  "to_lower s = map lower_char s"

lemma to_lower_Nil [simp]: "to_lower [] = []"
  by (simp add: to_lower_def)

lemma to_lower_append [simp]: "to_lower (s @ t) = to_lower s @ to_lower t"
  by (simp add: to_lower_def)

lemma cut_Some: "cut c s = Some (a, b) \<longleftrightarrow> s = a @ c # b \<and> c \<notin> set a"
proof (induction s arbitrary: a)
  case Nil
  then show ?case by simp
next
  case (Cons x xs)
  then show ?case by (cases a) (auto split: option.splits)
qed

lemma cut_None: "cut c s = None \<longleftrightarrow> c \<notin> set s"
  by (induction s) auto

lemma cut_first [simp]: "c \<notin> set a \<Longrightarrow> cut c (a @ c # b) = Some (a, b)"
  by (simp add: cut_Some)

section \<open>Big-endian byte strings (encoding/binary)\<close>

fun be_bytes :: "nat \<Rightarrow> nat \<Rightarrow> string" where
  "be_bytes 0 n = []"
| "be_bytes (Suc k) n = char_of (n div 256 ^ k mod 256) # be_bytes k n"

fun be_nat :: "string \<Rightarrow> nat" where
  "be_nat [] = 0"
| "be_nat (c # cs) = of_char c * 256 ^ length cs + be_nat cs"

lemma length_be_bytes [simp]: "length (be_bytes k n) = k"
  by (induction k) auto

lemma be_nat_be_bytes [simp]: "be_nat (be_bytes k n) = n mod 256 ^ k"
proof (induction k)
  case 0
  then show ?case by simp
next
  case (Suc k)
  have "n mod (256 ^ k * 256) = 256 ^ k * (n div 256 ^ k mod 256) + n mod 256 ^ k"
    by (rule mod_mult2_eq)
  with Suc show ?case by (simp add: mult.commute)
qed

lemma be_bytes_less:
  "be_bytes k m < be_bytes k n \<longleftrightarrow> m mod 256 ^ k < n mod (256 ^ k :: nat)"
proof (induction k)
  case 0
  then show ?case by simp
next
  case (Suc k)
  let ?P = "256 ^ k :: nat"
  have split: "\<And>x. x mod (?P * 256) = ?P * (x div ?P mod 256) + x mod ?P"
    by (rule mod_mult2_eq)
  have lex: "(?P * a + r < ?P * b + s) = (a < b \<or> (a = b \<and> r < s))"
    if "r < ?P" "s < ?P" for a b r s
  proof (cases a b rule: linorder_cases)
    case less
    then have "?P * Suc a \<le> ?P * b" by (intro mult_le_mono) auto
    with that less show ?thesis by auto
  next
    case equal
    then show ?thesis by simp
  next
    case greater
    then have "?P * Suc b \<le> ?P * a" by (intro mult_le_mono) auto
    with that greater show ?thesis by auto
  qed
  have char_less: "(char_of x < (char_of y :: char)) = (x mod 256 < y mod 256)" for x y :: nat
    by (simp add: less_char_def)
  show ?case
    by (simp add: Suc.IH char_less split lex mult.commute [of 256])
qed

text \<open>\<open>binary.BigEndian.AppendUint64(nil, seq)\<close> and \<open>binary.BigEndian.Uint64\<close>.\<close>

definition put_uint64 :: "u64 \<Rightarrow> string" where
  "put_uint64 w = be_bytes 8 (unat w)"

definition get_uint64 :: "string \<Rightarrow> u64" where
  "get_uint64 k = of_nat (be_nat (take 8 k))"

lemma length_put_uint64 [simp]: "length (put_uint64 w) = 8"
  by (simp add: put_uint64_def)

lemma get_put_uint64 [simp]: "get_uint64 (put_uint64 w) = w"
proof -
  have "take 8 (put_uint64 w) = be_bytes 8 (unat w)"
    by (simp add: put_uint64_def)
  then show ?thesis by (simp add: get_uint64_def unat_u64_less [simplified])
qed

lemma put_uint64_inject [simp]: "put_uint64 v = put_uint64 w \<longleftrightarrow> v = w"
  by (metis get_put_uint64)

lemma put_uint64_less: "put_uint64 v < put_uint64 w \<longleftrightarrow> v < w"
  using unat_u64_less [of v] unat_u64_less [of w]
  by (simp add: put_uint64_def be_bytes_less u64_less_iff)

section \<open>Lists\<close>

lemma last_map_fst: "xs \<noteq> [] \<Longrightarrow> last (map fst xs) = fst (last xs)"
  by (simp add: last_map)

lemma filter_upt_greater:
  "filter (\<lambda>i. k < i) [Suc 0..<Suc n] = [Suc k..<Suc n]"
  by (induction n) auto

lemma foldl_invariant:
  assumes "P s" and "\<And>s x. x \<in> set xs \<Longrightarrow> P s \<Longrightarrow> P (f s x)"
  shows "P (foldl f s xs)"
  using assms by (induction xs arbitrary: s) auto

end
