(* ===== verification/Json_Doc.thy ===== *)
theory Json_Doc
  imports Kape_Prelude
begin

text \<open>
  JSON as the sources use it through \<open>encoding/json\<close>.  The code never looks inside a
  \<open>json.RawMessage\<close> other than through \<open>json.Unmarshal\<close>, \<open>json.Valid\<close> and
  \<open>json.Compact\<close>, so a byte string that is a JSON text is represented by the document
  it denotes (\<open>RawDoc\<close>), and any other byte string by itself (\<open>RawBad\<close>; the empty
  and the nil slice are \<open>RawBad []\<close>).

  Decoding into a struct follows the documented rules: member names match a field when
  they are equal up to case, a later member overwrites an earlier one, \<open>null\<close> leaves a
  field as it is, an unknown member is ignored, and a value of another type makes
  \<open>Unmarshal\<close> return an error.
\<close>

datatype json =
    JNull
  | JBool bool
  | JNum rat
  | JStr string
  | JArr "json list"
  | JObj "(string \<times> json) list"

datatype raw = RawDoc json | RawBad string

definition json_valid :: "raw \<Rightarrow> bool" where
  "json_valid r = (case r of RawDoc _ \<Rightarrow> True | RawBad _ \<Rightarrow> False)"

text \<open>\<open>json.Marshal\<close> of a \<open>RawMessage\<close>: a nil message is \<open>null\<close>, a text that is
  not JSON is an error.\<close>

definition raw_marshal :: "raw \<Rightarrow> json option" where
  "raw_marshal r = (case r of RawDoc d \<Rightarrow> Some d | RawBad s \<Rightarrow> if s = [] then Some JNull else None)"

section \<open>Decoding single members\<close>

fun str_member :: "string \<Rightarrow> (string \<times> json) list \<Rightarrow> string \<Rightarrow> string option" where
  "str_member k [] acc = Some acc"
| "str_member k ((k', v) # ms) acc =
     (if to_lower k' = to_lower k then
        (case v of
           JStr s \<Rightarrow> str_member k ms s
         | JNull \<Rightarrow> str_member k ms acc
         | _ \<Rightarrow> None)
      else str_member k ms acc)"

text \<open>\<open>json.Unmarshal(raw, \<and>struct{F string `json:"k"`})\<close>: the field's value, \<open>None\<close>
  for an error.\<close>

definition unmarshal_str :: "string \<Rightarrow> raw \<Rightarrow> string option" where
  "unmarshal_str k r =
     (case r of
        RawBad _ \<Rightarrow> None
      | RawDoc JNull \<Rightarrow> Some []
      | RawDoc (JObj ms) \<Rightarrow> str_member k ms []
      | RawDoc _ \<Rightarrow> None)"

text \<open>A struct with several string fields: one member of a wrong type fails the whole call.\<close>

fun unmarshal_strs :: "string list \<Rightarrow> raw \<Rightarrow> string list option" where
  "unmarshal_strs [] r =
     (case r of RawDoc JNull \<Rightarrow> Some [] | RawDoc (JObj _) \<Rightarrow> Some [] | _ \<Rightarrow> None)"
| "unmarshal_strs (k # ks) r =
     (case unmarshal_str k r of
        None \<Rightarrow> None
      | Some v \<Rightarrow> map_option (\<lambda>vs. v # vs) (unmarshal_strs ks r))"

lemma unmarshal_strs_length: "unmarshal_strs ks r = Some vs \<Longrightarrow> length vs = length ks"
  by (induction ks arbitrary: vs) (auto split: option.splits raw.splits json.splits)

text \<open>A Go \<open>uint64\<close> from a number: integral and in range.\<close>

definition json_u64 :: "rat \<Rightarrow> u64 option" where
  "json_u64 q =
     (if q \<ge> 0 \<and> of_int \<lfloor>q\<rfloor> = q \<and> \<lfloor>q\<rfloor> < 2 ^ 64 then Some (of_int \<lfloor>q\<rfloor>) else None)"

lemma json_u64_of_nat: "n < u64_limit \<Longrightarrow> json_u64 (of_nat n) = Some (of_nat n)"
  by (simp add: json_u64_def)

lemma json_u64_of_word [simp]: "json_u64 (unsigned (w :: u64)) = Some w"
proof -
  have "json_u64 (of_nat (unat w)) = Some (of_nat (unat w))"
    by (rule json_u64_of_nat) simp
  then show ?thesis by simp
qed

section \<open>Objects built from Go maps\<close>

text \<open>
  A \<open>map[string]interface{}\<close> under construction is the list of its members; a write to
  an existing key replaces the value.  \<open>json.Marshal\<close> emits the members sorted by key,
  an order no reader of these objects depends on.
\<close>

fun obj_put :: "string \<Rightarrow> json \<Rightarrow> (string \<times> json) list \<Rightarrow> (string \<times> json) list" where
  "obj_put k v [] = [(k, v)]"
| "obj_put k v ((k', v') # ms) = (if k' = k then (k, v) # ms else (k', v') # obj_put k v ms)"

lemma map_of_obj_put [simp]: "map_of (obj_put k v ms) = (map_of ms)(k \<mapsto> v)"
  by (induction ms) auto

lemma keys_obj_put:
  "map fst (obj_put k v ms) = (if k \<in> set (map fst ms) then map fst ms else map fst ms @ [k])"
  by (induction ms) (auto, force)

lemma distinct_obj_put: "distinct (map fst ms) \<Longrightarrow> distinct (map fst (obj_put k v ms))"
  by (simp add: keys_obj_put)

text \<open>Reading one string member of an object back: only the members whose name folds to
  the field's matter.\<close>

lemma str_member_none:
  "to_lower k \<notin> to_lower ` fst ` set ms \<Longrightarrow> str_member k ms acc = Some acc"
  by (induction k ms acc rule: str_member.induct) (auto split: json.splits)

lemma str_member_append:
  "str_member k (ms @ ns) acc =
     (case str_member k ms acc of None \<Rightarrow> None | Some a \<Rightarrow> str_member k ns a)"
  by (induction k ms acc rule: str_member.induct) (auto split: json.splits)

end
