(* ===== verification/Event_Store.thy ===== *)
theory Event_Store
  imports Json_Doc
begin

text \<open>
  The durable event log of the controller (\<open>controller/eventstore.go\<close>) and the event
  envelope it stores (\<open>Event\<close> of \<open>controller/events.go\<close>).

  The embedded database bbolt is third-party code: it is the parameter \<open>B\<close> of the
  definitions, a record of the calls the store makes, and the locale \<open>bolt_laws\<close> names
  what its documentation promises about them (ordered keys, read-your-writes, an
  \<open>Update\<close> that commits entirely or not at all).  The store's own contract, the Go
  interface \<open>EventStore\<close>, is the locale \<open>event_store_contract\<close>; the bbolt store is
  proved to satisfy it for every database that satisfies \<open>bolt_laws\<close>, and the clients
  (hub, session, registry) use the contract only.
\<close>

section \<open>The event envelope\<close>

record event =
  Seq :: u64
  Type :: string
  Data :: raw

text \<open>\<open>json.Marshal(ev)\<close>: the members in field order, an empty \<open>type\<close> omitted.\<close>

definition marshal_event :: "event \<Rightarrow> json option" where
  "marshal_event ev =
     (case raw_marshal (Data ev) of
        None \<Rightarrow> None
      | Some d \<Rightarrow>
          Some (JObj ([(''seq'', JNum (of_nat (unat (Seq ev))))]
                      @ (if Type ev = [] then [] else [(''type'', JStr (Type ev))])
                      @ [(''data'', d)])))"

definition zero_event :: event where
  "zero_event = \<lparr>Seq = 0, Type = [], Data = RawBad []\<rparr>"

fun event_members :: "(string \<times> json) list \<Rightarrow> event \<Rightarrow> event option" where
  "event_members [] ev = Some ev"
| "event_members ((k, v) # ms) ev =
     (if to_lower k = ''seq'' then
        (case v of
           JNum q \<Rightarrow> (case json_u64 q of
                         None \<Rightarrow> None
                       | Some n \<Rightarrow> event_members ms (ev\<lparr>Seq := n\<rparr>))
         | JNull \<Rightarrow> event_members ms ev
         | _ \<Rightarrow> None)
      else if to_lower k = ''type'' then
        (case v of
           JStr s \<Rightarrow> event_members ms (ev\<lparr>Type := s\<rparr>)
         | JNull \<Rightarrow> event_members ms ev
         | _ \<Rightarrow> None)
      else if to_lower k = ''data'' then event_members ms (ev\<lparr>Data := RawDoc v\<rparr>)
      else event_members ms ev)"

text \<open>
  A bucket's values are byte strings: the JSON texts of events in an agent's bucket, the
  8-byte watermarks in the sidecar bucket.  An event's text is never 8 bytes long.
\<close>

datatype bval = BJson json | BBytes string

definition unmarshal_event :: "bval \<Rightarrow> event option" where
  "unmarshal_event v =
     (case v of
        BJson (JObj ms) \<Rightarrow> event_members ms zero_event
      | BJson JNull \<Rightarrow> Some zero_event
      | _ \<Rightarrow> None)"

text \<open>What a reader gets back: the envelope with its payload as a JSON document.\<close>

definition stored_event :: "event \<Rightarrow> event" where
  "stored_event ev =
     (case raw_marshal (Data ev) of None \<Rightarrow> ev | Some d \<Rightarrow> ev\<lparr>Data := RawDoc d\<rparr>)"

lemma lower_event_keys [simp]:
  "to_lower ''seq'' = ''seq''" "to_lower ''type'' = ''type''" "to_lower ''data'' = ''data''"
  by (simp_all add: to_lower_def lower_char_def)

lemma unmarshal_marshal_event:
  "marshal_event ev = Some j \<Longrightarrow> unmarshal_event (BJson j) = Some (stored_event ev)"
  by (cases ev)
    (auto simp: marshal_event_def unmarshal_event_def zero_event_def stored_event_def
          split: option.splits)

lemma stored_event_sel [simp]:
  "Seq (stored_event ev) = Seq ev" "Type (stored_event ev) = Type ev"
  by (simp_all add: stored_event_def split: option.split)

lemma stored_event_doc: "Data ev = RawDoc d \<Longrightarrow> stored_event ev = ev"
  by (cases ev) (simp add: stored_event_def raw_marshal_def)

lemma marshal_event_None: "marshal_event ev = None \<longleftrightarrow> raw_marshal (Data ev) = None"
  by (simp add: marshal_event_def split: option.split)

section \<open>The parameter: bbolt\<close>

datatype store_error =
    MalformedKey string
  | SeqGap string u64 u64
  | MarshalFailed
  | BadEvent string u64
  | BoltError string
  | PanicShortKey

text \<open>
  \<open>bucket\<close> is \<open>tx.Bucket(name) != nil\<close>, \<open>cursor_last\<close> the key of \<open>c.Last()\<close>,
  \<open>bget\<close>/\<open>bput\<close>/\<open>create_bucket\<close> the calls of those names, \<open>foreach_kv\<close> and
  \<open>bucket_names\<close> what the two \<open>ForEach\<close> iterate over, in key order.  \<open>view_err\<close> is the error
  with which a \<open>View\<close> fails to begin, and \<open>bupdate\<close> is \<open>db.Update\<close> on a callback.
\<close>

record 'db bolt =
  bucket :: "'db \<Rightarrow> string \<Rightarrow> bool"
  cursor_last :: "'db \<Rightarrow> string \<Rightarrow> string option"
  bget :: "'db \<Rightarrow> string \<Rightarrow> string \<Rightarrow> bval option"
  foreach_kv :: "'db \<Rightarrow> string \<Rightarrow> (string \<times> bval) list"
  bucket_names :: "'db \<Rightarrow> string list"
  create_bucket :: "string \<Rightarrow> 'db \<Rightarrow> store_error + 'db"
  bput :: "string \<Rightarrow> string \<Rightarrow> bval \<Rightarrow> 'db \<Rightarrow> store_error + 'db"
  view_err :: "'db \<Rightarrow> string option"
  bupdate :: "('db \<Rightarrow> store_error + 'db) \<Rightarrow> 'db \<Rightarrow> 'db \<times> store_error option"

section \<open>The store's operations\<close>

definition agentBucketSeqWidth :: nat where
  "agentBucketSeqWidth = 8"

definition originBucket :: string where
  "originBucket = ''origin-wm''"

definition seqKey :: "u64 \<Rightarrow> string" where
  "seqKey seq = put_uint64 seq"

definition store_NextSeq :: "'db bolt \<Rightarrow> string \<Rightarrow> 'db \<Rightarrow> store_error + u64" where
  "store_NextSeq B agentID db =
     (case view_err B db of
        Some e \<Rightarrow> Inl (BoltError e)
      | None \<Rightarrow>
          if \<not> bucket B db agentID then Inr 0
          else (case cursor_last B db agentID of
                  None \<Rightarrow> Inr 0
                | Some k \<Rightarrow>
                    if length k \<noteq> agentBucketSeqWidth then Inl (MalformedKey agentID)
                    else Inr (get_uint64 k)))"

text \<open>The shared guarded put.  \<open>binary.BigEndian.Uint64\<close> panics on a key shorter than 8
  bytes; bbolt rolls the transaction back and the panic is the error \<open>PanicShortKey\<close>.\<close>

definition appendInTx :: "'db bolt \<Rightarrow> string \<Rightarrow> event \<Rightarrow> 'db \<Rightarrow> store_error + 'db" where
  "appendInTx B agentID ev tx =
     (case create_bucket B agentID tx of
        Inl e \<Rightarrow> Inl e
      | Inr tx1 \<Rightarrow>
          (let put = (\<lambda>last.
                 if Seq ev \<noteq> last + 1 then Inl (SeqGap agentID (Seq ev) last)
                 else (case marshal_event ev of
                         None \<Rightarrow> Inl MarshalFailed
                       | Some v \<Rightarrow> bput B agentID (seqKey (Seq ev)) (BJson v) tx1))
           in case cursor_last B tx1 agentID of
                None \<Rightarrow> put 0
              | Some k \<Rightarrow> if length k < 8 then Inl PanicShortKey else put (get_uint64 k)))"

definition store_Append :: "'db bolt \<Rightarrow> string \<Rightarrow> event \<Rightarrow> 'db \<Rightarrow> 'db \<times> store_error option" where
  "store_Append B agentID ev db = bupdate B (appendInTx B agentID ev) db"

text \<open>A watermark value is read only when it is 8 bytes long.\<close>

definition watermark :: "bval option \<Rightarrow> u64 option" where
  "watermark v =
     (case v of
        Some (BBytes s) \<Rightarrow> if length s = 8 then Some (get_uint64 s) else None
      | _ \<Rightarrow> None)"

definition originInTx :: "'db bolt \<Rightarrow> string \<Rightarrow> u64 \<Rightarrow> 'db \<Rightarrow> store_error + 'db" where
  "originInTx B agentID originSpoolID tx =
     (case create_bucket B originBucket tx of
        Inl e \<Rightarrow> Inl e
      | Inr tx1 \<Rightarrow>
          (case watermark (bget B tx1 originBucket agentID) of
             Some cur \<Rightarrow>
               if cur > originSpoolID then Inr tx1
               else bput B originBucket agentID (BBytes (seqKey originSpoolID)) tx1
           | None \<Rightarrow> bput B originBucket agentID (BBytes (seqKey originSpoolID)) tx1))"

definition store_AppendWithOrigin ::
    "'db bolt \<Rightarrow> string \<Rightarrow> event \<Rightarrow> u64 \<Rightarrow> 'db \<Rightarrow> 'db \<times> store_error option" where
  "store_AppendWithOrigin B agentID ev originSpoolID db =
     bupdate B (\<lambda>tx. case appendInTx B agentID ev tx of
                        Inl e \<Rightarrow> Inl e
                      | Inr tx1 \<Rightarrow> originInTx B agentID originSpoolID tx1) db"

definition store_OriginWatermark :: "'db bolt \<Rightarrow> string \<Rightarrow> 'db \<Rightarrow> store_error + u64" where
  "store_OriginWatermark B agentID db =
     (case view_err B db of
        Some e \<Rightarrow> Inl (BoltError e)
      | None \<Rightarrow>
          if \<not> bucket B db originBucket then Inr 0
          else (case watermark (bget B db originBucket agentID) of
                  Some w \<Rightarrow> Inr w
                | None \<Rightarrow> Inr 0))"

fun replay_kvs :: "string \<Rightarrow> u64 \<Rightarrow> (string \<times> bval) list \<Rightarrow> event list \<Rightarrow> store_error + event list" where
  "replay_kvs agentID after [] out = Inr out"
| "replay_kvs agentID after ((k, v) # kvs) out =
     (if length k \<noteq> agentBucketSeqWidth then Inl (MalformedKey agentID)
      else if get_uint64 k > after then
        (case unmarshal_event v of
           None \<Rightarrow> Inl (BadEvent agentID (get_uint64 k))
         | Some ev \<Rightarrow> replay_kvs agentID after kvs (out @ [ev]))
      else replay_kvs agentID after kvs out)"

definition store_Replay :: "'db bolt \<Rightarrow> string \<Rightarrow> u64 \<Rightarrow> 'db \<Rightarrow> store_error + event list" where
  "store_Replay B agentID after db =
     (case view_err B db of
        Some e \<Rightarrow> Inl (BoltError e)
      | None \<Rightarrow>
          if \<not> bucket B db agentID then Inr []
          else replay_kvs agentID after (foreach_kv B db agentID) [])"

definition store_Agents :: "'db bolt \<Rightarrow> 'db \<Rightarrow> store_error + string list" where
  "store_Agents B db =
     (case view_err B db of
        Some e \<Rightarrow> Inl (BoltError e)
      | None \<Rightarrow> Inr (filter (\<lambda>name. name \<noteq> originBucket) (bucket_names B db)))"

section \<open>The interface EventStore\<close>

record 's event_store =
  NextSeq :: "string \<Rightarrow> 's \<Rightarrow> store_error + u64"
  Append :: "string \<Rightarrow> event \<Rightarrow> 's \<Rightarrow> 's \<times> store_error option"
  AppendWithOrigin :: "string \<Rightarrow> event \<Rightarrow> u64 \<Rightarrow> 's \<Rightarrow> 's \<times> store_error option"
  OriginWatermark :: "string \<Rightarrow> 's \<Rightarrow> store_error + u64"
  Replay :: "string \<Rightarrow> u64 \<Rightarrow> 's \<Rightarrow> store_error + event list"
  Agents :: "'s \<Rightarrow> store_error + string list"

definition BoltEventStore :: "'db bolt \<Rightarrow> 'db event_store" where
  "BoltEventStore B =
     \<lparr>NextSeq = store_NextSeq B, Append = store_Append B,
      AppendWithOrigin = store_AppendWithOrigin B, OriginWatermark = store_OriginWatermark B,
      Replay = store_Replay B, Agents = store_Agents B\<rparr>"

lemma BoltEventStore_sel [simp]:
  "NextSeq (BoltEventStore B) = store_NextSeq B"
  "Append (BoltEventStore B) = store_Append B"
  "AppendWithOrigin (BoltEventStore B) = store_AppendWithOrigin B"
  "OriginWatermark (BoltEventStore B) = store_OriginWatermark B"
  "Replay (BoltEventStore B) = store_Replay B"
  "Agents (BoltEventStore B) = store_Agents B"
  by (simp_all add: BoltEventStore_def)

section \<open>What bbolt promises\<close>

text \<open>A bucket is a list of pairs in key order; a put replaces or inserts in order.\<close>

fun kv_insert :: "string \<Rightarrow> 'v \<Rightarrow> (string \<times> 'v) list \<Rightarrow> (string \<times> 'v) list" where
  "kv_insert k v [] = [(k, v)]"
| "kv_insert k v ((k', v') # kvs) =
     (if k < k' then (k, v) # (k', v') # kvs
      else if k = k' then (k, v) # kvs
      else (k', v') # kv_insert k v kvs)"

lemma map_of_kv_insert [simp]: "map_of (kv_insert k v kvs) = (map_of kvs)(k \<mapsto> v)"
  by (induction kvs) auto

lemma kv_insert_last: "\<forall>k' \<in> fst ` set kvs. k' < k \<Longrightarrow> kv_insert k v kvs = kvs @ [(k, v)]"
  by (induction kvs) auto

type_synonym contents = "string \<Rightarrow> (string \<times> bval) list option"

locale bolt_laws =
  fixes B :: "'db bolt"
    and cont :: "'db \<Rightarrow> contents"
    and healthy :: "'db \<Rightarrow> bool"
  assumes bucket_iff: "bucket B db b \<longleftrightarrow> cont db b \<noteq> None"
    and cursor_last_eq:
      "cont db b = Some kvs \<Longrightarrow> cursor_last B db b = (if kvs = [] then None else Some (fst (last kvs)))"
    and bget_eq: "cont db b = Some kvs \<Longrightarrow> bget B db b k = map_of kvs k"
    and foreach_eq: "cont db b = Some kvs \<Longrightarrow> foreach_kv B db b = kvs"
    and names_eq: "set (bucket_names B db) = {b. cont db b \<noteq> None}"
    and create_eq:
      "create_bucket B b db = Inr db' \<Longrightarrow>
         cont db' = (if cont db b = None then (cont db)(b := Some []) else cont db)"
    and put_eq:
      "cont db b = Some kvs \<Longrightarrow> bput B b k v db = Inr db' \<Longrightarrow>
         cont db' = (cont db)(b := Some (kv_insert k v kvs))"
    and update_commit:
      "bupdate B f db = (db', None) \<Longrightarrow>
         \<exists>db0 db1. cont db0 = cont db \<and> f db0 = Inr db1 \<and> cont db' = cont db1"
    and update_rollback: "bupdate B f db = (db', Some e) \<Longrightarrow> cont db' = cont db"
    and healthy_view: "healthy db \<Longrightarrow> view_err B db = None"
    and healthy_create:
      "healthy db \<Longrightarrow> b \<noteq> [] \<Longrightarrow> \<exists>db'. create_bucket B b db = Inr db' \<and> healthy db'"
    and healthy_put:
      "healthy db \<Longrightarrow> cont db b = Some kvs \<Longrightarrow> k \<noteq> [] \<Longrightarrow>
         \<exists>db'. bput B b k v db = Inr db' \<and> healthy db'"
    and healthy_update:
      "healthy db \<Longrightarrow> (\<And>tx. healthy tx \<Longrightarrow> cont tx = cont db \<Longrightarrow>
         \<exists>tx'. f tx = Inr tx' \<and> healthy tx') \<Longrightarrow>
         \<exists>db'. bupdate B f db = (db', None) \<and> healthy db'"

section \<open>What the store promises its clients\<close>

text \<open>
  \<open>logof\<close> is the agent's log, \<open>wmof\<close> its origin watermark, \<open>readable\<close> says that reads
  do not fail, and \<open>healthy\<close> that writes do not either.
\<close>

locale event_store_contract =
  fixes S :: "'s event_store"
    and inv :: "'s \<Rightarrow> bool"
    and logof :: "'s \<Rightarrow> string \<Rightarrow> event list"
    and wmof :: "'s \<Rightarrow> string \<Rightarrow> u64"
    and readable :: "'s \<Rightarrow> bool"
    and healthy :: "'s \<Rightarrow> bool"
    and okid :: "string \<Rightarrow> bool"
  assumes log_seq:
      "inv s \<Longrightarrow> i < length (logof s a) \<Longrightarrow> Seq (logof s a ! i) = of_nat (Suc i)"
    and log_bound: "inv s \<Longrightarrow> length (logof s a) < u64_limit"
    and next_seq:
      "inv s \<Longrightarrow> okid a \<Longrightarrow> readable s \<Longrightarrow> NextSeq S a s = Inr (of_nat (length (logof s a)))"
    and replay:
      "inv s \<Longrightarrow> okid a \<Longrightarrow> readable s \<Longrightarrow>
         Replay S a after s = Inr (filter (\<lambda>e. after < Seq e) (logof s a))"
    and origin_wm: "readable s \<Longrightarrow> OriginWatermark S a s = Inr (wmof s a)"
    and read_err:
      "\<not> readable s \<Longrightarrow> is_err (NextSeq S a s) \<and> is_err (Replay S a after s) \<and>
         is_err (OriginWatermark S a s)"
    and agents:
      "inv s \<Longrightarrow> readable s \<Longrightarrow> \<exists>as. Agents S s = Inr as \<and> set as = {a. logof s a \<noteq> []}"
    and append_ok:
      "inv s \<Longrightarrow> okid a \<Longrightarrow> Suc (length (logof s a)) < u64_limit \<Longrightarrow>
         Append S a ev s = (s', None) \<Longrightarrow>
         inv s' \<and> logof s' = (logof s)(a := logof s a @ [stored_event ev]) \<and> wmof s' = wmof s"
    and append_err:
      "Append S a ev s = (s', Some e) \<Longrightarrow> (inv s \<longrightarrow> inv s') \<and> logof s' = logof s \<and> wmof s' = wmof s"
    and append_live:
      "inv s \<Longrightarrow> okid a \<Longrightarrow> healthy s \<Longrightarrow> Seq ev = of_nat (Suc (length (logof s a))) \<Longrightarrow>
         raw_marshal (Data ev) \<noteq> None \<Longrightarrow> \<exists>s'. Append S a ev s = (s', None) \<and> healthy s'"
    and origin_ok:
      "inv s \<Longrightarrow> okid a \<Longrightarrow> Suc (length (logof s a)) < u64_limit \<Longrightarrow>
         AppendWithOrigin S a ev w s = (s', None) \<Longrightarrow>
         inv s' \<and> logof s' = (logof s)(a := logof s a @ [stored_event ev]) \<and>
         wmof s' = (wmof s)(a := max (wmof s a) w)"
    and origin_err:
      "AppendWithOrigin S a ev w s = (s', Some e) \<Longrightarrow>
         (inv s \<longrightarrow> inv s') \<and> logof s' = logof s \<and> wmof s' = wmof s"
    and origin_live:
      "inv s \<Longrightarrow> okid a \<Longrightarrow> healthy s \<Longrightarrow> Seq ev = of_nat (Suc (length (logof s a))) \<Longrightarrow>
         raw_marshal (Data ev) \<noteq> None \<Longrightarrow> \<exists>s'. AppendWithOrigin S a ev w s = (s', None) \<and> healthy s'"
    and healthy_readable: "healthy s \<Longrightarrow> readable s"

section \<open>The bbolt store keeps the contract\<close>

definition log_bucket :: "(string \<times> bval) list \<Rightarrow> bool" where
  "log_bucket kvs \<longleftrightarrow>
     kvs \<noteq> [] \<and> length kvs < u64_limit \<and>
     (\<forall>i < length kvs. fst (kvs ! i) = seqKey (of_nat (Suc i)) \<and>
        map_option Seq (unmarshal_event (snd (kvs ! i))) = Some (of_nat (Suc i)))"

definition store_inv :: "contents \<Rightarrow> bool" where
  "store_inv C \<longleftrightarrow> (\<forall>a kvs. a \<noteq> originBucket \<longrightarrow> C a = Some kvs \<longrightarrow> log_bucket kvs)"

definition store_log :: "contents \<Rightarrow> string \<Rightarrow> event list" where
  "store_log C a =
     (if a = originBucket then []
      else case C a of None \<Rightarrow> [] | Some kvs \<Rightarrow> map (\<lambda>kv. the (unmarshal_event (snd kv))) kvs)"

definition store_wm :: "contents \<Rightarrow> string \<Rightarrow> u64" where
  "store_wm C a =
     (case C originBucket of
        None \<Rightarrow> 0
      | Some kvs \<Rightarrow> (case watermark (map_of kvs a) of None \<Rightarrow> 0 | Some w \<Rightarrow> w))"

definition agent_id_ok :: "string \<Rightarrow> bool" where
  "agent_id_ok a \<longleftrightarrow> a \<noteq> [] \<and> a \<noteq> originBucket"

lemma seqKey_simps [simp]:
  "length (seqKey s) = 8" "get_uint64 (seqKey s) = s" "seqKey s \<noteq> []"
  by (simp_all add: seqKey_def) (metis length_put_uint64 list.size(3) zero_neq_numeral)

lemma seqKey_less: "seqKey s < seqKey t \<longleftrightarrow> s < t"
  by (simp add: seqKey_def put_uint64_less)

lemma seqKey_inj [simp]: "seqKey s = seqKey t \<longleftrightarrow> s = t"
  by (simp add: seqKey_def)

lemma log_bucket_last:
  "log_bucket kvs \<Longrightarrow> fst (last kvs) = seqKey (of_nat (length kvs))"
  by (auto simp: log_bucket_def last_conv_nth simp flip: of_nat_Suc)

lemma log_bucket_insert:
  assumes kvs: "kvs = [] \<or> log_bucket kvs" and room: "Suc (length kvs) < u64_limit"
    and ev: "marshal_event ev = Some j" "Seq ev = of_nat (Suc (length kvs))"
  shows "kv_insert (seqKey (Seq ev)) (BJson j) kvs = kvs @ [(seqKey (Seq ev), BJson j)]"
    and "log_bucket (kvs @ [(seqKey (Seq ev), BJson j)])"
proof -
  have "k' < seqKey (Seq ev)" if "k' \<in> fst ` set kvs" for k'
  proof -
    from that obtain i where i: "i < length kvs" "k' = fst (kvs ! i)"
      by (auto simp: in_set_conv_nth)
    with kvs have "k' = seqKey (of_nat (Suc i))" by (auto simp: log_bucket_def)
    then show ?thesis
      using i room ev(2) by (simp add: seqKey_less u64_less_iff unat_u64_of_nat del: of_nat_Suc)
  qed
  then show "kv_insert (seqKey (Seq ev)) (BJson j) kvs = kvs @ [(seqKey (Seq ev), BJson j)]"
    by (intro kv_insert_last) blast
  show "log_bucket (kvs @ [(seqKey (Seq ev), BJson j)])"
    using kvs room ev unmarshal_marshal_event [OF ev(1)]
    by (auto simp: log_bucket_def nth_append less_Suc_eq simp del: of_nat_Suc)
qed

lemma replay_kvs_log:
  assumes "\<forall>kv \<in> set kvs. length (fst kv) = 8 \<and>
             (\<exists>e. unmarshal_event (snd kv) = Some e \<and> Seq e = get_uint64 (fst kv))"
  shows "replay_kvs a after kvs out =
    Inr (out @ filter (\<lambda>e. after < Seq e) (map (\<lambda>kv. the (unmarshal_event (snd kv))) kvs))"
  using assms by (induction a after kvs out rule: replay_kvs.induct)
    (auto simp: agentBucketSeqWidth_def)

lemma log_bucket_entries:
  "log_bucket kvs \<Longrightarrow> \<forall>kv \<in> set kvs. length (fst kv) = 8 \<and>
     (\<exists>e. unmarshal_event (snd kv) = Some e \<and> Seq e = get_uint64 (fst kv))"
  by (auto simp: log_bucket_def in_set_conv_nth) (metis fst_conv seqKey_simps(1), metis fst_conv snd_conv seqKey_simps(2))

lemma store_log_cases:
  "a \<noteq> originBucket \<Longrightarrow> C a = None \<Longrightarrow> store_log C a = []"
  "a \<noteq> originBucket \<Longrightarrow> C a = Some kvs \<Longrightarrow>
     store_log C a = map (\<lambda>kv. the (unmarshal_event (snd kv))) kvs"
  by (simp_all add: store_log_def)

context bolt_laws
begin

lemma append_in_tx:
  assumes inv: "store_inv (cont db)" and id: "a \<noteq> originBucket"
    and room: "Suc (length (store_log (cont db) a)) < u64_limit"
    and app: "appendInTx B a ev db = Inr db'"
  shows "store_inv (cont db') \<and> store_log (cont db') = (store_log (cont db))(a := store_log (cont db) a @ [stored_event ev])
     \<and> store_wm (cont db') = store_wm (cont db)"
proof -
  define kvs where "kvs = (case cont db a of None \<Rightarrow> [] | Some kvs \<Rightarrow> kvs)"
  have kvs: "kvs = [] \<or> log_bucket kvs"
    using inv id by (auto simp: kvs_def store_inv_def split: option.split)
  have log: "store_log (cont db) a = map (\<lambda>kv. the (unmarshal_event (snd kv))) kvs"
    using id by (simp add: kvs_def store_log_def split: option.split)
  from app obtain tx where tx: "create_bucket B a db = Inr tx"
    by (auto simp: appendInTx_def split: sum.splits)
  have ctx: "cont tx = (cont db)(a := Some kvs)"
    using create_eq [OF tx] by (auto simp: kvs_def split: option.split)
  have last: "cursor_last B tx a = (if kvs = [] then None else Some (seqKey (of_nat (length kvs))))"
    using cursor_last_eq [of tx a kvs] ctx kvs log_bucket_last by auto
  obtain j where j: "marshal_event ev = Some j" and seq: "Seq ev = of_nat (Suc (length kvs))"
    and put: "bput B a (seqKey (Seq ev)) (BJson j) tx = Inr db'"
    using app tx last by (auto simp: appendInTx_def add.commute split: if_splits option.splits)
  have room': "Suc (length kvs) < u64_limit" using room log by simp
  have c': "cont db' = (cont db)(a := Some (kvs @ [(seqKey (Seq ev), BJson j)]))"
    using put_eq [OF _ put, of kvs] ctx log_bucket_insert(1) [OF kvs room' j seq] by simp
  show ?thesis
    using inv id log unmarshal_marshal_event [OF j] log_bucket_insert(2) [OF kvs room' j seq]
    by (auto simp: c' store_inv_def store_log_def store_wm_def fun_eq_iff)
qed

lemma origin_in_tx:
  assumes app: "originInTx B a w db = Inr db'"
  shows "(store_inv (cont db) \<longrightarrow> store_inv (cont db')) \<and> store_log (cont db') = store_log (cont db) \<and>
     store_wm (cont db') = (store_wm (cont db))(a := max (store_wm (cont db) a) w)"
proof -
  define kvs where "kvs = (case cont db originBucket of None \<Rightarrow> [] | Some kvs \<Rightarrow> kvs)"
  from app obtain tx where tx: "create_bucket B originBucket db = Inr tx"
    by (auto simp: originInTx_def split: sum.splits)
  have ctx: "cont tx = (cont db)(originBucket := Some kvs)"
    using create_eq [OF tx] by (auto simp: kvs_def split: option.split)
  have wm: "store_wm (cont db) x = (case watermark (map_of kvs x) of None \<Rightarrow> 0 | Some w \<Rightarrow> w)" for x
    by (simp add: store_wm_def kvs_def watermark_def split: option.split)
  have get: "bget B tx originBucket a = map_of kvs a"
    using bget_eq [of tx originBucket kvs] ctx by simp
  have "cont db' = cont tx \<and> (\<exists>c. watermark (map_of kvs a) = Some c \<and> c > w) \<or>
      cont db' = (cont tx)(originBucket := Some (kv_insert a (BBytes (seqKey w)) kvs)) \<and>
      (\<forall>c. watermark (map_of kvs a) = Some c \<longrightarrow> c \<le> w)"
    using app tx get put_eq [of tx originBucket kvs a "BBytes (seqKey w)" db'] ctx
    by (auto simp: originInTx_def not_less split: option.splits if_splits)
  then show ?thesis
    using ctx
    by (auto simp: store_inv_def store_log_def fun_eq_iff wm)
       (auto simp: store_wm_def watermark_def max_def split: option.splits)
qed

lemma append_in_tx_live:
  assumes inv: "store_inv (cont db)" and id: "agent_id_ok a" and h: "healthy db"
    and seq: "Seq ev = of_nat (Suc (length (store_log (cont db) a)))"
    and d: "raw_marshal (Data ev) \<noteq> None"
  shows "\<exists>db'. appendInTx B a ev db = Inr db' \<and> healthy db'"
proof -
  define kvs where "kvs = (case cont db a of None \<Rightarrow> [] | Some kvs \<Rightarrow> kvs)"
  have kvs: "kvs = [] \<or> log_bucket kvs" and len: "length (store_log (cont db) a) = length kvs"
    using inv id by (auto simp: kvs_def store_inv_def agent_id_ok_def store_log_def split: option.split)
  obtain tx where tx: "create_bucket B a db = Inr tx" and htx: "healthy tx"
    using healthy_create [OF h] id by (auto simp: agent_id_ok_def)
  have ctx: "cont tx a = Some kvs"
    using create_eq [OF tx] by (auto simp: kvs_def split: option.split)
  have last: "cursor_last B tx a = (if kvs = [] then None else Some (seqKey (of_nat (length kvs))))"
    using cursor_last_eq [OF ctx] kvs log_bucket_last by auto
  obtain j where j: "marshal_event ev = Some j" using d marshal_event_None [of ev] by auto
  obtain db' where "bput B a (seqKey (Seq ev)) (BJson j) tx = Inr db'" "healthy db'"
    using healthy_put [OF htx ctx] by (metis seqKey_simps(3))
  then show ?thesis
    using tx last j seq len by (auto simp: appendInTx_def add.commute)
qed

lemma origin_in_tx_live:
  assumes h: "healthy db" and id: "agent_id_ok a"
  shows "\<exists>db'. originInTx B a w db = Inr db' \<and> healthy db'"
proof -
  obtain tx where tx: "create_bucket B originBucket db = Inr tx" and htx: "healthy tx"
    using healthy_create [OF h, of originBucket] by (auto simp: originBucket_def)
  obtain kvs where ctx: "cont tx originBucket = Some kvs"
    using create_eq [OF tx] by (auto split: if_splits)
  have "\<exists>db'. bput B originBucket a v tx = Inr db' \<and> healthy db'" for v
    using healthy_put [OF htx ctx] id by (auto simp: agent_id_ok_def)
  then show ?thesis
    using tx htx by (auto simp: originInTx_def split: option.split)
qed

end

lemma store_log_nth:
  "store_inv C \<Longrightarrow> i < length (store_log C a) \<Longrightarrow> Seq (store_log C a ! i) = of_nat (Suc i)"
  by (fastforce simp: store_log_def store_inv_def log_bucket_def simp del: of_nat_Suc
        split: if_splits option.splits)

lemma store_log_bound: "store_inv C \<Longrightarrow> length (store_log C a) < u64_limit"
  by (auto simp: store_log_def store_inv_def log_bucket_def split: option.splits)

lemma store_log_nonempty:
  "store_inv C \<Longrightarrow> store_log C a \<noteq> [] \<longleftrightarrow> a \<noteq> originBucket \<and> C a \<noteq> None"
  by (auto simp: store_log_def store_inv_def log_bucket_def split: option.splits)

sublocale bolt_laws \<subseteq> bs: event_store_contract "BoltEventStore B" "\<lambda>db. store_inv (cont db)"
  "\<lambda>db. store_log (cont db)" "\<lambda>db. store_wm (cont db)" "\<lambda>db. view_err B db = None" healthy agent_id_ok
proof (unfold_locales, unfold BoltEventStore_sel)
  fix s a assume inv: "store_inv (cont s)" and id: "agent_id_ok a" and r: "view_err B s = None"
  have a: "a \<noteq> originBucket" using id by (simp add: agent_id_ok_def)
  show "store_NextSeq B a s = Inr (of_nat (length (store_log (cont s) a)))"
  proof (cases "cont s a")
    case None
    then show ?thesis using r a by (simp add: store_NextSeq_def bucket_iff store_log_cases)
  next
    case (Some kvs)
    then have "log_bucket kvs" using inv a by (simp add: store_inv_def)
    with Some r a show ?thesis
      using log_bucket_last [of kvs]
      by (auto simp: store_NextSeq_def bucket_iff cursor_last_eq agentBucketSeqWidth_def store_log_cases)
  qed
  show "store_Replay B a after s = Inr (filter (\<lambda>e. after < Seq e) (store_log (cont s) a))" for after
  proof (cases "cont s a")
    case None
    then show ?thesis using r a by (simp add: store_Replay_def bucket_iff store_log_cases)
  next
    case (Some kvs)
    then have "log_bucket kvs" using inv a by (simp add: store_inv_def)
    with Some r a show ?thesis
      by (simp add: store_Replay_def bucket_iff foreach_eq store_log_cases
          replay_kvs_log [OF log_bucket_entries])
  qed
next
  fix s a assume "view_err B s = None"
  then show "store_OriginWatermark B a s = Inr (store_wm (cont s) a)"
    by (auto simp: store_OriginWatermark_def store_wm_def bucket_iff bget_eq split: option.split)
next
  fix s a after assume "view_err B s \<noteq> None"
  then show "is_err (store_NextSeq B a s) \<and> is_err (store_Replay B a after s) \<and>
      is_err (store_OriginWatermark B a s)"
    by (auto simp: store_NextSeq_def store_Replay_def store_OriginWatermark_def)
next
  fix s assume "store_inv (cont s)" "view_err B s = None"
  then show "\<exists>as. store_Agents B s = Inr as \<and> set as = {a. store_log (cont s) a \<noteq> []}"
    by (auto simp: store_Agents_def names_eq store_log_nonempty)
next
  fix s a ev s'
  assume inv: "store_inv (cont s)" and id: "agent_id_ok a"
    and room: "Suc (length (store_log (cont s) a)) < u64_limit"
  have a: "a \<noteq> originBucket" using id by (simp add: agent_id_ok_def)
  show "store_inv (cont s') \<and>
      store_log (cont s') = (store_log (cont s))(a := store_log (cont s) a @ [stored_event ev]) \<and>
      store_wm (cont s') = store_wm (cont s)"
    if "store_Append B a ev s = (s', None)"
    using update_commit [OF that [unfolded store_Append_def]] append_in_tx a inv room by metis
  show "store_inv (cont s') \<and>
      store_log (cont s') = (store_log (cont s))(a := store_log (cont s) a @ [stored_event ev]) \<and>
      store_wm (cont s') = (store_wm (cont s))(a := max (store_wm (cont s) a) w)"
    if app: "store_AppendWithOrigin B a ev w s = (s', None)" for w
  proof -
    obtain db0 db2 where c: "cont db0 = cont s" "cont s' = cont db2" and
      tx: "(case appendInTx B a ev db0 of Inl e \<Rightarrow> Inl e | Inr tx1 \<Rightarrow> originInTx B a w tx1) = Inr db2"
      using update_commit [OF app [unfolded store_AppendWithOrigin_def]] by blast
    from tx obtain db1 where "appendInTx B a ev db0 = Inr db1" "originInTx B a w db1 = Inr db2"
      by (cases "appendInTx B a ev db0") simp_all
    with c show ?thesis
      using append_in_tx [of db0 a ev db1] origin_in_tx [of a w db1 db2] a inv room by auto
  qed
next
  fix s a ev s' e w
  show "(store_inv (cont s) \<longrightarrow> store_inv (cont s')) \<and> store_log (cont s') = store_log (cont s) \<and>
      store_wm (cont s') = store_wm (cont s)"
    if "store_Append B a ev s = (s', Some e)"
    using update_rollback [OF that [unfolded store_Append_def]] by simp
  show "(store_inv (cont s) \<longrightarrow> store_inv (cont s')) \<and> store_log (cont s') = store_log (cont s) \<and>
      store_wm (cont s') = store_wm (cont s)"
    if "store_AppendWithOrigin B a ev w s = (s', Some e)"
    using update_rollback [OF that [unfolded store_AppendWithOrigin_def]] by simp
next
  fix s a and ev :: event and w
  assume *: "store_inv (cont s)" "agent_id_ok a" and h: "healthy s"
    and **: "Seq ev = of_nat (Suc (length (store_log (cont s) a)))" "raw_marshal (Data ev) \<noteq> None"
  have app: "\<exists>tx'. appendInTx B a ev tx = Inr tx' \<and> healthy tx'"
    if "healthy tx" "cont tx = cont s" for tx
    using append_in_tx_live [of tx a ev] that * ** by simp
  show "\<exists>s'. store_Append B a ev s = (s', None) \<and> healthy s'"
    unfolding store_Append_def by (rule healthy_update [OF h app])
  show "\<exists>s'. store_AppendWithOrigin B a ev w s = (s', None) \<and> healthy s'"
    unfolding store_AppendWithOrigin_def
  proof (rule healthy_update [OF h])
    fix tx assume "healthy tx" "cont tx = cont s"
    then obtain tx1 where "appendInTx B a ev tx = Inr tx1" "healthy tx1" using app by blast
    then show "\<exists>tx'. (case appendInTx B a ev tx of Inl e \<Rightarrow> Inl e | Inr tx1 \<Rightarrow> originInTx B a w tx1) = Inr tx' \<and> healthy tx'"
      using origin_in_tx_live [of tx1 a w] *(2) by simp
  qed
qed (rule store_log_nth store_log_bound healthy_view; assumption)+

context bolt_laws
begin

lemma contract:
  "event_store_contract (BoltEventStore B) (\<lambda>db. store_inv (cont db)) (\<lambda>db. store_log (cont db))
     (\<lambda>db. store_wm (cont db)) (\<lambda>db. view_err B db = None) healthy agent_id_ok"
  by (rule bs.event_store_contract_axioms)

end

section \<open>A database that satisfies the laws\<close>

text \<open>
  An in-memory database: sorted buckets, an error with which each \<open>Update\<close> of a list of
  planned ones fails, and one for reads.  It shows that the laws can hold, and it is what
  concrete runs of the model use.
\<close>

record mem_db =
  mdata :: "(string \<times> (string \<times> bval) list) list"
  mfaults :: "string option list"
  mview :: "string option"

definition mem_empty :: mem_db where
  "mem_empty = \<lparr>mdata = [], mfaults = [], mview = None\<rparr>"

definition mem_cont :: "mem_db \<Rightarrow> contents" where
  "mem_cont db = map_of (mdata db)"

definition mem_healthy :: "mem_db \<Rightarrow> bool" where
  "mem_healthy db \<longleftrightarrow> mview db = None \<and> list_all (\<lambda>f. f = None) (mfaults db)"

definition mem_bolt :: "mem_db bolt" where
  "mem_bolt =
     \<lparr>bucket = (\<lambda>db b. mem_cont db b \<noteq> None),
      cursor_last = (\<lambda>db b. case mem_cont db b of
         Some kvs \<Rightarrow> if kvs = [] then None else Some (fst (last kvs)) | None \<Rightarrow> None),
      bget = (\<lambda>db b k. case mem_cont db b of Some kvs \<Rightarrow> map_of kvs k | None \<Rightarrow> None),
      foreach_kv = (\<lambda>db b. case mem_cont db b of Some kvs \<Rightarrow> kvs | None \<Rightarrow> []),
      bucket_names = (\<lambda>db. map fst (mdata db)),
      create_bucket = (\<lambda>b db.
         if b = [] then Inl (BoltError ''bucket name required'')
         else if mem_cont db b = None then Inr (db\<lparr>mdata := kv_insert b [] (mdata db)\<rparr>) else Inr db),
      bput = (\<lambda>b k v db. case mem_cont db b of
         None \<Rightarrow> Inl (BoltError ''bucket not found'')
       | Some kvs \<Rightarrow> if k = [] then Inl (BoltError ''key required'')
                      else Inr (db\<lparr>mdata := kv_insert b (kv_insert k v kvs) (mdata db)\<rparr>)),
      view_err = mview,
      bupdate = (\<lambda>f db. case mfaults db of
         Some e # fs \<Rightarrow> (db\<lparr>mfaults := fs\<rparr>, Some (BoltError e))
       | fs \<Rightarrow> (case f db of
                  Inl e \<Rightarrow> (db\<lparr>mfaults := tl fs\<rparr>, Some e)
                | Inr db' \<Rightarrow> (db'\<lparr>mfaults := tl fs\<rparr>, None)))\<rparr>"

interpretation mem: bolt_laws mem_bolt mem_cont mem_healthy
proof unfold_locales
  fix f :: "mem_db \<Rightarrow> store_error + mem_db" and db db' :: mem_db
  show "\<exists>db0 db1. mem_cont db0 = mem_cont db \<and> f db0 = Inr db1 \<and> mem_cont db' = mem_cont db1"
    if "bupdate mem_bolt f db = (db', None)"
    using that by - (rule exI [of _ db],
      auto simp: mem_bolt_def mem_cont_def split: list.splits option.splits sum.splits)
next
  fix f :: "mem_db \<Rightarrow> store_error + mem_db" and db :: mem_db
  assume h: "mem_healthy db" and
    f: "\<And>tx. mem_healthy tx \<Longrightarrow> mem_cont tx = mem_cont db \<Longrightarrow> \<exists>tx'. f tx = Inr tx' \<and> mem_healthy tx'"
  obtain tx' where "f db = Inr tx'" "mem_healthy tx'" using f [OF h] by auto
  with h show "\<exists>db'. bupdate mem_bolt f db = (db', None) \<and> mem_healthy db'"
    by (auto simp: mem_bolt_def mem_healthy_def list_all_iff split: list.split option.split
        dest: list.set_sel(2))
next
  show "set (bucket_names mem_bolt db) = {b. mem_cont db b \<noteq> None}" for db
    by (simp add: mem_bolt_def mem_cont_def map_of_eq_None_iff)
qed (auto simp: mem_bolt_def mem_cont_def mem_healthy_def
      split: if_splits option.splits list.splits sum.splits)

text \<open>What evaluates concrete runs of the store.\<close>

named_theorems run_simps \<open>unfoldings for concrete runs\<close>

lemmas store_run_simps [run_simps] =
  BoltEventStore_def store_NextSeq_def store_Append_def store_AppendWithOrigin_def
  store_OriginWatermark_def store_Replay_def store_Agents_def appendInTx_def originInTx_def
  marshal_event_def raw_marshal_def watermark_def unmarshal_event_def zero_event_def
  originBucket_def agentBucketSeqWidth_def mem_bolt_def mem_cont_def mem_empty_def
  seqKey_less to_lower_def lower_char_def less_char_def Let_def json_u64_def

end
