(* ===== verification/Event_Hub.thy ===== *)
theory Event_Hub
  imports Event_Store "HOL-Library.Sublist"
begin

text \<open>
  The per-agent event hub (\<open>controller/events.go\<close>): sequence numbers recovered from the
  store, durable append before fan-out, the origin watermark of pulled records, live
  subscribers with a bounded channel, and the filtered reads.

  Every method of the hub runs under its mutex, so a method is one function on the hub
  and the store, and an interleaving of callers is a list of such calls.
\<close>

section \<open>The hub\<close>

text \<open>A subscriber is its id with the contents of its buffered channel.\<close>

record event_hub =
  agentID :: string
  nextSeq :: u64
  origin :: u64
  subscribers :: "(nat \<times> event list) list"
  nextSub :: nat
  closed :: bool

definition chan_cap :: nat where
  "chan_cap = 256"

definition eventTypeOf :: "raw \<Rightarrow> string" where
  "eventTypeOf r = (case unmarshal_str ''type'' r of None \<Rightarrow> [] | Some t \<Rightarrow> t)"

definition NewEventHub :: "'s event_store \<Rightarrow> string \<Rightarrow> 's \<Rightarrow> store_error + event_hub" where
  "NewEventHub S agent s =
     (case NextSeq S agent s of
        Inl e \<Rightarrow> Inl e
      | Inr next \<Rightarrow>
          (case OriginWatermark S agent s of
             Inl e \<Rightarrow> Inl e
           | Inr wm \<Rightarrow> Inr \<lparr>agentID = agent, nextSeq = next, origin = wm, subscribers = [],
                              nextSub = 0, closed = False\<rparr>))"

text \<open>A send to a full channel takes the \<open>default\<close> branch: the event is dropped for that
  subscriber.\<close>

definition chan_send :: "event \<Rightarrow> event list \<Rightarrow> event list" where
  "chan_send ev ch = (if length ch < chan_cap then ch @ [ev] else ch)"

definition fanout :: "event \<Rightarrow> event_hub \<Rightarrow> event_hub" where
  "fanout ev h = h\<lparr>subscribers := map (\<lambda>(i, ch). (i, chan_send ev ch)) (subscribers h)\<rparr>"

definition PublishPulled ::
    "'s event_store \<Rightarrow> raw \<Rightarrow> u64 \<Rightarrow> event_hub \<Rightarrow> 's \<Rightarrow> event_hub \<times> 's \<times> (store_error + u64)" where
  "PublishPulled S rec spoolID h s =
     (if closed h then (h, s, Inr 0)
      else if spoolID \<le> origin h then (h, s, Inr 0)
      else
        let ev = \<lparr>Seq = nextSeq h + 1, Type = eventTypeOf rec, Data = rec\<rparr> in
        (case AppendWithOrigin S (agentID h) ev spoolID s of
           (s', Some e) \<Rightarrow> (h, s', Inl e)
         | (s', None) \<Rightarrow>
             (fanout ev (h\<lparr>nextSeq := nextSeq h + 1, origin := spoolID\<rparr>), s', Inr (Seq ev))))"

definition Publish :: "'s event_store \<Rightarrow> raw \<Rightarrow> event_hub \<Rightarrow> 's \<Rightarrow> event_hub \<times> 's \<times> u64" where
  "Publish S rec h s =
     (if closed h then (h, s, 0)
      else
        let ev = \<lparr>Seq = nextSeq h + 1, Type = eventTypeOf rec, Data = rec\<rparr> in
        (case Append S (agentID h) ev s of
           (s', Some e) \<Rightarrow> (h, s', 0)
         | (s', None) \<Rightarrow> (fanout ev (h\<lparr>nextSeq := nextSeq h + 1\<rparr>), s', Seq ev)))"

text \<open>The event a lifecycle publish appends; the fields are strings, numbers and booleans,
  on which \<open>mustJSON\<close> does not fail.\<close>

definition lifecycle_event :: "string \<Rightarrow> (string \<times> json) list \<Rightarrow> u64 \<Rightarrow> event" where
  "lifecycle_event eventType flds seq =
     \<lparr>Seq = seq, Type = eventType,
      Data = RawDoc (JObj (obj_put ''seq'' (JNum (of_nat (unat seq)))
                          (obj_put ''type'' (JStr eventType) flds)))\<rparr>"

definition PublishLifecycle ::
    "'s event_store \<Rightarrow> string \<Rightarrow> (string \<times> json) list \<Rightarrow> event_hub \<Rightarrow> 's \<Rightarrow>
     event_hub \<times> 's \<times> event option" where
  "PublishLifecycle S eventType flds h s =
     (if closed h then (h, s, None)
      else
        let ev = lifecycle_event eventType flds (nextSeq h + 1) in
        (case Append S (agentID h) ev s of
           (s', Some e) \<Rightarrow> (h, s', None)
         | (s', None) \<Rightarrow> (fanout ev (h\<lparr>nextSeq := nextSeq h + 1\<rparr>), s', Some ev)))"

text \<open>\<open>Subscribe\<close> returns the replay and the id of the registered channel; the closure
  it returns is \<open>Unsubscribe\<close>.\<close>

definition Subscribe ::
    "'s event_store \<Rightarrow> u64 \<Rightarrow> event_hub \<Rightarrow> 's \<Rightarrow> event_hub \<times> (store_error + event list \<times> nat)" where
  "Subscribe S after h s =
     (case Replay S (agentID h) after s of
        Inl e \<Rightarrow> (h, Inl e)
      | Inr replay \<Rightarrow>
          (h\<lparr>nextSub := nextSub h + 1, subscribers := subscribers h @ [(nextSub h, [])]\<rparr>,
           Inr (replay, nextSub h)))"

definition Unsubscribe :: "nat \<Rightarrow> event_hub \<Rightarrow> event_hub" where
  "Unsubscribe i h = h\<lparr>subscribers := filter (\<lambda>sub. fst sub \<noteq> i) (subscribers h)\<rparr>"

definition hub_Close :: "event_hub \<Rightarrow> event_hub" where
  "hub_Close h = h\<lparr>closed := True\<rparr>"

text \<open>A subscriber's receive from its channel.\<close>

definition chan_recv :: "nat \<Rightarrow> event_hub \<Rightarrow> event_hub \<times> event option" where
  "chan_recv i h =
     (case map_of (subscribers h) i of
        Some (ev # ch) \<Rightarrow>
          (h\<lparr>subscribers := map (\<lambda>(j, c). (j, if j = i then tl c else c)) (subscribers h)\<rparr>, Some ev)
      | _ \<Rightarrow> (h, None))"

section \<open>Reads\<close>

record read_result =
  Events :: "event list"
  Truncated :: bool
  Err :: "store_error option"

text \<open>The loop over the buffer; it breaks when the bound is reached.\<close>

fun filter_loop ::
    "u64 \<Rightarrow> int \<Rightarrow> string list \<Rightarrow> string list \<Rightarrow> event list \<Rightarrow> event list \<Rightarrow> event list" where
  "filter_loop after limit types exclude [] out = out"
| "filter_loop after limit types exclude (ev # buffer) out =
     (if Seq ev \<le> after \<or> Type ev \<in> set exclude then
        filter_loop after limit types exclude buffer out
      else if types \<noteq> [] \<and> Type ev \<notin> set types then
        filter_loop after limit types exclude buffer out
      else if limit > 0 \<and> int (length (out @ [ev])) = limit then out @ [ev]
      else filter_loop after limit types exclude buffer (out @ [ev]))"

definition filterEventsExcluding ::
    "event list \<Rightarrow> u64 \<Rightarrow> int \<Rightarrow> string list \<Rightarrow> string list \<Rightarrow> event list" where
  "filterEventsExcluding buffer after limit types exclude =
     filter_loop after limit types exclude buffer []"

definition filterEvents :: "event list \<Rightarrow> u64 \<Rightarrow> int \<Rightarrow> string list \<Rightarrow> event list" where
  "filterEvents buffer after limit types = filterEventsExcluding buffer after limit types []"

definition ReadFiltered ::
    "'s event_store \<Rightarrow> u64 \<Rightarrow> int \<Rightarrow> string list \<Rightarrow> string list \<Rightarrow> event_hub \<Rightarrow> 's \<Rightarrow> read_result" where
  "ReadFiltered S after limit types exclude h s =
     (case Replay S (agentID h) after s of
        Inl e \<Rightarrow> \<lparr>Events = [], Truncated = False, Err = Some e\<rparr>
      | Inr evs \<Rightarrow> \<lparr>Events = filterEventsExcluding evs after limit types exclude,
                     Truncated = False, Err = None\<rparr>)"

definition hub_Read ::
    "'s event_store \<Rightarrow> u64 \<Rightarrow> int \<Rightarrow> string list \<Rightarrow> event_hub \<Rightarrow> 's \<Rightarrow> read_result" where
  "hub_Read S after limit types h s = ReadFiltered S after limit types [] h s"

text \<open>\<open>evs[len(evs)-n:]\<close> panics for a negative \<open>n\<close>: the value \<open>None\<close>.\<close>

definition ReadLast ::
    "'s event_store \<Rightarrow> int \<Rightarrow> string list \<Rightarrow> event_hub \<Rightarrow> 's \<Rightarrow> read_result option" where
  "ReadLast S n types h s =
     (case Replay S (agentID h) 0 s of
        Inl e \<Rightarrow> Some \<lparr>Events = [], Truncated = False, Err = Some e\<rparr>
      | Inr all \<Rightarrow>
          (let evs = filterEvents all 0 0 types in
           if int (length evs) > n then
             (if n < 0 then None
              else Some \<lparr>Events = drop (length evs - nat n) evs, Truncated = False, Err = None\<rparr>)
           else Some \<lparr>Events = evs, Truncated = False, Err = None\<rparr>))"

definition SubscribeSnapshot :: "'s event_store \<Rightarrow> event_hub \<Rightarrow> 's \<Rightarrow> store_error + event list" where
  "SubscribeSnapshot S h s = Replay S (agentID h) 0 s"

section \<open>Interleavings\<close>

text \<open>The calls on one agent's hub in the order in which they take its lock; \<open>OpRestart\<close>
  is a controller restart, which replaces the hub by \<open>NewEventHub\<close> on the same store.\<close>

datatype hub_op =
    OpPulled raw u64
  | OpPublish raw
  | OpLifecycle string "(string \<times> json) list"
  | OpSubscribe u64
  | OpUnsubscribe nat
  | OpRecv nat
  | OpClose
  | OpRestart

fun hub_step :: "'s event_store \<Rightarrow> event_hub \<times> 's \<Rightarrow> hub_op \<Rightarrow> event_hub \<times> 's" where
  "hub_step S (h, s) (OpPulled r i) = (case PublishPulled S r i h s of (h', s', _) \<Rightarrow> (h', s'))"
| "hub_step S (h, s) (OpPublish r) = (case Publish S r h s of (h', s', _) \<Rightarrow> (h', s'))"
| "hub_step S (h, s) (OpLifecycle t f) = (case PublishLifecycle S t f h s of (h', s', _) \<Rightarrow> (h', s'))"
| "hub_step S (h, s) (OpSubscribe a) = (fst (Subscribe S a h s), s)"
| "hub_step S (h, s) (OpUnsubscribe i) = (Unsubscribe i h, s)"
| "hub_step S (h, s) (OpRecv i) = (fst (chan_recv i h), s)"
| "hub_step S (h, s) OpClose = (hub_Close h, s)"
| "hub_step S (h, s) OpRestart =
     (case NewEventHub S (agentID h) s of Inl e \<Rightarrow> (h, s) | Inr h' \<Rightarrow> (h', s))"

text \<open>The type a call gives to the event it appends.\<close>

fun op_type :: "hub_op \<Rightarrow> string option" where
  "op_type (OpPulled r i) = Some (eventTypeOf r)"
| "op_type (OpPublish r) = Some (eventTypeOf r)"
| "op_type (OpLifecycle t f) = Some t"
| "op_type _ = None"

definition hub_run :: "'s event_store \<Rightarrow> hub_op list \<Rightarrow> event_hub \<times> 's \<Rightarrow> event_hub \<times> 's" where
  "hub_run S ops st = foldl (hub_step S) st ops"

text \<open>The records a run of calls appends through \<open>PublishPulled\<close>, with their spool ids,
  and the events a subscriber takes off its channel.\<close>

fun pulled :: "'s event_store \<Rightarrow> hub_op list \<Rightarrow> event_hub \<times> 's \<Rightarrow> (u64 \<times> raw) list" where
  "pulled S [] st = []"
| "pulled S (op # ops) st =
     (case op of
        OpPulled r i \<Rightarrow>
          (case PublishPulled S r i (fst st) (snd st) of
             (_, _, Inr n) \<Rightarrow> if n = 0 then [] else [(i, r)]
           | (_, _, Inl e) \<Rightarrow> [])
      | _ \<Rightarrow> []) @ pulled S ops (hub_step S st op)"

fun received :: "'s event_store \<Rightarrow> nat \<Rightarrow> hub_op list \<Rightarrow> event_hub \<times> 's \<Rightarrow> event list" where
  "received S i [] st = []"
| "received S i (op # ops) st =
     (if op = OpRecv i then (case snd (chan_recv i (fst st)) of None \<Rightarrow> [] | Some ev \<Rightarrow> [ev]) else [])
     @ received S i ops (hub_step S st op)"

section \<open>The reads select what they should\<close>

definition selected :: "u64 \<Rightarrow> string list \<Rightarrow> string list \<Rightarrow> event \<Rightarrow> bool" where
  "selected after types exclude ev \<longleftrightarrow>
     after < Seq ev \<and> Type ev \<notin> set exclude \<and> (types = [] \<or> Type ev \<in> set types)"

lemma filter_loop_Cons:
  "filter_loop after limit types exclude (ev # evs) out =
     (if \<not> selected after types exclude ev then filter_loop after limit types exclude evs out
      else if limit > 0 \<and> int (length (out @ [ev])) = limit then out @ [ev]
      else filter_loop after limit types exclude evs (out @ [ev]))"
  by (auto simp: selected_def not_less)

lemma filter_loop_eq:
  assumes "limit > 0 \<longrightarrow> int (length out) < limit"
  shows "filter_loop after limit types exclude evs out =
    (if limit > 0 then take (nat limit) (out @ filter (selected after types exclude) evs)
     else out @ filter (selected after types exclude) evs)"
  using assms
proof (induction evs arbitrary: out)
  case (Cons ev evs)
  show ?case
  proof (cases "limit > 0 \<and> int (length (out @ [ev])) = limit")
    case True
    then have "nat limit = Suc (length out)" by (simp add: nat_eq_iff)
    with True Cons show ?thesis by (simp add: filter_loop_Cons del: filter_loop.simps)
  next
    case False
    with Cons.prems have "limit > 0 \<longrightarrow> int (length (out @ [ev])) < limit" by auto
    from Cons.IH [OF this] Cons.IH [OF Cons.prems] False show ?thesis
      by (simp add: filter_loop_Cons del: filter_loop.simps)
  qed
qed auto

lemma filterEventsExcluding_eq:
  "filterEventsExcluding evs after limit types exclude =
    (if limit > 0 then take (nat limit) (filter (selected after types exclude) evs)
     else filter (selected after types exclude) evs)"
  by (simp add: filterEventsExcluding_def filter_loop_eq)

text \<open>In a log whose sequence numbers increase, a non-empty batch and the rest of the log
  after the batch's last event make up the whole selection.\<close>

lemma filter_after_mid:
  "sorted_wrt (<) (map f (xs @ [x] @ ys)) \<Longrightarrow> filter (\<lambda>e. f x < (f e :: 'a :: linorder)) (xs @ [x] @ ys) = ys"
  by (auto simp: sorted_wrt_append filter_empty_conv filter_id_conv dest: less_not_sym)

lemma filter_after_split:
  assumes sorted: "sorted_wrt (<) (map Seq evs)"
    and batch: "take n (filter (selected after types exclude) evs) = batch" "batch \<noteq> []"
  shows "filter (selected after types exclude) evs =
    batch @ filter (selected (Seq (last batch)) types exclude) evs"
proof -
  let ?sel = "filter (selected after types exclude) evs"
  define rest where "rest = drop n ?sel"
  have app: "?sel = batch @ rest"
    using batch(1) append_take_drop_id [of n ?sel] by (simp add: rest_def)
  then have sel: "?sel = butlast batch @ [last batch] @ rest"
    using append_butlast_last_id [OF batch(2)] by (metis append.assoc)
  then have "last batch \<in> set ?sel" by (metis in_set_conv_decomp append_Cons append_Nil)
  then have "filter (selected (Seq (last batch)) types exclude) evs =
      filter (\<lambda>e. Seq (last batch) < Seq e) ?sel"
    unfolding filter_filter by (intro filter_cong) (auto simp: selected_def)
  also have "\<dots> = rest"
  proof -
    have "sorted_wrt (<) (map Seq ?sel)"
      using sorted by (simp add: sorted_wrt_map sorted_wrt_filter)
    then show ?thesis unfolding sel by (rule filter_after_mid)
  qed
  finally show ?thesis using app by simp
qed

section \<open>The hub agrees with the store\<close>

text \<open>The cached counters are those of the agent's log and watermark.\<close>

definition hub_synced :: "event list \<Rightarrow> u64 \<Rightarrow> event_hub \<Rightarrow> bool" where
  "hub_synced evs wm h \<longleftrightarrow> nextSeq h = of_nat (length evs) \<and> origin h = wm"

definition hub_buffer :: "nat \<Rightarrow> event_hub \<Rightarrow> event list" where
  "hub_buffer i h = (case map_of (subscribers h) i of None \<Rightarrow> [] | Some ch \<Rightarrow> ch)"

definition sub_ids_ok :: "event_hub \<Rightarrow> bool" where
  "sub_ids_ok h \<longleftrightarrow> list_all (\<lambda>i. i < nextSub h) (map fst (subscribers h))"

lemma fanout_sel [simp]:
  "agentID (fanout ev h) = agentID h" "nextSeq (fanout ev h) = nextSeq h"
  "origin (fanout ev h) = origin h" "closed (fanout ev h) = closed h"
  "nextSub (fanout ev h) = nextSub h"
  by (simp_all add: fanout_def)

lemma map_of_map_val: "map_of (map (\<lambda>(i, c). (i, f i c)) xs) j = map_option (f j) (map_of xs j)"
  by (induction xs) auto

lemma map_fst_map_val [simp]: "map fst (map (\<lambda>(i, c). (i, f i c)) xs) = map fst xs"
  by (induction xs) auto

lemma list_all_filter: "list_all P (map fst xs) \<Longrightarrow> list_all P (map fst (filter Q xs))"
  by (induction xs) auto

lemma list_all_less_Suc: "list_all (\<lambda>i. i < n) xs \<Longrightarrow> list_all (\<lambda>i. i < Suc n) xs"
  by (induction xs) auto

lemma hub_buffer_fanout:
  "hub_buffer i (fanout ev h) =
     (if map_of (subscribers h) i = None then [] else chan_send ev (hub_buffer i h))"
  by (simp add: hub_buffer_def fanout_def map_of_map_val split: option.split)

lemma raw_marshal_lifecycle [simp]: "raw_marshal (Data (lifecycle_event t f n)) \<noteq> None"
  by (simp add: lifecycle_event_def raw_marshal_def)

lemma lifecycle_event_sel [simp]:
  "Seq (lifecycle_event t f n) = n" "Type (lifecycle_event t f n) = t"
  "stored_event (lifecycle_event t f n) = lifecycle_event t f n"
  by (simp_all add: lifecycle_event_def stored_event_def raw_marshal_def)

definition stored_raw :: "raw \<Rightarrow> raw" where
  "stored_raw r = (case raw_marshal r of None \<Rightarrow> r | Some d \<Rightarrow> RawDoc d)"

lemma Data_stored_event: "Data (stored_event ev) = stored_raw (Data ev)"
  by (simp add: stored_event_def stored_raw_def split: option.split)

context event_store_contract
begin

definition synced :: "event_hub \<Rightarrow> 's \<Rightarrow> bool" where
  "synced h s \<longleftrightarrow> inv s \<and> okid (agentID h) \<and> hub_synced (logof s (agentID h)) (wmof s (agentID h)) h"

definition room :: "nat \<Rightarrow> event_hub \<Rightarrow> 's \<Rightarrow> bool" where
  "room n h s \<longleftrightarrow> length (logof s (agentID h)) + n < u64_limit"

definition appends :: "event_hub \<Rightarrow> 's \<Rightarrow> event list \<Rightarrow> event_hub \<Rightarrow> 's \<Rightarrow> bool" where
  "appends h s evs h' s' \<longleftrightarrow>
     synced h' s' \<and> agentID h' = agentID h \<and>
     logof s' = (logof s)(agentID h := logof s (agentID h) @ map stored_event evs)"

lemma new_hub:
  assumes "inv s" "okid a" "readable s"
  shows "\<exists>h. NewEventHub S a s = Inr h \<and> agentID h = a \<and> synced h s \<and> subscribers h = [] \<and> \<not> closed h"
  using next_seq [OF assms] origin_wm [OF assms(3)] assms
  by (auto simp: NewEventHub_def synced_def hub_synced_def)

lemma new_hub_synced:
  assumes "inv s" "okid a" "NewEventHub S a s = Inr h"
  shows "synced h s \<and> agentID h = a"
proof -
  have "readable s" using assms(3) read_err [of s a] by (auto simp: NewEventHub_def split: sum.splits)
  with new_hub [OF assms(1,2)] assms(3) show ?thesis by auto
qed

lemma appends_Nil:
  "appends h s [] h' s' \<longleftrightarrow> synced h' s' \<and> agentID h' = agentID h \<and> logof s' = logof s"
  by (simp add: appends_def)

lemma publish_pulled_cases:
  assumes ok: "synced h s" "room 1 h s" and res: "PublishPulled S r i h s = (h', s', v)"
  obtains (skipped) "h' = h" "appends h s [] h' s'" "wmof s' = wmof s"
      "closed h \<or> i \<le> origin h \<or> is_err v"
  | (appended) ev where "\<not> closed h" "origin h < i" "ev = \<lparr>Seq = nextSeq h + 1, Type = eventTypeOf r, Data = r\<rparr>"
      "h' = fanout ev (h\<lparr>nextSeq := nextSeq h + 1, origin := i\<rparr>)" "appends h s [ev] h' s'"
      "wmof s' = (wmof s)(agentID h := i)" "v = Inr (Seq ev)"
proof (cases "closed h \<or> i \<le> origin h")
  case True
  then show thesis using ok res by (intro skipped) (auto simp: PublishPulled_def appends_Nil split: if_splits)
next
  case False
  define ev where "ev = \<lparr>Seq = nextSeq h + 1, Type = eventTypeOf r, Data = r\<rparr>"
  obtain s1 x where app: "AppendWithOrigin S (agentID h) ev i s = (s1, x)" by fastforce
  show thesis
  proof (cases x)
    case (Some e)
    with False res app have "h' = h" "s' = s1" "v = Inl e" by (auto simp: PublishPulled_def ev_def)
    then show thesis
      using ok app Some origin_err [of "agentID h" ev i s s1 e]
      by (intro skipped) (auto simp: appends_Nil synced_def)
  next
    case None
    then have h': "h' = fanout ev (h\<lparr>nextSeq := nextSeq h + 1, origin := i\<rparr>)" "s' = s1" "v = Inr (Seq ev)"
      using False res app by (auto simp: PublishPulled_def ev_def)
    have "max (wmof s (agentID h)) i = i"
      using ok(1) False by (auto simp: synced_def hub_synced_def max_def)
    moreover have "inv s1 \<and> logof s1 = (logof s)(agentID h := logof s (agentID h) @ [stored_event ev]) \<and>
        wmof s1 = (wmof s)(agentID h := max (wmof s (agentID h)) i)"
      using ok app None by (intro origin_ok) (auto simp: synced_def room_def)
    ultimately show thesis
      using ok False h' by (intro appended [of ev]) (auto simp: ev_def appends_def synced_def hub_synced_def)
  qed
qed

lemma append_cases:
  assumes ok: "synced h s" "room 1 h s" and res: "Append S (agentID h) ev s = (s', v)"
  shows "(\<exists>e. v = Some e) \<and> appends h s [] h s' \<and> wmof s' = wmof s \<or>
    v = None \<and> appends h s [ev] (fanout ev (h\<lparr>nextSeq := nextSeq h + 1\<rparr>)) s' \<and> wmof s' = wmof s"
proof (cases v)
  case None
  with res ok show ?thesis using append_ok [of s "agentID h" ev s']
    by (auto simp: appends_def synced_def room_def hub_synced_def)
next
  case (Some e)
  with res ok show ?thesis using append_err [of "agentID h" ev s s' e]
    by (auto simp: appends_def synced_def)
qed

definition step_effect :: "event_hub \<Rightarrow> 's \<Rightarrow> event_hub \<Rightarrow> 's \<Rightarrow> event list \<Rightarrow> bool" where
  "step_effect h s h' s' evs \<longleftrightarrow>
     length evs \<le> 1 \<and> appends h s evs h' s' \<and> origin h \<le> origin h' \<and>
     (evs \<noteq> [] \<longrightarrow> subscribers h' = subscribers (fanout (hd evs) h))"

fun publishes :: "hub_op \<Rightarrow> bool" where
  "publishes (OpPulled r i) = True"
| "publishes (OpPublish r) = True"
| "publishes (OpLifecycle t f) = True"
| "publishes op = False"

lemma step_effect_Nil:
  "appends h s [] h' s' \<Longrightarrow> origin h \<le> origin h' \<Longrightarrow> step_effect h s h' s' [] \<and> Type ` set [] \<subseteq> T"
  by (simp add: step_effect_def)

lemma append_effect:
  assumes ok: "synced h s" "room 1 h s" and app: "Append S (agentID h) ev s = (s', v)"
    and h': "h' = (if v = None then fanout ev (h\<lparr>nextSeq := nextSeq h + 1\<rparr>) else h)"
  shows "\<exists>evs. step_effect h s h' s' evs \<and> set evs \<subseteq> {ev}"
  using append_cases [OF ok app] h'
  by (cases v) (auto simp: step_effect_def fanout_def intro: exI [of _ "[]"] exI [of _ "[ev]"])

text \<open>One step appends at most one event, to this agent's log only.\<close>

lemma hub_step_effect:
  assumes ok: "synced h s" "room 1 h s" and res: "hub_step S (h, s) op = (h', s')"
  shows "\<exists>evs. step_effect h s h' s' evs \<and> Type ` set evs \<subseteq> set_option (op_type op)"
proof (cases op)
  case (OpPulled r i)
  then obtain v where "PublishPulled S r i h s = (h', s', v)"
    using res by (cases "PublishPulled S r i h s") auto
  from ok this show ?thesis
  proof (cases rule: publish_pulled_cases)
    case skipped
    then show ?thesis by (intro exI [of _ "[]"] step_effect_Nil) simp_all
  next
    case (appended ev)
    then show ?thesis by (intro exI [of _ "[ev]"]) (simp add: step_effect_def fanout_def OpPulled)
  qed
next
  case (OpPublish r)
  let ?ev = "\<lparr>Seq = nextSeq h + 1, Type = eventTypeOf r, Data = r\<rparr>"
  obtain s1 v where app: "Append S (agentID h) ?ev s = (s1, v)" by fastforce
  show ?thesis
  proof (cases "closed h")
    case True
    with res OpPublish ok show ?thesis
      by (intro exI [of _ "[]"] step_effect_Nil) (auto simp: Publish_def appends_Nil)
  next
    case False
    with res OpPublish app have "\<exists>evs. step_effect h s h' s' evs \<and> set evs \<subseteq> {?ev}"
      by (intro append_effect [OF ok, of ?ev s' v]) (auto simp: Publish_def Let_def split: option.splits)
    with OpPublish show ?thesis by fastforce
  qed
next
  case (OpLifecycle t f)
  let ?ev = "lifecycle_event t f (nextSeq h + 1)"
  obtain s1 v where app: "Append S (agentID h) ?ev s = (s1, v)" by fastforce
  show ?thesis
  proof (cases "closed h")
    case True
    with res OpLifecycle ok show ?thesis
      by (intro exI [of _ "[]"] step_effect_Nil) (auto simp: PublishLifecycle_def appends_Nil)
  next
    case False
    with res OpLifecycle app have "\<exists>evs. step_effect h s h' s' evs \<and> set evs \<subseteq> {?ev}"
      by (intro append_effect [OF ok, of ?ev s' v]) (auto simp: PublishLifecycle_def Let_def split: option.splits)
    with OpLifecycle show ?thesis by fastforce
  qed
next
  case OpRestart
  show ?thesis
  proof (cases "NewEventHub S (agentID h) s")
    case (Inr h0)
    with ok have "synced h0 s \<and> agentID h0 = agentID h" by (intro new_hub_synced) (auto simp: synced_def)
    with Inr OpRestart res ok show ?thesis
      by (intro exI [of _ "[]"] step_effect_Nil) (auto simp: appends_Nil synced_def hub_synced_def)
  qed (use OpRestart res ok in \<open>auto simp: appends_Nil step_effect_def intro!: exI [of _ "[]"]\<close>)
qed (use res ok in \<open>auto simp: appends_Nil step_effect_def synced_def hub_synced_def Subscribe_def
      Unsubscribe_def chan_recv_def hub_Close_def intro!: exI [of _ "[]"]
      split: sum.splits option.splits list.splits\<close>)

lemma appends_trans:
  "appends h s evs h1 s1 \<Longrightarrow> appends h1 s1 evs' h2 s2 \<Longrightarrow> appends h s (evs @ evs') h2 s2"
  by (simp add: appends_def)

lemma appends_room: "appends h s evs h' s' \<Longrightarrow> room (length evs + n) h s \<Longrightarrow> room n h' s'"
  by (simp add: appends_def room_def)

lemma room_mono: "room n h s \<Longrightarrow> m \<le> n \<Longrightarrow> room m h s"
  by (simp add: room_def)

lemma hub_run_simps [simp]:
  "hub_run S [] st = st" "hub_run S (op # ops) st = hub_run S ops (hub_step S st op)"
  by (simp_all add: hub_run_def)

lemma hub_run_step:
  assumes ok: "synced h s" "room (Suc n) h s" and st: "hub_step S (h, s) op = (h1, s1)"
  obtains evs where "step_effect h s h1 s1 evs" "appends h s evs h1 s1" "synced h1 s1" "room n h1 s1"
    "agentID h1 = agentID h" "Type ` set evs \<subseteq> set_option (op_type op)"
proof -
  obtain evs where e: "step_effect h s h1 s1 evs" "Type ` set evs \<subseteq> set_option (op_type op)"
    using hub_step_effect [OF ok(1) _ st] room_mono [OF ok(2)] by auto
  then have "appends h s evs h1 s1" "length evs \<le> 1" by (auto simp: step_effect_def)
  moreover from this have "room n h1 s1"
    using appends_room [of h s evs h1 s1 n] room_mono [OF ok(2), of "length evs + n"] by simp
  ultimately show thesis using e that by (simp add: appends_def)
qed

lemma hub_run_appends:
  assumes "synced h s" "room (length ops) h s" "hub_run S ops (h, s) = (h', s')"
  shows "\<exists>evs. length evs \<le> length ops \<and> appends h s evs h' s'"
  using assms
proof (induction ops arbitrary: h s)
  case Nil
  then show ?case by (auto simp: appends_Nil intro!: exI [of _ "[]"])
next
  case (Cons op ops)
  obtain h1 s1 where st: "hub_step S (h, s) op = (h1, s1)" by fastforce
  obtain evs where evs: "step_effect h s h1 s1 evs" "appends h s evs h1 s1" and
    ok: "synced h1 s1" "room (length ops) h1 s1"
    by (rule hub_run_step [OF Cons.prems(1) _ st, of "length ops"])
       (use Cons.prems(2) in simp, blast intro: that)
  from Cons.IH [OF ok] Cons.prems(3) st
  obtain evs' where "length evs' \<le> length ops" "appends h1 s1 evs' h' s'" by auto
  then show ?case
    using evs appends_trans by (intro exI [of _ "evs @ evs'"]) (auto simp: step_effect_def)
qed

lemma origin_step:
  assumes ok: "synced h s" and st: "hub_step S (h, s) op = (h1, s1)" and "\<And>r i. op \<noteq> OpPulled r i"
  shows "origin h1 = origin h"
proof (cases op)
  case OpRestart
  with st ok new_hub_synced [of s "agentID h"] show ?thesis
    by (auto simp: synced_def hub_synced_def split: sum.splits)
qed (use st assms(3) in \<open>auto simp: Publish_def PublishLifecycle_def Let_def Subscribe_def
      Unsubscribe_def chan_recv_def hub_Close_def
      split: if_splits prod.splits option.splits sum.splits list.splits\<close>)

lemma seq_nonzero:
  assumes "synced h s" "room 1 h s"
  shows "nextSeq h + 1 \<noteq> 0"
proof -
  let ?n = "length (logof s (agentID h))"
  have "nextSeq h + 1 = of_nat (Suc ?n)"
    using assms(1) by (simp add: synced_def hub_synced_def)
  moreover have "unat (of_nat (Suc ?n) :: u64) = Suc ?n"
    using assms(2) by (intro unat_u64_of_nat) (simp add: room_def)
  ultimately show ?thesis by (metis nat.simps(3) unat_0)
qed

lemma pulled_step:
  assumes ok: "synced h s" "room 1 h s" and st: "hub_step S (h, s) op = (h1, s1)"
    and e: "appends h s evs h1 s1"
  shows "pulled S [op] (h, s) = [] \<and> origin h1 = origin h \<or>
    (\<exists>i r. pulled S [op] (h, s) = [(i, r)] \<and> origin h < i \<and> origin h1 = i \<and>
       map (\<lambda>e. Data (stored_event e)) evs = [stored_raw r])"
proof (cases "\<exists>r i. op = OpPulled r i")
  case True
  then obtain r i where op: "op = OpPulled r i" by blast
  then obtain v where pub: "PublishPulled S r i h s = (h1, s1, v)"
    using st by (cases "PublishPulled S r i h s") auto
  from ok pub show ?thesis
  proof (cases rule: publish_pulled_cases)
    case skipped
    with pub op show ?thesis by (cases v) (auto simp: PublishPulled_def split: if_splits)
  next
    case (appended ev)
    then have "map stored_event evs = [stored_event ev]"
      using e by (simp add: appends_def fun_upd_def fun_eq_iff split: if_splits)
    then have "map Data (map stored_event evs) = map Data [stored_event ev]" by simp
    then have "map (\<lambda>e. Data (stored_event e)) evs = [stored_raw r]"
      using appended(3) by (simp add: Data_stored_event comp_def)
    with appended op pub seq_nonzero [OF ok] show ?thesis by simp
  qed
next
  case False
  then have "pulled S [op] (h, s) = []" by (auto split: hub_op.split)
  with origin_step [OF ok(1) st] False show ?thesis by auto
qed

text \<open>Exactly once: a spool id is appended at most once and in increasing order, whatever
  is pulled again and however often the controller restarts, and the watermark is the
  last appended id.\<close>

lemma pulled_exactly_once:
  assumes "synced h s" "room (length ops) h s" "hub_run S ops (h, s) = (h', s')"
  shows "\<exists>evs. appends h s evs h' s' \<and>
     sorted_wrt (<) (origin h # map fst (pulled S ops (h, s))) \<and>
     origin h' = last (origin h # map fst (pulled S ops (h, s))) \<and>
     subseq (map (\<lambda>p. stored_raw (snd p)) (pulled S ops (h, s))) (map (\<lambda>e. Data (stored_event e)) evs)"
  using assms
proof (induction ops arbitrary: h s)
  case Nil
  then show ?case by (auto simp: appends_Nil intro!: exI [of _ "[]"])
next
  case (Cons op ops)
  obtain h1 s1 where st: "hub_step S (h, s) op = (h1, s1)" by fastforce
  obtain evs where evs: "appends h s evs h1 s1" and
    ok: "synced h1 s1" "room (length ops) h1 s1"
    by (rule hub_run_step [OF Cons.prems(1) _ st, of "length ops"])
       (use Cons.prems(2) in simp, blast intro: that)
  from Cons.IH [OF ok] Cons.prems(3) st
  obtain evs' where evs': "appends h1 s1 evs' h' s'"
    and sorted: "sorted_wrt (<) (origin h1 # map fst (pulled S ops (h1, s1)))"
    and last: "origin h' = last (origin h1 # map fst (pulled S ops (h1, s1)))"
    and sub: "subseq (map (\<lambda>p. stored_raw (snd p)) (pulled S ops (h1, s1))) (map (\<lambda>e. Data (stored_event e)) evs')"
    by auto
  have "room 1 h s" using Cons.prems(2) by (rule room_mono) simp
  note one = pulled_step [OF Cons.prems(1) this st evs]
  have cons: "pulled S (op # ops) (h, s) = pulled S [op] (h, s) @ pulled S ops (h1, s1)"
    using st by simp
  note all = appends_trans [OF evs evs'] sorted last sub
  from one show ?case
  proof (elim disjE exE conjE)
    assume "pulled S [op] (h, s) = []" "origin h1 = origin h"
    with all show ?thesis
      by (intro exI [of _ "evs @ evs'"]) (simp add: cons list_emb_append2 del: pulled.simps)
  next
    fix i r
    assume "pulled S [op] (h, s) = [(i, r)]" "origin h < i" "origin h1 = i"
      "map (\<lambda>e. Data (stored_event e)) evs = [stored_raw r]"
    with all show ?thesis
      by (intro exI [of _ "evs @ evs'"]) (auto simp add: cons simp del: pulled.simps)
  qed
qed

text \<open>A live subscriber: what it has taken off its channel and what is still buffered is
  a subsequence of the events appended since it subscribed, and all of them as long as the
  channel cannot have been full.\<close>

lemma chan_recv_buffer:
  "hub_buffer i (fst (chan_recv j h)) =
     (if j = i then tl (hub_buffer i h) else hub_buffer i h)"
  "snd (chan_recv i h) = (case hub_buffer i h of [] \<Rightarrow> None | ev # ch \<Rightarrow> Some ev)"
  by (auto simp: chan_recv_def hub_buffer_def map_of_map_val split: option.splits list.splits)

lemma map_of_unsubscribe: "map_of (filter (\<lambda>x. fst x \<noteq> j) xs) i = (if i = j then None else map_of xs i)"
  by (induction xs) auto

lemma chan_recv_subscribed:
  "map_of (subscribers (fst (chan_recv j h))) i = None \<longleftrightarrow> map_of (subscribers h) i = None"
  "(\<exists>c. map_of (subscribers (fst (chan_recv j h))) i = Some c) \<longleftrightarrow> (\<exists>c. map_of (subscribers h) i = Some c)"
  by (auto simp: chan_recv_def map_of_map_val split: option.splits list.splits)

lemma subscribe_buffer:
  assumes "i < nextSub h"
  shows "hub_buffer i (fst (Subscribe S a h s)) = hub_buffer i h"
    and "map_of (subscribers (fst (Subscribe S a h s))) i = map_of (subscribers h) i"
  using assms by (auto simp: Subscribe_def hub_buffer_def map_of_append map_add_def split: sum.splits option.splits)

lemma unsubscribe_buffer:
  "hub_buffer i (Unsubscribe j h) = (if i = j then [] else hub_buffer i h)"
  "map_of (subscribers (Unsubscribe j h)) i = (if i = j then None else map_of (subscribers h) i)"
  by (simp_all add: Unsubscribe_def hub_buffer_def map_of_unsubscribe)

lemma close_buffer: "hub_buffer i (h\<lparr>closed := b\<rparr>) = hub_buffer i h"
  by (simp add: hub_buffer_def)

lemma sub_ids_lookup: "sub_ids_ok h \<Longrightarrow> map_of (subscribers h) i \<noteq> None \<Longrightarrow> i < nextSub h"
  by (auto simp: sub_ids_ok_def list_all_iff dest!: map_of_SomeD)

lemma sub_ids_step:
  assumes "sub_ids_ok h" "hub_step S (h, s) op = (h1, s1)"
  shows "sub_ids_ok h1 \<and> (op \<noteq> OpRestart \<longrightarrow> nextSub h \<le> nextSub h1)"
  using assms
  by (cases op)
     (auto simp: sub_ids_ok_def PublishPulled_def Publish_def PublishLifecycle_def Let_def Subscribe_def
        Unsubscribe_def chan_recv_def hub_Close_def fanout_def NewEventHub_def list_all_filter list_all_less_Suc
        simp del: map_map
        split: if_splits prod.splits option.splits sum.splits list.splits)

lemma publish_subscribers:
  assumes ok: "synced h s" and st: "hub_step S (h, s) op = (h1, s1)" and e: "step_effect h s h1 s1 evs"
    and op: "publishes op"
  shows "subscribers h1 = (if evs = [] then subscribers h else subscribers (fanout (hd evs) h))"
proof (cases evs)
  case Nil
  then have "nextSeq h1 = nextSeq h"
    using e ok by (auto simp: step_effect_def appends_Nil synced_def hub_synced_def)
  with st op Nil show ?thesis
    by (cases op rule: publishes.cases)
       (auto simp: PublishPulled_def Publish_def PublishLifecycle_def Let_def
          split: if_splits prod.splits option.splits)
qed (use e in \<open>simp add: step_effect_def\<close>)

lemma subscriber_step:
  assumes ok: "synced h s" and st: "hub_step S (h, s) op = (h1, s1)"
    and ids: "sub_ids_ok h" "i < nextSub h" and op: "op \<noteq> OpRestart"
    and e: "step_effect h s h1 s1 evs"
  shows "subseq (received S i [op] (h, s) @ hub_buffer i h1) (hub_buffer i h @ evs)"
    and "op \<noteq> OpUnsubscribe i \<Longrightarrow> map_of (subscribers h) i \<noteq> None \<Longrightarrow>
      map_of (subscribers h1) i \<noteq> None \<and>
      (length (hub_buffer i h) < chan_cap \<longrightarrow>
         received S i [op] (h, s) @ hub_buffer i h1 = hub_buffer i h @ evs)"
proof -
  have "subseq (received S i [op] (h, s) @ hub_buffer i h1) (hub_buffer i h @ evs) \<and>
    (op \<noteq> OpUnsubscribe i \<longrightarrow> map_of (subscribers h) i \<noteq> None \<longrightarrow>
      map_of (subscribers h1) i \<noteq> None \<and>
      (length (hub_buffer i h) < chan_cap \<longrightarrow>
         received S i [op] (h, s) @ hub_buffer i h1 = hub_buffer i h @ evs))"
  proof (cases "publishes op")
    case True
    then have rec: "received S i [op] (h, s) = []" by (cases op) auto
    show ?thesis
    proof (cases evs)
      case Nil
      with publish_subscribers [OF ok st e True] rec show ?thesis
        by (simp add: hub_buffer_def)
    next
      case (Cons ev evs')
      then have "evs' = []" using e by (simp add: step_effect_def)
      with Cons publish_subscribers [OF ok st e True] rec show ?thesis
        using hub_buffer_fanout [of i ev h]
        by (auto simp: hub_buffer_def chan_send_def fanout_def map_of_map_val split: option.splits)
    qed
  next
    case False
    then have "logof s1 = logof s"
      using st by (cases op) (auto simp: Subscribe_def split: sum.splits)
    moreover have "logof s1 (agentID h) = logof s (agentID h) @ map stored_event evs"
      using e by (simp add: step_effect_def appends_def)
    ultimately have "evs = []" by simp
    with False st op ids show ?thesis
      by (cases op)
         (auto simp: chan_recv_buffer chan_recv_subscribed subscribe_buffer unsubscribe_buffer
            hub_Close_def close_buffer split: list.splits)
  qed
  then show "subseq (received S i [op] (h, s) @ hub_buffer i h1) (hub_buffer i h @ evs)"
    and "op \<noteq> OpUnsubscribe i \<Longrightarrow> map_of (subscribers h) i \<noteq> None \<Longrightarrow>
      map_of (subscribers h1) i \<noteq> None \<and>
      (length (hub_buffer i h) < chan_cap \<longrightarrow>
         received S i [op] (h, s) @ hub_buffer i h1 = hub_buffer i h @ evs)"
    by blast+
qed

lemma received_Cons:
  "hub_step S st op = st1 \<Longrightarrow> received S i (op # ops) st = received S i [op] st @ received S i ops st1"
  by simp

lemma subscriber_run:
  assumes "synced h s" "room (length ops) h s" "hub_run S ops (h, s) = (h', s')"
    and "sub_ids_ok h" "i < nextSub h" "OpRestart \<notin> set ops"
  shows "\<exists>evs. appends h s evs h' s' \<and>
     subseq (received S i ops (h, s) @ hub_buffer i h') (hub_buffer i h @ evs) \<and>
     (OpUnsubscribe i \<notin> set ops \<longrightarrow> map_of (subscribers h) i \<noteq> None \<longrightarrow>
        length (hub_buffer i h) + length ops \<le> chan_cap \<longrightarrow>
        received S i ops (h, s) @ hub_buffer i h' = hub_buffer i h @ evs)"
  using assms
proof (induction ops arbitrary: h s)
  case Nil
  then show ?case by (auto simp: appends_Nil intro!: exI [of _ "[]"])
next
  case (Cons op ops)
  obtain h1 s1 where st: "hub_step S (h, s) op = (h1, s1)" by fastforce
  obtain evs where e: "step_effect h s h1 s1 evs" and evs: "appends h s evs h1 s1" and
    ok: "synced h1 s1" "room (length ops) h1 s1"
    by (rule hub_run_step [OF Cons.prems(1) _ st, of "length ops"])
       (use Cons.prems(2) in simp, blast intro: that)
  have op: "op \<noteq> OpRestart" and ops: "OpRestart \<notin> set ops" using Cons.prems(6) by auto
  have ids: "sub_ids_ok h1" "i < nextSub h1"
    using sub_ids_step [OF Cons.prems(4) st] op Cons.prems(5) by auto
  note step = subscriber_step [OF Cons.prems(1) st Cons.prems(4,5) op e]
  have run: "hub_run S ops (h1, s1) = (h', s')" using Cons.prems(3) st by simp
  from Cons.IH [OF ok run ids ops] obtain evs' where evs': "appends h1 s1 evs' h' s'"
    and sub: "subseq (received S i ops (h1, s1) @ hub_buffer i h') (hub_buffer i h1 @ evs')"
    and eq: "OpUnsubscribe i \<notin> set ops \<longrightarrow> map_of (subscribers h1) i \<noteq> None \<longrightarrow>
        length (hub_buffer i h1) + length ops \<le> chan_cap \<longrightarrow>
        received S i ops (h1, s1) @ hub_buffer i h' = hub_buffer i h1 @ evs'"
    by auto
  let ?r = "received S i [op] (h, s)"
  have rc: "received S i (op # ops) (h, s) = ?r @ received S i ops (h1, s1)"
    by (rule received_Cons [OF st])
  have "subseq (?r @ received S i ops (h1, s1) @ hub_buffer i h') (?r @ hub_buffer i h1 @ evs')"
    using sub by (simp add: subseq_append' del: received.simps)
  moreover have "subseq (?r @ hub_buffer i h1 @ evs') (hub_buffer i h @ evs @ evs')"
    using list_emb_append_mono [OF step(1) subseq_order.refl [of evs']] by simp
  ultimately have all: "subseq (received S i (op # ops) (h, s) @ hub_buffer i h') (hub_buffer i h @ evs @ evs')"
    unfolding rc append.assoc by (rule subseq_order.trans)
  have "received S i (op # ops) (h, s) @ hub_buffer i h' = hub_buffer i h @ evs @ evs'"
    if un: "OpUnsubscribe i \<notin> set (op # ops)" and sb: "map_of (subscribers h) i \<noteq> None"
      and len: "length (hub_buffer i h) + length (op # ops) \<le> chan_cap"
  proof -
    have one: "map_of (subscribers h1) i \<noteq> None" "?r @ hub_buffer i h1 = hub_buffer i h @ evs"
      using step(2) un sb len by auto
    have "length (?r @ hub_buffer i h1) = length (hub_buffer i h @ evs)" by (simp only: one(2))
    then have "length (hub_buffer i h1) \<le> Suc (length (hub_buffer i h))"
      using e by (simp add: step_effect_def del: received.simps)
    with eq one un len have "received S i ops (h1, s1) @ hub_buffer i h' = hub_buffer i h1 @ evs'" by auto
    then show ?thesis
      unfolding rc append.assoc using one(2) by (metis append.assoc)
  qed
  then show ?case using all appends_trans [OF evs evs'] by (intro exI [of _ "evs @ evs'"]) auto
qed

text \<open>A healthy store accepts every new record whose text is JSON.\<close>

lemma publish_pulled_live:
  assumes ok: "synced h s" "healthy s" and op: "\<not> closed h" "origin h < i"
    and raw: "raw_marshal r \<noteq> None"
  shows "\<exists>h' s'. PublishPulled S r i h s = (h', s', Inr (nextSeq h + 1)) \<and> healthy s'"
proof -
  let ?ev = "\<lparr>Seq = nextSeq h + 1, Type = eventTypeOf r, Data = r\<rparr>"
  obtain s' where "AppendWithOrigin S (agentID h) ?ev i s = (s', None)" "healthy s'"
    using origin_live [of s "agentID h" ?ev i] ok raw by (auto simp: synced_def hub_synced_def)
  with op show ?thesis by (auto simp: PublishPulled_def)
qed

lemma publish_lifecycle_live:
  assumes "synced h s" "healthy s" "\<not> closed h"
  shows "\<exists>h' s'. PublishLifecycle S t f h s = (h', s', Some (lifecycle_event t f (nextSeq h + 1))) \<and> healthy s'"
proof -
  obtain s' where "Append S (agentID h) (lifecycle_event t f (nextSeq h + 1)) s = (s', None)" "healthy s'"
    using append_live [of s "agentID h" "lifecycle_event t f (nextSeq h + 1)"] assms
    by (auto simp: synced_def hub_synced_def)
  with assms show ?thesis by (simp add: PublishLifecycle_def Let_def)
qed

end

section \<open>Properties of the hub over the bbolt store\<close>

lemma log_seqs:
  assumes "\<And>i. i < length evs \<Longrightarrow> Seq (evs ! i) = of_nat (Suc i)" "length evs < u64_limit"
  shows "map (\<lambda>e. unat (Seq e)) evs = [1..<Suc (length evs)]"
  using assms by (intro nth_equalityI) (auto simp: unat_u64_of_nat simp del: of_nat_Suc upt_Suc)

lemma log_seqs_sorted:
  assumes "map (\<lambda>e. unat (Seq e)) evs = [1..<Suc (length evs)]"
  shows "sorted_wrt (<) (map Seq evs)"
proof -
  have "sorted_wrt (<) (map (\<lambda>e. unat (Seq e)) evs)"
    unfolding assms by (rule sorted_wrt_upt)
  then show ?thesis by (simp add: sorted_wrt_map u64_less_iff)
qed

context event_store_contract
begin

lemma synced_seqs: "inv s \<Longrightarrow> map (\<lambda>e. unat (Seq e)) (logof s a) = [1..<Suc (length (logof s a))]"
  by (intro log_seqs log_seq log_bound)

lemma new_hub_run:
  assumes "inv s" "okid a" "NewEventHub S a s = Inr h" "length (logof s a) + length ops < u64_limit"
  shows "synced h s" "room (length ops) h s" "agentID h = a" "sub_ids_ok h" "origin h = wmof s a"
proof -
  have "subscribers h = []" using assms(3) by (auto simp: NewEventHub_def split: sum.splits)
  with new_hub_synced [OF assms(1-3)] assms(4)
  show "synced h s" "room (length ops) h s" "agentID h = a" "sub_ids_ok h" "origin h = wmof s a"
    by (auto simp: room_def synced_def hub_synced_def sub_ids_ok_def)
qed

lemma run_no_gap_no_reuse:
  assumes "inv s" "okid a" "NewEventHub S a s = Inr h"
    and "length (logof s a) + length ops < u64_limit" and "hub_run S ops (h, s) = (h', s')"
  shows "\<exists>evs. logof s' = (logof s)(a := logof s a @ evs) \<and> length evs \<le> length ops \<and>
      map (\<lambda>e. unat (Seq e)) (logof s' a) = [1..<Suc (length (logof s' a))] \<and>
      nextSeq h' = of_nat (length (logof s' a)) \<and> origin h' = wmof s' a"
proof -
  note ok = new_hub_run [OF assms(1-4)]
  obtain evs where evs: "length evs \<le> length ops" "appends h s evs h' s'"
    using hub_run_appends [OF ok(1,2) assms(5)] by auto
  then have "inv s'" and sync: "hub_synced (logof s' a) (wmof s' a) h'"
    and app: "logof s' = (logof s)(a := logof s a @ map stored_event evs)"
    using ok(3) by (auto simp: appends_def synced_def)
  from synced_seqs [OF this(1)] app evs(1) sync show ?thesis
    unfolding hub_synced_def
    by (intro exI [of _ "map stored_event evs"] conjI; (elim conjE)?; (assumption | simp only: length_map))
qed

lemma run_inv:
  assumes "inv s" "okid a" "NewEventHub S a s = Inr h"
    and "length (logof s a) + length ops < u64_limit" and "hub_run S ops (h, s) = (h', s')"
  shows "inv s'"
  using hub_run_appends [OF new_hub_run(1,2) [OF assms(1-4)] assms(5)]
  by (auto simp: appends_def synced_def)

lemma run_exactly_once:
  assumes "inv s" "okid a" "NewEventHub S a s = Inr h"
    and "length (logof s a) + length ops < u64_limit" and "hub_run S ops (h, s) = (h', s')"
  shows "sorted_wrt (<) (wmof s a # map fst (pulled S ops (h, s))) \<and>
     wmof s' a = last (wmof s a # map fst (pulled S ops (h, s))) \<and>
     subseq (map (\<lambda>p. stored_raw (snd p)) (pulled S ops (h, s)))
       (map Data (drop (length (logof s a)) (logof s' a)))"
proof -
  note ok = new_hub_run [OF assms(1-4)]
  obtain evs where "appends h s evs h' s'"
    "sorted_wrt (<) (origin h # map fst (pulled S ops (h, s)))"
    "origin h' = last (origin h # map fst (pulled S ops (h, s)))"
    "subseq (map (\<lambda>p. stored_raw (snd p)) (pulled S ops (h, s))) (map (\<lambda>e. Data (stored_event e)) evs)"
    using pulled_exactly_once [OF ok(1,2) assms(5)] by blast
  with ok(3,5) show ?thesis by (auto simp: appends_def synced_def hub_synced_def comp_def)
qed

lemma sub_ids_run: "sub_ids_ok h \<Longrightarrow> hub_run S ops (h, s) = (h', s') \<Longrightarrow> sub_ids_ok h'"
proof (induction ops arbitrary: h s)
  case (Cons op ops)
  obtain h1 s1 where st: "hub_step S (h, s) op = (h1, s1)" by fastforce
  have "sub_ids_ok h1" using sub_ids_step [OF Cons.prems(1) st] by blast
  with Cons.IH Cons.prems(2) st show ?case by simp
qed simp

lemma subscribe_fresh:
  assumes ok: "synced h s" "sub_ids_ok h" and sub: "Subscribe S after h s = (h1, Inr (replay, i))"
  shows "replay = filter (\<lambda>e. after < Seq e) (logof s (agentID h))" "synced h1 s" "agentID h1 = agentID h"
    "sub_ids_ok h1" "i < nextSub h1" "map_of (subscribers h1) i = Some []"
proof -
  have rp: "Replay S (agentID h) after s = Inr replay" and i: "i = nextSub h" and
    h1: "h1 = h\<lparr>nextSub := nextSub h + 1, subscribers := subscribers h @ [(nextSub h, [])]\<rparr>"
    using sub by (auto simp: Subscribe_def split: sum.splits)
  have "readable s" using rp read_err [of s "agentID h"] by (metis is_err_simps(2))
  with rp ok show "replay = filter (\<lambda>e. after < Seq e) (logof s (agentID h))"
    using event_store_contract.replay [OF event_store_contract_axioms, of s "agentID h" after]
    by (auto simp: synced_def)
  have "map_of (subscribers h) i = None" using sub_ids_lookup [OF ok(2), of i] i by (cases "map_of (subscribers h) i") auto
  then show "map_of (subscribers h1) i = Some []" by (simp add: h1 i map_of_append map_add_def)
  show "synced h1 s" "agentID h1 = agentID h" "sub_ids_ok h1" "i < nextSub h1"
    using ok i by (auto simp: h1 synced_def hub_synced_def sub_ids_ok_def list_all_less_Suc)
qed

text \<open>The replay a subscriber gets, then what it takes from its channel.\<close>

lemma run_subscriber:
  assumes "inv s" "okid a" "NewEventHub S a s = Inr h0"
    and room: "length (logof s a) + length (pre @ ops) < u64_limit"
    and pre: "hub_run S pre (h0, s) = (h, s1)"
    and sub: "Subscribe S after h s1 = (h1, Inr (replay, i))"
    and run: "hub_run S ops (h1, s1) = (h', s')" and ops: "OpRestart \<notin> set ops"
  shows "subseq (replay @ map stored_event (received S i ops (h1, s1) @ hub_buffer i h'))
       (filter (\<lambda>e. after < Seq e) (logof s1 a) @ drop (length (logof s1 a)) (logof s' a)) \<and>
    (OpUnsubscribe i \<notin> set ops \<longrightarrow> length ops \<le> chan_cap \<longrightarrow>
      replay @ map stored_event (received S i ops (h1, s1) @ hub_buffer i h') =
      filter (\<lambda>e. after < Seq e) (logof s1 a) @ drop (length (logof s1 a)) (logof s' a))"
proof -
  have "length (logof s a) + length pre < u64_limit" using room by simp
  note ok = new_hub_run [OF assms(1-3) this]
  obtain evs0 where evs0: "length evs0 \<le> length pre" "appends h0 s evs0 h s1"
    using hub_run_appends [OF ok(1,2) pre] by auto
  then have h: "synced h s1" "agentID h = a" using ok(3) by (auto simp: appends_def)
  note fresh = subscribe_fresh [OF h(1) sub_ids_run [OF ok(4) pre] sub]
  have "room (length ops) h1 s1"
    using evs0 room ok(3) fresh(3) h(2) by (auto simp: room_def appends_def)
  from subscriber_run [OF fresh(2) this run fresh(4,5) ops] fresh(6)
  obtain evs where evs: "appends h1 s1 evs h' s'"
    and sq: "subseq (received S i ops (h1, s1) @ hub_buffer i h') evs"
    and eq: "OpUnsubscribe i \<notin> set ops \<longrightarrow> length ops \<le> chan_cap \<longrightarrow>
        received S i ops (h1, s1) @ hub_buffer i h' = evs"
    by (auto simp: hub_buffer_def)
  have "drop (length (logof s1 a)) (logof s' a) = map stored_event evs"
    using evs fresh(3) h(2) by (simp add: appends_def)
  with fresh(1) h(2) subseq_map [OF sq, of stored_event] eq show ?thesis
    by (auto simp: subseq_append' simp del: map_append)
qed

lemma read_filtered_eq:
  assumes "inv s" "okid (agentID h)" "readable s"
  shows "ReadFiltered S after limit types exclude h s =
    \<lparr>Events = (if limit > 0 then take (nat limit) (filter (selected after types exclude) (logof s (agentID h)))
               else filter (selected after types exclude) (logof s (agentID h))),
     Truncated = False, Err = None\<rparr>"
proof -
  have "filter (selected after types exclude) (filter (\<lambda>e. after < Seq e) evs) =
      filter (selected after types exclude) evs" for evs
    unfolding filter_filter by (intro filter_cong) (auto simp: selected_def)
  then show ?thesis
    using replay [OF assms, of after] by (simp add: ReadFiltered_def filterEventsExcluding_eq)
qed

lemma read_batches:
  assumes ok: "inv s" "okid (agentID h)" "readable s" and limit: "limit > 0"
    and batch: "Events (ReadFiltered S after limit types exclude h s) = batch"
  shows "int (length batch) \<le> limit \<and>
    Events (ReadFiltered S after 0 types exclude h s) =
      batch @ (if batch = [] then []
               else Events (ReadFiltered S (Seq (last batch)) 0 types exclude h s))"
proof -
  let ?sel = "\<lambda>a. filter (selected a types exclude) (logof s (agentID h))"
  have b: "take (nat limit) (?sel after) = batch"
    using batch limit by (simp add: read_filtered_eq [OF ok])
  have sorted: "sorted_wrt (<) (map Seq (logof s (agentID h)))"
    by (rule log_seqs_sorted [OF synced_seqs [OF ok(1)]])
  have "batch = [] \<Longrightarrow> ?sel after = []" using b limit by (cases "?sel after") auto
  moreover have "int (length batch) \<le> limit" using b limit by auto
  ultimately show ?thesis
    using filter_after_split [OF sorted b] by (auto simp: read_filtered_eq [OF ok])
qed

end

lemmas bolt_run_inv = event_store_contract.run_inv [OF bolt_laws.contract]
lemmas bolt_read_batches = event_store_contract.read_batches [OF bolt_laws.contract]
lemmas bolt_no_gap_no_reuse = event_store_contract.run_no_gap_no_reuse [OF bolt_laws.contract]
lemmas bolt_subscriber = event_store_contract.run_subscriber [OF bolt_laws.contract]
lemmas bolt_exactly_once = event_store_contract.run_exactly_once [OF bolt_laws.contract]

text \<open>C1: sequence numbers are contiguous, never skipped and never reused.  Whatever calls
  reach a hub, in whatever order, with store failures and controller restarts in between,
  the agent's log is extended at its end only, its sequence numbers are 1, 2, 3, ... without
  gap or repetition, no other agent's log changes, and the hub's cached counters are those
  of the log.\<close>

theorem hub_no_gap_no_reuse:
  assumes B: "bolt_laws B cont healthy" and db: "store_inv (cont db)" "agent_id_ok a"
    and h: "NewEventHub (BoltEventStore B) a db = Inr h"
    and room: "length (store_log (cont db) a) + length ops < u64_limit"
    and run: "hub_run (BoltEventStore B) ops (h, db) = (h', db')"
  shows "\<exists>evs. store_log (cont db') = (store_log (cont db))(a := store_log (cont db) a @ evs) \<and>
      length evs \<le> length ops \<and>
      map (\<lambda>e. unat (Seq e)) (store_log (cont db') a) = [1..<Suc (length (store_log (cont db') a))] \<and>
      nextSeq h' = of_nat (length (store_log (cont db') a)) \<and> origin h' = store_wm (cont db') a"
  by (rule bolt_no_gap_no_reuse [OF B db h room run])

text \<open>C3: pulled records are appended exactly once.  In any interleaving of hub calls and
  restarts the spool ids that get appended are strictly increasing and above the watermark
  the run started from, so a record pulled again is never appended again; the watermark in
  the store is the last appended id; and the appended payloads are, in order, among the
  events the run added to the log.\<close>

theorem pulled_records_exactly_once:
  assumes B: "bolt_laws B cont healthy" and db: "store_inv (cont db)" "agent_id_ok a"
    and h: "NewEventHub (BoltEventStore B) a db = Inr h"
    and room: "length (store_log (cont db) a) + length ops < u64_limit"
    and run: "hub_run (BoltEventStore B) ops (h, db) = (h', db')"
  shows "sorted_wrt (<) (store_wm (cont db) a # map fst (pulled (BoltEventStore B) ops (h, db))) \<and>
     store_wm (cont db') a = last (store_wm (cont db) a # map fst (pulled (BoltEventStore B) ops (h, db))) \<and>
     subseq (map (\<lambda>p. stored_raw (snd p)) (pulled (BoltEventStore B) ops (h, db)))
       (map Data (drop (length (store_log (cont db) a)) (store_log (cont db') a)))"
  by (rule bolt_exactly_once [OF B db h room run])

text \<open>C13: a subscription loses and repeats nothing.  A subscriber that subscribes after
  any history with a cursor gets as replay and then on its channel, in order and at most
  once each, stored events after the cursor and events appended since; and as long as its
  256-slot channel cannot have overflowed, exactly all of them.\<close>

theorem subscribe_no_gap_no_duplicate:
  assumes B: "bolt_laws B cont healthy" and db: "store_inv (cont db)" "agent_id_ok a"
    and h: "NewEventHub (BoltEventStore B) a db = Inr h0"
    and room: "length (store_log (cont db) a) + length (pre @ ops) < u64_limit"
    and pre: "hub_run (BoltEventStore B) pre (h0, db) = (h, db1)"
    and sub: "Subscribe (BoltEventStore B) after h db1 = (h1, Inr (replay, i))"
    and run: "hub_run (BoltEventStore B) ops (h1, db1) = (h', db')" "OpRestart \<notin> set ops"
  shows "subseq (replay @ map stored_event (received (BoltEventStore B) i ops (h1, db1) @ hub_buffer i h'))
       (filter (\<lambda>e. after < Seq e) (store_log (cont db1) a)
        @ drop (length (store_log (cont db1) a)) (store_log (cont db') a)) \<and>
    (OpUnsubscribe i \<notin> set ops \<longrightarrow> length ops \<le> chan_cap \<longrightarrow>
      replay @ map stored_event (received (BoltEventStore B) i ops (h1, db1) @ hub_buffer i h') =
      filter (\<lambda>e. after < Seq e) (store_log (cont db1) a)
        @ drop (length (store_log (cont db1) a)) (store_log (cont db') a))"
  by (rule bolt_subscriber [OF B db h room pre sub run])

text \<open>C17: bounded reads page through the log.  A read with a positive limit returns at most
  that many events; the batch followed by an unbounded read from the sequence number of its
  last event is what one unbounded read from the original cursor returns, and an empty batch
  means that there is nothing left, under every type filter and exclusion.\<close>

theorem read_pages_the_log:
  assumes B: "bolt_laws B cont healthy" and db: "store_inv (cont db)" "agent_id_ok (agentID h)"
    "view_err B db = None" and limit: "limit > 0"
    and batch: "Events (ReadFiltered (BoltEventStore B) after limit types exclude h db) = batch"
  shows "int (length batch) \<le> limit \<and>
    Events (ReadFiltered (BoltEventStore B) after 0 types exclude h db) =
      batch @ (if batch = [] then []
               else Events (ReadFiltered (BoltEventStore B) (Seq (last batch)) 0 types exclude h db))"
  by (rule bolt_read_batches [OF B db limit batch])

text \<open>A concrete run for the witnesses: one agent, a record pulled twice, a restart, a
  failing write, and a lifecycle event.\<close>

definition demo_rec :: raw where
  "demo_rec = RawDoc (JObj [(''type'', JStr ''message'')])"

definition demo_ops :: "hub_op list" where
  "demo_ops = [OpPulled demo_rec 4, OpPulled demo_rec 4, OpRestart, OpPublish (RawBad ''x''),
     OpPulled demo_rec 6, OpLifecycle ''agent.started'' []]"

definition demo_hub :: event_hub where
  "demo_hub = \<lparr>agentID = ''a1'', nextSeq = 0, origin = 0, subscribers = [], nextSub = 0, closed = False\<rparr>"

lemma demo_start:
  "store_inv (mem_cont mem_empty)" "agent_id_ok ''a1''" "store_log (mem_cont mem_empty) a = []"
  "NewEventHub (BoltEventStore mem_bolt) ''a1'' mem_empty = Inr demo_hub" "mem_healthy mem_empty"
  "store_wm (mem_cont mem_empty) a = 0"
  by (simp_all add: store_inv_def mem_cont_def mem_empty_def agent_id_ok_def originBucket_def
      store_log_def NewEventHub_def store_NextSeq_def store_OriginWatermark_def mem_bolt_def demo_hub_def
      mem_healthy_def store_wm_def)

lemmas hub_eval_simps [run_simps] =
  PublishPulled_def Publish_def PublishLifecycle_def NewEventHub_def eventTypeOf_def
  unmarshal_str_def fanout_def chan_send_def chan_cap_def lifecycle_event_def Subscribe_def
  ReadFiltered_def filterEventsExcluding_def
  Unsubscribe_def chan_recv_def hub_Close_def hub_run_def

lemma demo_pulled:
  "map fst (pulled (BoltEventStore mem_bolt) demo_ops (demo_hub, mem_empty)) = [4, 6]"
  by (simp add: run_simps demo_hub_def demo_rec_def demo_ops_def)

lemma demo_seqs:
  "map (\<lambda>e. unat (Seq e)) (store_log (mem_cont (snd (hub_run (BoltEventStore mem_bolt) demo_ops
     (demo_hub, mem_empty)))) ''a1'') = [1, 2, 3]"
  by (simp add: run_simps demo_hub_def demo_rec_def demo_ops_def store_log_def)

text \<open>The hypotheses of the hub properties hold on this run, and the log it leaves has the
  events 1, 2, 3 with the watermarks 4 and 6.\<close>

theorem hub_no_gap_no_reuse_witness:
  "\<exists>h' db' evs. hub_run (BoltEventStore mem_bolt) demo_ops (demo_hub, mem_empty) = (h', db') \<and>
     store_log (mem_cont db') = (store_log (mem_cont mem_empty))(''a1'' := evs) \<and> length evs \<le> 6 \<and>
     map (\<lambda>e. unat (Seq e)) (store_log (mem_cont db') ''a1'') = [1, 2, 3] \<and>
     nextSeq h' = of_nat (length (store_log (mem_cont db') ''a1''))"
proof -
  obtain h' db' where run: "hub_run (BoltEventStore mem_bolt) demo_ops (demo_hub, mem_empty) = (h', db')"
    by fastforce
  have "length (store_log (mem_cont mem_empty) ''a1'') + length demo_ops < u64_limit"
    by (simp add: demo_start demo_ops_def)
  from hub_no_gap_no_reuse [OF mem.bolt_laws_axioms demo_start(1,2,4) this run] demo_seqs run
  show ?thesis by (auto simp: demo_start demo_ops_def)
qed

theorem pulled_records_exactly_once_witness:
  "sorted_wrt (<) (0 # map fst (pulled (BoltEventStore mem_bolt) demo_ops (demo_hub, mem_empty))) \<and>
   map fst (pulled (BoltEventStore mem_bolt) demo_ops (demo_hub, mem_empty)) = [4, 6] \<and>
   store_wm (mem_cont (snd (hub_run (BoltEventStore mem_bolt) demo_ops (demo_hub, mem_empty)))) ''a1'' = 6"
proof -
  obtain h' db' where run: "hub_run (BoltEventStore mem_bolt) demo_ops (demo_hub, mem_empty) = (h', db')"
    by fastforce
  have "length (store_log (mem_cont mem_empty) ''a1'') + length demo_ops < u64_limit"
    by (simp add: demo_start demo_ops_def)
  from pulled_records_exactly_once [OF mem.bolt_laws_axioms demo_start(1,2,4) this run] run
  show ?thesis by (simp add: demo_pulled demo_start)
qed

theorem subscribe_no_gap_no_duplicate_witness:
  "\<exists>h h1 h' db db' replay i.
     hub_run (BoltEventStore mem_bolt) [OpPulled demo_rec 4] (demo_hub, mem_empty) = (h, db) \<and>
     Subscribe (BoltEventStore mem_bolt) 0 h db = (h1, Inr (replay, i)) \<and>
     hub_run (BoltEventStore mem_bolt) [OpPulled demo_rec 5, OpRecv 0, OpPulled demo_rec 6] (h1, db) = (h', db') \<and>
     map Seq (replay @ received (BoltEventStore mem_bolt) i [OpPulled demo_rec 5, OpRecv 0, OpPulled demo_rec 6] (h1, db)
       @ hub_buffer i h') = map Seq (store_log (mem_cont db) ''a1''
         @ drop (length (store_log (mem_cont db) ''a1'')) (store_log (mem_cont db') ''a1'')) \<and>
     map Seq replay = [1]"
proof -
  let ?S = "BoltEventStore mem_bolt" and ?pre = "[OpPulled demo_rec 4]"
    and ?ops = "[OpPulled demo_rec 5, OpRecv 0, OpPulled demo_rec 6]"
  obtain h db where pre: "hub_run ?S ?pre (demo_hub, mem_empty) = (h, db)" by fastforce
  have eval: "\<exists>h1 replay. Subscribe ?S 0 h db = (h1, Inr (replay, 0)) \<and> map Seq replay = [1]"
    "filter (\<lambda>e. 0 < Seq e) (store_log (mem_cont db) ''a1'') = store_log (mem_cont db) ''a1''"
    using pre by (auto simp: run_simps demo_hub_def demo_rec_def store_log_def)
  from eval(1) obtain h1 replay
    where sub: "Subscribe ?S 0 h db = (h1, Inr (replay, 0))" "map Seq replay = [1]"
    by (elim exE conjE)
  obtain h' db' where run: "hub_run ?S ?ops (h1, db) = (h', db')" by fastforce
  have "length (store_log (mem_cont mem_empty) ''a1'') + length (?pre @ ?ops) < u64_limit"
    by (simp add: demo_start)
  from subscribe_no_gap_no_duplicate [OF mem.bolt_laws_axioms demo_start(1,2,4) this pre sub(1) run]
  have "replay @ map stored_event (received ?S 0 ?ops (h1, db) @ hub_buffer 0 h') =
      store_log (mem_cont db) ''a1'' @ drop (length (store_log (mem_cont db) ''a1'')) (store_log (mem_cont db') ''a1'')"
    by (simp add: eval chan_cap_def del: received.simps)
  from arg_cong [OF this, of "map Seq"]
  have "map Seq (replay @ received ?S 0 ?ops (h1, db) @ hub_buffer 0 h') =
      map Seq (store_log (mem_cont db) ''a1'' @ drop (length (store_log (mem_cont db) ''a1'')) (store_log (mem_cont db') ''a1''))"
    by (simp only: map_append map_map comp_def stored_event_sel)
  with pre sub run show ?thesis by (intro exI conjI)
qed

theorem read_pages_the_log_witness:
  "let db = snd (hub_run (BoltEventStore mem_bolt) demo_ops (demo_hub, mem_empty));
       batch = Events (ReadFiltered (BoltEventStore mem_bolt) 0 2 [''message''] [] demo_hub db)
   in batch \<noteq> [] \<and> Events (ReadFiltered (BoltEventStore mem_bolt) 0 0 [''message''] [] demo_hub db) =
     batch @ Events (ReadFiltered (BoltEventStore mem_bolt) (Seq (last batch)) 0 [''message''] [] demo_hub db)"
proof -
  let ?S = "BoltEventStore mem_bolt"
  obtain h' db where run: "hub_run ?S demo_ops (demo_hub, mem_empty) = (h', db)" by fastforce
  have "length (store_log (mem_cont mem_empty) ''a1'') + length demo_ops < u64_limit"
    by (simp add: demo_start demo_ops_def)
  from bolt_run_inv [OF mem.bolt_laws_axioms demo_start(1,2,4) this run] demo_start(2)
  have db: "store_inv (mem_cont db)" "agent_id_ok (agentID demo_hub)" by (simp_all add: demo_hub_def)
  have v: "view_err mem_bolt db = None"
    and ne: "Events (ReadFiltered ?S 0 2 [''message''] [] demo_hub db) \<noteq> []"
    using run by (auto simp: run_simps demo_hub_def demo_rec_def demo_ops_def)
  from read_pages_the_log [OF mem.bolt_laws_axioms db v _ refl, of 2 0 "[''message'']" "[]"] ne run
  show ?thesis by (simp add: Let_def)
qed

end
