(* ===== verification/Session_FSM.thy ===== *)
theory Session_FSM
  imports Event_Hub
begin

text \<open>
  The session lifecycle machine (\<open>controller/fsm.go\<close>).  The live state is a cache of a
  projection of the durable log: \<open>Transition\<close> appends the lifecycle event before it takes
  effect, and after a restart \<open>ReplaySessionFSM\<close> derives the state from the log again.
  The theory shows when the two agree, and that they need not when a verbatim record of
  the sandbox carries the type of a lifecycle event.
\<close>

datatype session_state =
    SessionProvision
  | SessionReady
  | SessionRunning
  | SessionIdle
  | SessionPaused
  | SessionReviving
  | SessionTerminated

fun session_state_string :: "session_state \<Rightarrow> string" where
  "session_state_string SessionProvision = ''provision''"
| "session_state_string SessionReady = ''ready''"
| "session_state_string SessionRunning = ''running''"
| "session_state_string SessionIdle = ''idle''"
| "session_state_string SessionPaused = ''paused''"
| "session_state_string SessionReviving = ''reviving''"
| "session_state_string SessionTerminated = ''terminated''"

definition lifecyclePaused :: string where
  "lifecyclePaused = ''agent.paused''"

definition lifecycleRevived :: string where
  "lifecycleRevived = ''agent.revived''"

definition sessionEventType :: "string \<Rightarrow> session_state option" where
  "sessionEventType =
     [''agent.provisioned'' \<mapsto> SessionProvision,
      ''agent.started'' \<mapsto> SessionReady,
      ''agent.turn_started'' \<mapsto> SessionRunning,
      ''agent.settled'' \<mapsto> SessionIdle,
      lifecyclePaused \<mapsto> SessionPaused,
      lifecycleRevived \<mapsto> SessionRunning,
      ''agent.reviving'' \<mapsto> SessionReviving,
      ''agent.terminated'' \<mapsto> SessionTerminated]"

fun sessionTransitions :: "session_state \<Rightarrow> session_state list" where
  "sessionTransitions SessionProvision = [SessionReady, SessionTerminated]"
| "sessionTransitions SessionReady = [SessionRunning, SessionTerminated]"
| "sessionTransitions SessionRunning = [SessionIdle, SessionPaused, SessionTerminated]"
| "sessionTransitions SessionIdle = [SessionRunning, SessionTerminated]"
| "sessionTransitions SessionPaused = [SessionRunning, SessionTerminated]"
| "sessionTransitions SessionReviving = [SessionReady, SessionTerminated]"
| "sessionTransitions SessionTerminated = []"

definition session_apply :: "session_state \<Rightarrow> string \<Rightarrow> session_state" where
  "session_apply state t =
     (case sessionEventType t of
        Some next \<Rightarrow> if next \<in> set (sessionTransitions state) then next else state
      | None \<Rightarrow> state)"

definition ReplaySession :: "event list \<Rightarrow> session_state" where
  "ReplaySession evs = foldl (\<lambda>state ev. session_apply state (Type ev)) SessionProvision evs"

datatype fsm_error =
    IllegalTransition session_state session_state
  | AppendFailed string
  | ReplayFailed store_error

definition ReplaySessionFSM :: "'s event_store \<Rightarrow> event_hub \<Rightarrow> 's \<Rightarrow> fsm_error + session_state" where
  "ReplaySessionFSM S h s =
     (case SubscribeSnapshot S h s of
        Inl e \<Rightarrow> Inl (ReplayFailed e)
      | Inr evs \<Rightarrow> Inr (ReplaySession evs))"

text \<open>\<open>Transition\<close> holds the machine's lock over the check, the append and the update.\<close>

definition Transition ::
    "'s event_store \<Rightarrow> session_state \<Rightarrow> string \<Rightarrow> (string \<times> json) list \<Rightarrow>
     session_state \<times> event_hub \<times> 's \<Rightarrow> (session_state \<times> event_hub \<times> 's) \<times> fsm_error option" where
  "Transition S next eventType flds st =
     (case st of (state, h, s) \<Rightarrow>
        if next \<notin> set (sessionTransitions state)
        then ((state, h, s), Some (IllegalTransition state next))
        else
          (case PublishLifecycle S eventType
                  (obj_put ''status'' (JStr (session_state_string next))
                    (obj_put ''agent_id'' (JStr (agentID h)) flds)) h s of
             (h', s', None) \<Rightarrow> ((state, h', s'), Some (AppendFailed eventType))
           | (h', s', Some ev) \<Rightarrow> ((next, h', s'), None)))"

section \<open>Interleavings with the other users of the hub\<close>

text \<open>\<open>FsmRestart\<close> is a controller restart: a new hub, and the state by replay.\<close>

datatype fsm_op =
    FsmTransition session_state string "(string \<times> json) list"
  | FsmHub hub_op
  | FsmRestart

fun fsm_step ::
    "'s event_store \<Rightarrow> session_state \<times> event_hub \<times> 's \<Rightarrow> fsm_op \<Rightarrow> session_state \<times> event_hub \<times> 's" where
  "fsm_step S st (FsmTransition next t flds) = fst (Transition S next t flds st)"
| "fsm_step S (state, h, s) (FsmHub op) = (state, hub_step S (h, s) op)"
| "fsm_step S (state, h, s) FsmRestart =
     (case NewEventHub S (agentID h) s of
        Inl e \<Rightarrow> (state, h, s)
      | Inr h' \<Rightarrow>
          (case ReplaySessionFSM S h' s of
             Inl e \<Rightarrow> (state, h, s)
           | Inr state' \<Rightarrow> (state', h', s)))"

definition fsm_run ::
    "'s event_store \<Rightarrow> fsm_op list \<Rightarrow> session_state \<times> event_hub \<times> 's \<Rightarrow> session_state \<times> event_hub \<times> 's" where
  "fsm_run S ops st = foldl (fsm_step S) st ops"

text \<open>What the projection needs: a transition is announced by an event type that projects
  onto its target, and no other append carries a session event type.\<close>

fun fsm_op_ok :: "fsm_op \<Rightarrow> bool" where
  "fsm_op_ok (FsmTransition next t flds) = (sessionEventType t = Some next)"
| "fsm_op_ok (FsmHub op) =
     (case op_type op of None \<Rightarrow> True | Some t \<Rightarrow> sessionEventType t = None)"
| "fsm_op_ok FsmRestart = True"

section \<open>The projection\<close>

lemma ReplaySession_append:
  "ReplaySession (evs @ evs') = foldl (\<lambda>state ev. session_apply state (Type ev)) (ReplaySession evs) evs'"
  by (simp add: ReplaySession_def)

lemma ReplaySession_snoc [simp]:
  "ReplaySession [] = SessionProvision"
  "ReplaySession (evs @ [ev]) = session_apply (ReplaySession evs) (Type ev)"
  by (simp_all add: ReplaySession_def)

lemma session_apply_silent: "sessionEventType t = None \<Longrightarrow> session_apply state t = state"
  by (simp add: session_apply_def)

lemma session_apply_next:
  "sessionEventType t = Some next \<Longrightarrow> next \<in> set (sessionTransitions state) \<Longrightarrow> session_apply state t = next"
  by (simp add: session_apply_def)

lemma session_apply_terminated [simp]: "session_apply SessionTerminated t = SessionTerminated"
  by (simp add: session_apply_def split: option.split)

lemma foldl_silent:
  "\<forall>ev \<in> set evs. sessionEventType (Type ev) = None \<Longrightarrow>
     foldl (\<lambda>state ev. session_apply state (Type ev)) state evs = state"
  by (induction evs) (simp_all add: session_apply_silent)

lemma foldl_terminated:
  "foldl (\<lambda>state ev. session_apply state (Type ev)) SessionTerminated evs = SessionTerminated"
  by (induction evs) simp_all

lemma session_apply_not_reviving: "state \<noteq> SessionReviving \<Longrightarrow> session_apply state t \<noteq> SessionReviving"
  by (cases state) (auto simp: session_apply_def split: option.split)

lemma sessionEventType_names:
  "sessionEventType t = Some SessionRunning \<longleftrightarrow> t = ''agent.turn_started'' \<or> t = ''agent.revived''"
  "sessionEventType ''agent.settled'' = Some SessionIdle"
  "sessionEventType ''agent.turn_started'' = Some SessionRunning"
  "sessionEventType ''agent.started'' = Some SessionReady"
  "sessionEventType ''agent.paused'' = Some SessionPaused"
  "sessionEventType ''agent.revived'' = Some SessionRunning"
  "sessionEventType ''agent.terminated'' = Some SessionTerminated"
  "sessionEventType ''agent.provisioned'' = Some SessionProvision"
  by (auto simp: sessionEventType_def lifecyclePaused_def lifecycleRevived_def)

context event_store_contract
begin

lemma transition_effect:
  assumes ok: "synced h s" "room 1 h s"
    and tr: "Transition S next t flds (state, h, s) = ((state', h', s'), err)"
  shows "(err \<noteq> None \<and> state' = state \<and> appends h s [] h' s') \<or>
    (err = None \<and> state' = next \<and> next \<in> set (sessionTransitions state) \<and>
     (\<exists>ev. Type ev = t \<and> appends h s [ev] h' s'))"
proof (cases "next \<in> set (sessionTransitions state)")
  case False
  with tr ok show ?thesis by (auto simp: Transition_def appends_Nil)
next
  case True
  let ?flds = "obj_put ''status'' (JStr (session_state_string next)) (obj_put ''agent_id'' (JStr (agentID h)) flds)"
  let ?ev = "lifecycle_event t ?flds (nextSeq h + 1)"
  obtain s1 v where app: "Append S (agentID h) ?ev s = (s1, v)" by fastforce
  show ?thesis
  proof (cases "closed h \<or> v \<noteq> None")
    case c: True
    then have "state' = state" "err \<noteq> None" "h' = h" "s' = (if closed h then s else s1)"
      using tr True app by (auto simp: Transition_def PublishLifecycle_def Let_def split: if_splits option.splits)
    with append_cases [OF ok app] ok c show ?thesis by (auto simp: appends_Nil)
  next
    case False
    then have "state' = next" "err = None" "s' = s1" "h' = fanout ?ev (h\<lparr>nextSeq := nextSeq h + 1\<rparr>)"
      using tr True app by (auto simp: Transition_def PublishLifecycle_def Let_def)
    with append_cases [OF ok app] False True show ?thesis
      by (intro disjI2 conjI exI [of _ ?ev]) auto
  qed
qed

lemma snapshot_log:
  assumes "synced h s" "readable s"
  shows "SubscribeSnapshot S h s = Inr (logof s (agentID h))"
proof -
  have "filter (\<lambda>e. 0 < Seq e) (logof s (agentID h)) = logof s (agentID h)"
  proof (rule filter_True, rule ballI)
    fix e assume "e \<in> set (logof s (agentID h))"
    then obtain i where i: "i < length (logof s (agentID h))" "e = logof s (agentID h) ! i"
      by (auto simp: in_set_conv_nth)
    then have "unat (Seq e) = Suc i"
      using log_seq [of s i] log_bound [of s "agentID h"] assms(1)
      by (simp add: synced_def unat_u64_of_nat del: of_nat_Suc)
    then show "0 < Seq e" by (simp add: u64_less_iff)
  qed
  with replay [of s "agentID h" 0] assms show ?thesis
    by (auto simp: SubscribeSnapshot_def synced_def)
qed

lemma replay_fsm:
  assumes "synced h s" "readable s"
  shows "ReplaySessionFSM S h s = Inr (ReplaySession (logof s (agentID h)))"
  using snapshot_log [OF assms] by (simp add: ReplaySessionFSM_def)

definition live_is_replay :: "session_state \<times> event_hub \<times> 's \<Rightarrow> bool" where
  "live_is_replay st = (case st of (state, h, s) \<Rightarrow>
     synced h s \<and> state = ReplaySession (logof s (agentID h)))"

lemma fsm_step_live:
  assumes live: "live_is_replay (state, h, s)" and room: "room (Suc n) h s" and op: "fsm_op_ok op"
    and st: "fsm_step S (state, h, s) op = (state', h', s')"
  shows "live_is_replay (state', h', s') \<and> room n h' s' \<and> agentID h' = agentID h"
proof (cases op)
  case (FsmTransition nx t flds)
  have ok: "synced h s" "room 1 h s" using live room room_mono [OF room, of 1]
    by (auto simp: live_is_replay_def)
  obtain err where "Transition S nx t flds (state, h, s) = ((state', h', s'), err)"
    using st FsmTransition by (cases "Transition S nx t flds (state, h, s)") auto
  from transition_effect [OF ok this] show ?thesis
  proof (elim disjE conjE exE)
    assume "state' = state" "appends h s [] h' s'"
    with live room show ?thesis by (auto simp: live_is_replay_def appends_Nil room_def)
  next
    fix ev assume "state' = nx" "nx \<in> set (sessionTransitions state)" "Type ev = t" "appends h s [ev] h' s'"
    with live room op FsmTransition show ?thesis
      by (auto simp: live_is_replay_def appends_def room_def session_apply_next)
  qed
next
  case (FsmHub hop)
  then obtain evs where evs: "appends h s evs h' s'" "room n h' s'" "Type ` set evs \<subseteq> set_option (op_type hop)"
    and st': "state' = state"
    using st live by (auto simp: live_is_replay_def intro: hub_run_step [OF _ room])
  have "\<forall>ev \<in> set (map stored_event evs). sessionEventType (Type ev) = None"
    using evs(3) op FsmHub by (auto split: option.splits)
  with foldl_silent [OF this] evs live st' show ?thesis
    by (auto simp: live_is_replay_def appends_def ReplaySession_append simp del: foldl_map)
next
  case FsmRestart
  show ?thesis
  proof (cases "NewEventHub S (agentID h) s")
    case (Inl e)
    with FsmRestart st live room show ?thesis by (auto intro: room_mono)
  next
    case (Inr h0)
    have h0: "synced h0 s" "agentID h0 = agentID h"
      using new_hub_synced [OF _ _ Inr] live by (auto simp: live_is_replay_def synced_def)
    with FsmRestart st live room Inr show ?thesis
    proof (cases "readable s")
      case True
      with replay_fsm [OF h0(1)] h0 FsmRestart st room Inr show ?thesis
        by (auto simp: live_is_replay_def room_def)
    next
      case False
      with read_err [OF this, of "agentID h"] Inr show ?thesis
        by (auto simp: NewEventHub_def split: sum.splits)
    qed
  qed
qed

lemma fsm_run_live:
  assumes "live_is_replay (state, h, s)" "room (length ops) h s" "list_all fsm_op_ok ops"
    and "fsm_run S ops (state, h, s) = (state', h', s')"
  shows "live_is_replay (state', h', s') \<and> agentID h' = agentID h"
  using assms
proof (induction ops arbitrary: state h s)
  case Nil
  then show ?case by (simp add: fsm_run_def)
next
  case (Cons op ops)
  obtain state1 h1 s1 where st: "fsm_step S (state, h, s) op = (state1, h1, s1)" by (metis prod_cases3)
  have "live_is_replay (state1, h1, s1) \<and> room (length ops) h1 s1 \<and> agentID h1 = agentID h"
    using fsm_step_live [OF Cons.prems(1) _ _ st] Cons.prems(2,3) by simp
  with Cons st show ?case by (fastforce simp: fsm_run_def)
qed

lemma run_live_is_replay:
  assumes "inv s" "okid a" "NewEventHub S a s = Inr h" "readable s"
    and "length (logof s a) + length ops < u64_limit" "list_all fsm_op_ok ops"
    and "ReplaySessionFSM S h s = Inr state" "fsm_run S ops (state, h, s) = (state', h', s')"
  shows "state' = ReplaySession (logof s' a)"
proof -
  note ok = new_hub_run [OF assms(1-3,5)]
  have "live_is_replay (state, h, s)"
    using replay_fsm [OF ok(1) assms(4)] assms(7) ok by (simp add: live_is_replay_def)
  from fsm_run_live [OF this ok(2) assms(6,8)] ok(3) show ?thesis by (simp add: live_is_replay_def)
qed

lemma transition_outcome:
  assumes "synced h s" "room 1 h s"
    and "Transition S nx t flds (state, h, s) = ((state', h', s'), err)"
  shows "(err \<noteq> None \<longrightarrow> state' = state \<and> logof s' = logof s) \<and>
    (err = None \<longrightarrow> nx \<in> set (sessionTransitions state) \<and> state' = nx \<and>
      (\<exists>ev. logof s' = (logof s)(agentID h := logof s (agentID h) @ [ev]) \<and> Type ev = t))"
  using transition_effect [OF assms] by (fastforce simp: appends_def)

lemma pulled_terminated:
  assumes ok: "synced h s" "room 1 h s" and t: "eventTypeOf r = ''agent.terminated''"
    and pub: "PublishPulled S r i h s = (h', s', Inr n)" "n \<noteq> 0"
  shows "ReplaySession (logof s' (agentID h)) = SessionTerminated"
  using ok pub(1)
proof (cases rule: publish_pulled_cases)
  case skipped
  with pub show ?thesis by (auto simp: PublishPulled_def split: if_splits)
next
  case (appended ev)
  have "SessionTerminated \<in> set (sessionTransitions st)" if "st \<noteq> SessionTerminated" for st
    using that by (cases st) auto
  then have "session_apply st ''agent.terminated'' = SessionTerminated" for st
    by (auto simp: session_apply_def sessionEventType_names)
  with appended t show ?thesis by (simp add: appends_def)
qed

end

section \<open>Properties of the session machine\<close>

lemmas bolt_live_is_replay = event_store_contract.run_live_is_replay [OF bolt_laws.contract]

text \<open>C4: restarting lands on the identical state.  For every interleaving of transitions
  (announced by the event type of their target), of hub calls whose records carry no
  session event type, of store failures and of restarts, the live state of the machine is
  the replay of the agent's durable log.\<close>

theorem live_state_is_replayed_state:
  assumes B: "bolt_laws B cont healthy" and db: "store_inv (cont db)" "agent_id_ok a"
    and h: "NewEventHub (BoltEventStore B) a db = Inr h" and v: "view_err B db = None"
    and room: "length (store_log (cont db) a) + length ops < u64_limit"
    and ops: "list_all fsm_op_ok ops"
    and start: "ReplaySessionFSM (BoltEventStore B) h db = Inr state"
    and run: "fsm_run (BoltEventStore B) ops (state, h, db) = (state', h', db')"
  shows "state' = ReplaySession (store_log (cont db') a)"
  by (rule bolt_live_is_replay [OF B db h v room ops start run])

lemmas bolt_new_hub_run = event_store_contract.new_hub_run [OF bolt_laws.contract]
lemmas bolt_transition_outcome = event_store_contract.transition_outcome [OF bolt_laws.contract]
lemmas bolt_pulled_terminated = event_store_contract.pulled_terminated [OF bolt_laws.contract]

text \<open>C18: a transition is durable before it takes effect.  A transition that returns an error
  (an edge that is not in the table, a closed hub, a store failure) leaves the state and
  every log as they were; one that returns none was an edge of the table, sets the state
  to its target, and has appended exactly one event, of the announced type.\<close>

theorem transition_append_first:
  assumes B: "bolt_laws B cont healthy" and db: "store_inv (cont db)" "agent_id_ok a"
    and h: "NewEventHub (BoltEventStore B) a db = Inr h"
    and room: "length (store_log (cont db) a) + length [nx] < u64_limit"
    and tr: "Transition (BoltEventStore B) nx t flds (state, h, db) = ((state', h', db'), err)"
  shows "(err \<noteq> None \<longrightarrow> state' = state \<and> store_log (cont db') = store_log (cont db)) \<and>
    (err = None \<longrightarrow> nx \<in> set (sessionTransitions state) \<and> state' = nx \<and>
      (\<exists>ev. store_log (cont db') = (store_log (cont db))(a := store_log (cont db) a @ [ev]) \<and> Type ev = t))"
proof -
  note ok = bolt_new_hub_run [OF B db h room]
  have "event_store_contract.room (\<lambda>db. store_log (cont db)) 1 h db" using ok(2) by simp
  from bolt_transition_outcome [OF B ok(1) this tr] ok(3) show ?thesis by simp
qed

text \<open>C19: termination is final and the reserved state is never entered.  No log replays to
  \<open>reviving\<close>, and once an \<open>agent.terminated\<close> event is in the log the replayed state is
  \<open>terminated\<close> whatever follows.\<close>

theorem terminated_is_final:
  shows "ReplaySession evs \<noteq> SessionReviving \<and>
    ReplaySession (evs @ \<lparr>Seq = n, Type = ''agent.terminated'', Data = d\<rparr> # evs') = SessionTerminated"
proof
  show "ReplaySession evs \<noteq> SessionReviving"
    by (induction evs rule: rev_induct) (auto simp: session_apply_not_reviving)
  have "session_apply st ''agent.terminated'' = SessionTerminated" for st
    by (cases st) (simp_all add: session_apply_def sessionEventType_names)
  then show "ReplaySession (evs @ \<lparr>Seq = n, Type = ''agent.terminated'', Data = d\<rparr> # evs') = SessionTerminated"
    by (simp add: ReplaySession_append foldl_terminated)
qed

text \<open>C20: a verbatim record can end a session in the projection.  A record pulled from the
  sandbox whose own \<open>type\<close> member is \<open>agent.terminated\<close> makes the log replay to
  \<open>terminated\<close>; the live machine, which such a record does not touch, keeps its state, so
  the two disagree until the restart that adopts the replayed one.\<close>

theorem pulled_record_terminates_replay:
  assumes B: "bolt_laws B cont healthy" and db: "store_inv (cont db)" "agent_id_ok a"
    and h: "NewEventHub (BoltEventStore B) a db = Inr h"
    and room: "length (store_log (cont db) a) + length [i] < u64_limit"
    and t: "eventTypeOf r = ''agent.terminated''"
    and pub: "PublishPulled (BoltEventStore B) r i h db = (h', db', Inr n)" "n \<noteq> 0"
  shows "ReplaySession (store_log (cont db') a) = SessionTerminated \<and>
    fsm_step (BoltEventStore B) (state, h, db) (FsmHub (OpPulled r i)) = (state, h', db')"
proof -
  note ok = bolt_new_hub_run [OF B db h room]
  have "event_store_contract.room (\<lambda>db. store_log (cont db)) 1 h db" using ok(2) by simp
  from bolt_pulled_terminated [OF B ok(1) this t pub] ok(3) pub show ?thesis by simp
qed

section \<open>Witnesses\<close>

definition demo_fsm_ops :: "fsm_op list" where
  "demo_fsm_ops =
     [FsmTransition SessionReady ''agent.started'' [],
      FsmHub (OpPulled demo_rec 3),
      FsmTransition SessionIdle ''agent.settled'' [],
      FsmTransition SessionRunning ''agent.turn_started'' [],
      FsmRestart,
      FsmTransition SessionIdle ''agent.settled'' []]"

lemmas fsm_eval_simps [run_simps] =
  Transition_def fsm_run_def ReplaySessionFSM_def SubscribeSnapshot_def ReplaySession_def
  session_apply_def sessionEventType_names

lemma demo_fsm:
  "ReplaySessionFSM (BoltEventStore mem_bolt) demo_hub mem_empty = Inr SessionProvision"
  "list_all fsm_op_ok demo_fsm_ops"
  by (simp_all add: run_simps demo_hub_def demo_rec_def demo_fsm_ops_def sessionEventType_def
      lifecyclePaused_def lifecycleRevived_def)

theorem live_state_is_replayed_state_witness:
  "\<exists>h' db'. fsm_run (BoltEventStore mem_bolt) demo_fsm_ops (SessionProvision, demo_hub, mem_empty) =
      (SessionIdle, h', db') \<and> SessionIdle = ReplaySession (store_log (mem_cont db') ''a1'')"
proof -
  obtain state' h' db' where run: "fsm_run (BoltEventStore mem_bolt) demo_fsm_ops
      (SessionProvision, demo_hub, mem_empty) = (state', h', db')"
    by (metis prod_cases3)
  have "state' = SessionIdle"
    using run by (auto simp: run_simps demo_hub_def demo_rec_def demo_fsm_ops_def sessionEventType_def
        lifecyclePaused_def lifecycleRevived_def)
  moreover have "length (store_log (mem_cont mem_empty) ''a1'') + length demo_fsm_ops < u64_limit"
    by (simp add: demo_start demo_fsm_ops_def)
  moreover have "view_err mem_bolt mem_empty = None" by (simp add: mem_bolt_def mem_empty_def)
  ultimately show ?thesis
    using live_state_is_replayed_state [OF mem.bolt_laws_axioms demo_start(1,2,4) _ _ demo_fsm(2,1) run] run
    by blast
qed

theorem transition_append_first_witness:
  "\<exists>h' db'. Transition (BoltEventStore mem_bolt) SessionReady ''agent.started'' [] (SessionProvision, demo_hub, mem_empty)
      = ((SessionReady, h', db'), None) \<and>
     (\<exists>ev. store_log (mem_cont db') = (store_log (mem_cont mem_empty))(''a1'' := [ev]) \<and> Type ev = ''agent.started'')"
proof -
  obtain state' h' db' err where tr: "Transition (BoltEventStore mem_bolt) SessionReady ''agent.started'' []
      (SessionProvision, demo_hub, mem_empty) = ((state', h', db'), err)"
    by (metis prod_cases3 surj_pair)
  have err: "err = None"
    using tr by (auto simp: run_simps demo_hub_def)
  have "length (store_log (mem_cont mem_empty) ''a1'') + length [SessionReady] < u64_limit"
    by (simp add: demo_start)
  from transition_append_first [OF mem.bolt_laws_axioms demo_start(1,2,4) this tr] err tr
  show ?thesis by (simp add: demo_start)
qed

theorem pulled_record_terminates_replay_witness:
  "\<exists>h' db'. PublishPulled (BoltEventStore mem_bolt) (RawDoc (JObj [(''type'', JStr ''agent.terminated'')])) 1
      demo_hub mem_empty = (h', db', Inr 1) \<and>
     ReplaySession (store_log (mem_cont db') ''a1'') = SessionTerminated \<and>
     fsm_step (BoltEventStore mem_bolt) (SessionRunning, demo_hub, mem_empty)
       (FsmHub (OpPulled (RawDoc (JObj [(''type'', JStr ''agent.terminated'')])) 1)) = (SessionRunning, h', db')"
proof -
  let ?r = "RawDoc (JObj [(''type'', JStr ''agent.terminated'')])"
  obtain h' db' v where pub: "PublishPulled (BoltEventStore mem_bolt) ?r 1 demo_hub mem_empty = (h', db', v)"
    by (metis prod_cases3)
  have v: "v = Inr 1" using pub by (auto simp: run_simps demo_hub_def)
  have room: "length (store_log (mem_cont mem_empty) ''a1'') + length [1 :: u64] < u64_limit"
    by (simp add: demo_start)
  have t: "eventTypeOf ?r = ''agent.terminated''" by (simp add: run_simps)
  from pulled_record_terminates_replay [OF mem.bolt_laws_axioms demo_start(1,2,4) room t pub [unfolded v]] pub v
  show ?thesis by simp
qed

end
