(* ===== verification/Go_Lib.thy ===== *)
theory Go_Lib
  imports Kape_Prelude
begin

text \<open>
  What the sources use of Go's standard library beyond \<open>strings\<close> and \<open>encoding\<close>:
  64-bit signed arithmetic of \<open>time.Duration\<close>, \<open>strconv.Atoi\<close> and \<open>ParseUint\<close>,
  \<open>strings.Fields\<close> and \<open>TrimSpace\<close>, \<open>sort.Strings\<close> and \<open>sort.Slice\<close>, and regular
  expressions with their language semantics.
\<close>

section \<open>Signed 64-bit integers\<close>

definition min_i64 :: int where
  "min_i64 = - (2 ^ 63)"

definition max_i64 :: int where
  "max_i64 = 2 ^ 63 - 1"

text \<open>The value of a signed 64-bit result: arithmetic wraps around.\<close>

definition wrap64 :: "int \<Rightarrow> int" where
  "wrap64 x = (x + 2 ^ 63) mod 2 ^ 64 - 2 ^ 63"

lemma wrap64_id: "min_i64 \<le> x \<Longrightarrow> x \<le> max_i64 \<Longrightarrow> wrap64 x = x"
  by (simp add: wrap64_def min_i64_def max_i64_def)

lemma wrap64_range: "min_i64 \<le> wrap64 x" "wrap64 x \<le> max_i64"
proof -
  have "0 \<le> (x + 2 ^ 63) mod 2 ^ 64" "(x + 2 ^ 63) mod 2 ^ 64 < (2 ^ 64 :: int)"
    by (simp_all add: pos_mod_bound)
  then show "min_i64 \<le> wrap64 x" "wrap64 x \<le> max_i64"
    by (simp_all add: wrap64_def min_i64_def max_i64_def)
qed

text \<open>\<open>time.Second\<close> in nanoseconds, and \<open>t.Sub(u)\<close>, which saturates.\<close>

definition second :: int where
  "second = 1000000000"

definition time_sub :: "int \<Rightarrow> int \<Rightarrow> int" where
  "time_sub t u = max min_i64 (min max_i64 (t - u))"

section \<open>Decimal numbers (strconv)\<close>

definition is_digit :: "char \<Rightarrow> bool" where
  "is_digit c = (let n = (of_char c :: nat) in 48 \<le> n \<and> n \<le> 57)"

definition digit_val :: "char \<Rightarrow> nat" where
  "digit_val c = of_char c - 48"

definition dec_val :: "string \<Rightarrow> nat" where
  "dec_val s = foldl (\<lambda>n c. 10 * n + digit_val c) 0 s"

text \<open>\<open>strconv.Atoi\<close>: an optional sign, at least one digit, in the range of \<open>int\<close>.\<close>

definition Atoi :: "string \<Rightarrow> int option" where
  "Atoi s =
     (let neg = has_prefix s ''-'';
          ds = (if has_prefix s ''-'' \<or> has_prefix s ''+'' then tl s else s)
      in if ds = [] \<or> \<not> list_all is_digit ds then None
         else let v = (if neg then - int (dec_val ds) else int (dec_val ds))
              in if min_i64 \<le> v \<and> v \<le> max_i64 then Some v else None)"

text \<open>\<open>strconv.ParseUint(s, 10, 64)\<close>.\<close>

definition ParseUint64 :: "string \<Rightarrow> u64 option" where
  "ParseUint64 s =
     (if s = [] \<or> \<not> list_all is_digit s \<or> dec_val s \<ge> u64_limit then None
      else Some (of_nat (dec_val s)))"

text \<open>\<open>strconv.FormatUint(n, 10)\<close>.\<close>

fun dec_string :: "nat \<Rightarrow> string" where
  "dec_string n =
     (if n < 10 then [char_of (48 + n)] else dec_string (n div 10) @ [char_of (48 + n mod 10)])"

declare dec_string.simps [simp del]

lemma digit_char: "n < 10 \<Longrightarrow> is_digit (char_of (48 + n))" "n < 10 \<Longrightarrow> digit_val (char_of (48 + n)) = n"
  by (simp_all add: is_digit_def digit_val_def Let_def)

lemma dec_val_snoc [simp]: "dec_val [] = 0" "dec_val (s @ [c]) = 10 * dec_val s + digit_val c"
  by (simp_all add: dec_val_def)

lemma dec_string_digits: "list_all is_digit (dec_string n)"
proof (induction n rule: dec_string.induct)
  case (1 n)
  then show ?case by (subst dec_string.simps) (simp add: digit_char)
qed

lemma dec_val_dec_string [simp]: "dec_val (dec_string n) = n"
proof (induction n rule: dec_string.induct)
  case (1 n)
  show ?case
  proof (cases "n < 10")
    case True
    then show ?thesis using dec_val_snoc(2) [of "[]"] by (subst dec_string.simps) (simp add: digit_char)
  next
    case False
    with 1 show ?thesis by (subst dec_string.simps) (simp add: digit_char)
  qed
qed

lemma dec_string_inject [simp]: "dec_string m = dec_string n \<longleftrightarrow> m = n"
  by (metis dec_val_dec_string)

lemma dec_string_not_Nil [simp]: "dec_string n \<noteq> []"
  by (subst dec_string.simps) simp

lemma dec_string_hd: "is_digit (hd (dec_string n))"
  using dec_string_digits [of n] dec_string_not_Nil [of n] by (cases "dec_string n") auto

lemma is_digit_not: "is_digit c \<Longrightarrow> c \<noteq> CHR ''-'' \<and> c \<noteq> CHR ''+'' \<and> c \<noteq> CHR '':'' "
  by (auto simp: is_digit_def)

lemma dec_string_no_colon: "CHR '':'' \<notin> set (dec_string n)"
  using dec_string_digits [of n] is_digit_not by (auto simp: list_all_iff)

lemma Atoi_dec_string: "int n \<le> max_i64 \<Longrightarrow> Atoi (dec_string n) = Some (int n)"
proof -
  assume "int n \<le> max_i64"
  moreover have "\<not> has_prefix (dec_string n) ''-''" "\<not> has_prefix (dec_string n) ''+''"
    using dec_string_hd [of n] is_digit_not dec_string_not_Nil [of n]
    by (cases "dec_string n"; auto simp: has_prefix_def)+
  ultimately show ?thesis
    using dec_string_digits [of n] by (simp add: Atoi_def min_i64_def)
qed

lemma Atoi_range: "Atoi s = Some v \<Longrightarrow> min_i64 \<le> v \<and> v \<le> max_i64"
  by (auto simp: Atoi_def Let_def split: if_splits)

section \<open>White space (strings.TrimSpace, strings.Fields)\<close>

definition is_space :: "char \<Rightarrow> bool" where
  "is_space c = (c \<in> set [CHR '' '', CHR 0x09, CHR 0x0A, CHR 0x0B, CHR 0x0C, CHR 0x0D])"

definition TrimSpace :: "string \<Rightarrow> string" where
  "TrimSpace s = rev (dropWhile is_space (rev (dropWhile is_space s)))"

function Fields :: "string \<Rightarrow> string list" where
  "Fields s =
     (let t = dropWhile is_space s in
      if t = [] then []
      else takeWhile (\<lambda>c. \<not> is_space c) t # Fields (dropWhile (\<lambda>c. \<not> is_space c) t))"
  by auto

lemma dropWhile_shorter:
  "t \<noteq> [] \<Longrightarrow> P (hd t) \<Longrightarrow> length (dropWhile P t) < length t"
  by (cases t) (auto intro: le_imp_less_Suc length_dropWhile_le)

termination Fields
proof (relation "measure length")
  fix s :: string and t assume t: "t = dropWhile is_space s" and ne: "t \<noteq> []"
  have "\<not> is_space (hd t)" using t ne hd_dropWhile [of is_space s] by (simp add: dropWhile_eq_Nil_conv)
  then have "length (dropWhile (\<lambda>c. \<not> is_space c) t) < length t" using ne by (rule_tac dropWhile_shorter)
  also have "length t \<le> length s" using t by (simp add: length_dropWhile_le)
  finally show "(dropWhile (\<lambda>c. \<not> is_space c) t, s) \<in> measure length" by simp
qed simp

declare Fields.simps [simp del]

section \<open>Scanning (fmt.Sscanf)\<close>

text \<open>fmt.Sscanf with the format \<open>%d\<close>: blanks are skipped, a line break is an error, an optional
  sign and at least one digit are read, and what follows the digits is not looked at.\<close>

definition Sscanf_d :: "string \<Rightarrow> int option" where
  "Sscanf_d s =
     (let t = dropWhile (\<lambda>c. is_space c \<and> c \<noteq> CHR 0x0A) s;
          sgn = (if t \<noteq> [] \<and> (hd t = CHR ''+'' \<or> hd t = CHR ''-'') then [hd t] else []);
          ds = takeWhile is_digit (drop (length sgn) t)
      in if t \<noteq> [] \<and> hd t = CHR 0x0A then None
         else if ds = [] then None
         else Atoi (sgn @ ds))"

lemma Sscanf_d_dec_string:
  assumes "int n \<le> max_i64"
  shows "Sscanf_d (dec_string n) = Some (int n)"
proof -
  obtain c cs where d: "dec_string n = c # cs" by (cases "dec_string n") auto
  have dig: "list_all is_digit (c # cs)" using dec_string_digits [of n] d by simp
  then have c: "\<not> is_space c" "c \<noteq> CHR ''+''" "c \<noteq> CHR ''-''" "c \<noteq> CHR 0x0A"
    by (auto simp: is_space_def is_digit_def)
  have "takeWhile is_digit (c # cs) = c # cs" using dig by (simp add: takeWhile_eq_all_conv list_all_iff)
  then show ?thesis
    using c Atoi_dec_string [OF assms] d by (simp add: Sscanf_d_def Let_def)
qed

section \<open>Sorting\<close>

text \<open>\<open>sort.Strings\<close>, and \<open>sort.Slice\<close> as the insertion sort Go runs on short slices: the
  result is determined whenever the comparison is a strict total order.\<close>

definition sort_Strings :: "string list \<Rightarrow> string list" where
  "sort_Strings = sort"

text \<open>The prefix is kept in reverse: the new element moves left while it is less than its
  predecessor.\<close>

fun insert_rev :: "('a \<Rightarrow> 'a \<Rightarrow> bool) \<Rightarrow> 'a \<Rightarrow> 'a list \<Rightarrow> 'a list" where
  "insert_rev lt x [] = [x]"
| "insert_rev lt x (y # ys) = (if lt x y then y # insert_rev lt x ys else x # y # ys)"

definition sort_Slice :: "('a \<Rightarrow> 'a \<Rightarrow> bool) \<Rightarrow> 'a list \<Rightarrow> 'a list" where
  "sort_Slice lt xs = rev (foldl (\<lambda>acc x. insert_rev lt x acc) [] xs)"

lemma set_insert_rev [simp]: "set (insert_rev lt x ys) = insert x (set ys)"
  by (induction ys) auto

lemma set_sort_Slice [simp]: "set (sort_Slice lt xs) = set xs"
proof -
  have "set (foldl (\<lambda>acc x. insert_rev lt x acc) ys xs) = set ys \<union> set xs" for ys
    by (induction xs arbitrary: ys) auto
  then show ?thesis by (simp add: sort_Slice_def)
qed

lemma length_insert_rev [simp]: "length (insert_rev lt x ys) = Suc (length ys)"
  by (induction ys) auto

lemma length_sort_Slice [simp]: "length (sort_Slice lt xs) = length xs"
proof -
  have "length (foldl (\<lambda>acc x. insert_rev lt x acc) ys xs) = length ys + length xs" for ys
    by (induction xs arbitrary: ys) auto
  then show ?thesis by (simp add: sort_Slice_def)
qed

text \<open>When no element is less than one before it, as for a strict weak order, the result is
  sorted.\<close>

lemma insert_rev_sorted:
  assumes tr: "\<And>a b c. \<not> lt a b \<Longrightarrow> \<not> lt b c \<Longrightarrow> \<not> lt a c"
    and as: "\<And>a b. lt a b \<Longrightarrow> \<not> lt b a"
    and "sorted_wrt (\<lambda>b a. \<not> lt b a) ys"
  shows "sorted_wrt (\<lambda>b a. \<not> lt b a) (insert_rev lt x ys)"
  using assms(3)
proof (induction ys)
  case (Cons y ys)
  show ?case
  proof (cases "lt x y")
    case True
    then show ?thesis using Cons as [OF True] by simp
  next
    case False
    then have "\<forall>z \<in> set ys. \<not> lt x z" using Cons.prems tr by (meson sorted_wrt.simps(2))
    with False Cons show ?thesis by simp
  qed
qed simp

lemma sort_Slice_sorted:
  assumes "\<And>a b c. \<not> lt a b \<Longrightarrow> \<not> lt b c \<Longrightarrow> \<not> lt a c"
    and "\<And>a b. lt a b \<Longrightarrow> \<not> lt b a"
  shows "sorted_wrt (\<lambda>a b. \<not> lt b a) (sort_Slice lt xs)"
proof -
  have "sorted_wrt (\<lambda>b a. \<not> lt b a) (foldl (\<lambda>acc x. insert_rev lt x acc) ys xs)"
    if "sorted_wrt (\<lambda>b a. \<not> lt b a) ys" for ys
    using that
  proof (induction xs arbitrary: ys)
    case (Cons x xs)
    have "sorted_wrt (\<lambda>b a. \<not> lt b a) (insert_rev lt x ys)"
      by (rule insert_rev_sorted [of lt, OF assms Cons.prems])
    with Cons.IH show ?case by simp
  qed simp
  then show ?thesis by (simp add: sort_Slice_def sorted_wrt_rev)
qed

section \<open>Regular expressions\<close>

text \<open>\<open>regexp.MustCompile\<close> on patterns anchored at both ends: \<open>MatchString\<close> accepts the
  texts of the expression's language.  A class is a list of ranges; matching is by
  derivatives.\<close>

datatype rx =
    REmpty
  | REps
  | RClass "(char \<times> char) list"
  | RSeq rx rx
  | RAlt rx rx
  | RStar rx

definition in_class :: "(char \<times> char) list \<Rightarrow> char \<Rightarrow> bool" where
  "in_class cs c = list_ex (\<lambda>(a, b). a \<le> c \<and> c \<le> b) cs"

fun nullable :: "rx \<Rightarrow> bool" where
  "nullable REmpty = False"
| "nullable REps = True"
| "nullable (RClass cs) = False"
| "nullable (RSeq r s) = (nullable r \<and> nullable s)"
| "nullable (RAlt r s) = (nullable r \<or> nullable s)"
| "nullable (RStar r) = True"

text \<open>Sequence and alternative, with the neutral elements dropped so that derivatives stay
  small.\<close>

fun mk_seq :: "rx \<Rightarrow> rx \<Rightarrow> rx" where
  "mk_seq REmpty s = REmpty"
| "mk_seq REps s = s"
| "mk_seq r s = RSeq r s"

fun mk_alt :: "rx \<Rightarrow> rx \<Rightarrow> rx" where
  "mk_alt REmpty s = s"
| "mk_alt r s = (if s = REmpty \<or> s = r then r else RAlt r s)"

fun deriv_rx :: "char \<Rightarrow> rx \<Rightarrow> rx" where
  "deriv_rx c REmpty = REmpty"
| "deriv_rx c REps = REmpty"
| "deriv_rx c (RClass cs) = (if in_class cs c then REps else REmpty)"
| "deriv_rx c (RSeq r s) =
     (if nullable r then mk_alt (mk_seq (deriv_rx c r) s) (deriv_rx c s) else mk_seq (deriv_rx c r) s)"
| "deriv_rx c (RAlt r s) = mk_alt (deriv_rx c r) (deriv_rx c s)"
| "deriv_rx c (RStar r) = mk_seq (deriv_rx c r) (RStar r)"

definition MatchString :: "rx \<Rightarrow> string \<Rightarrow> bool" where
  "MatchString r s = nullable (foldl (\<lambda>r c. deriv_rx c r) r s)"

inductive_set star :: "string set \<Rightarrow> string set" for L where
  star_Nil: "[] \<in> star L"
| star_app: "u \<in> L \<Longrightarrow> v \<in> star L \<Longrightarrow> u @ v \<in> star L"

fun lang :: "rx \<Rightarrow> string set" where
  "lang REmpty = {}"
| "lang REps = {[]}"
| "lang (RClass cs) = {[c] | c. in_class cs c}"
| "lang (RSeq r s) = {u @ v | u v. u \<in> lang r \<and> v \<in> lang s}"
| "lang (RAlt r s) = lang r \<union> lang s"
| "lang (RStar r) = star (lang r)"

text \<open>The abbreviations of the syntax: a literal, an option, one or more, bounded repetition.\<close>

fun rstr :: "string \<Rightarrow> rx" where
  "rstr [] = REps"
| "rstr (c # cs) = RSeq (RClass [(c, c)]) (rstr cs)"

definition ropt :: "rx \<Rightarrow> rx" where
  "ropt r = RAlt r REps"

definition rplus :: "rx \<Rightarrow> rx" where
  "rplus r = RSeq r (RStar r)"

fun rrep :: "nat \<Rightarrow> rx \<Rightarrow> rx" where
  "rrep 0 r = REps"
| "rrep (Suc n) r = RSeq r (rrep n r)"

fun rupto :: "nat \<Rightarrow> rx \<Rightarrow> rx" where
  "rupto 0 r = REps"
| "rupto (Suc n) r = ropt (RSeq r (rupto n r))"

lemma nullable_lang: "nullable r \<longleftrightarrow> [] \<in> lang r"
  by (induction r) (auto intro: star_Nil)

lemma star_Cons: "c # w \<in> star L \<longleftrightarrow> (\<exists>u v. w = u @ v \<and> c # u \<in> L \<and> v \<in> star L)"
proof
  assume "c # w \<in> star L"
  then show "\<exists>u v. w = u @ v \<and> c # u \<in> L \<and> v \<in> star L"
  proof (induction "c # w" arbitrary: w)
    case (star_app u v)
    then show ?case by (cases u) auto
  qed
next
  assume "\<exists>u v. w = u @ v \<and> c # u \<in> L \<and> v \<in> star L"
  then show "c # w \<in> star L" using star_app [of "c # _" L] by auto
qed

lemma lang_mk_seq [simp]: "lang (mk_seq r s) = lang (RSeq r s)"
  by (induction r s rule: mk_seq.induct) auto

lemma lang_mk_alt [simp]: "lang (mk_alt r s) = lang (RAlt r s)"
  by (induction r s rule: mk_alt.induct) auto

lemma deriv_rx_lang: "w \<in> lang (deriv_rx c r) \<longleftrightarrow> c # w \<in> lang r"
proof (induction r arbitrary: w)
  case (RSeq r s)
  then show ?case by (auto simp: nullable_lang Cons_eq_append_conv append_eq_Cons_conv; blast)
next
  case (RStar r)
  then show ?case by (auto simp: star_Cons)
qed auto

theorem MatchString_lang: "MatchString r s \<longleftrightarrow> s \<in> lang r"
proof -
  have "nullable (foldl (\<lambda>r c. deriv_rx c r) r s) \<longleftrightarrow> s \<in> lang r"
    by (induction s arbitrary: r) (simp_all add: nullable_lang deriv_rx_lang)
  then show ?thesis by (simp add: MatchString_def)
qed

lemma star_class: "w \<in> star {[c] | c. P c} \<longleftrightarrow> list_all P w"
proof
  show "w \<in> star {[c] | c. P c} \<Longrightarrow> list_all P w" by (induction rule: star.induct) auto
  show "list_all P w \<Longrightarrow> w \<in> star {[c] | c. P c}"
    by (induction w) (auto simp: star_Nil star_Cons)
qed

lemma lang_class_seq:
  "w \<in> lang (RSeq (RClass cs) r) \<longleftrightarrow> (\<exists>c v. w = c # v \<and> in_class cs c \<and> v \<in> lang r)"
  by (simp add: conj_commute conj_left_commute) (metis append_Cons append_Nil)

lemma lang_rplus_class: "w \<in> lang (rplus (RClass cs)) \<longleftrightarrow> w \<noteq> [] \<and> list_all (in_class cs) w"
  by (cases w) (auto simp: rplus_def lang_class_seq star_class simp del: lang.simps(4))

lemma lang_rupto_class: "w \<in> lang (rupto n (RClass cs)) \<longleftrightarrow> length w \<le> n \<and> list_all (in_class cs) w"
proof (induction n arbitrary: w)
  case (Suc n)
  then show ?case by (cases w) (auto simp: ropt_def lang_class_seq simp del: lang.simps(4))
qed auto

end
