(* ===== verification/Credentials.thy ===== *)
theory Credentials
  imports Go_Lib Json_Doc
begin

text \<open>
  The credential bindings of the controller (\<open>controller/credentials.go\<close>): the table
  \<open>KAPE_CREDENTIAL_BINDINGS\<close>, the additive merge into one rule, and the operations that
  stamp bindings into an existing sandbox policy.

  Of the protobuf messages of the gateway the records keep the fields this code reads or
  writes; the others are copied with the message.  A decoded message holds no nil element,
  so rules and endpoints are values.
\<close>

section \<open>Messages\<close>

record l7_allow =
  Method :: string
  Path :: string

record network_endpoint =
  Host :: string
  Port :: u32
  Ports :: "u32 list"
  Protocol :: string
  Access :: nat
  Rules :: "l7_allow list"
  AllowedIps :: "string list"
  CredentialBinding :: "string option"

record network_policy_rule =
  Name :: string
  Endpoints :: "network_endpoint list"
  Binaries :: "string list"

text \<open>\<open>NetworkPolicies\<close> is a map from rule keys to rules.\<close>

record sandbox_policy =
  NetworkPolicies :: "(string \<times> network_policy_rule) list"

record binding =
  Provider :: string
  Hosts :: "string list"

text \<open>An \<open>AddRule\<close> operation of a policy merge: the key and the rule.\<close>

type_synonym add_rule = "string \<times> network_policy_rule"

datatype cred_error =
    HostPortWanted string
  | IPv6Unsupported string
  | BadBindingHost string
  | BadBindingPort string
  | NilPolicy
  | AlreadyBound string string string
  | BadBindingTable
  | TrailingData
  | BadProvider nat string
  | NoHosts nat string

definition CredentialBindingRuleName :: string where
  "CredentialBindingRuleName = ''m1_credential_bindings''"

definition credentialBinaryPaths :: "string list" where
  "credentialBinaryPaths = [''/usr/bin/git'', ''/usr/bin/gh'', ''/usr/bin/pi'']"

section \<open>Patterns\<close>

definition alnum :: "(char \<times> char) list" where
  "alnum = [(CHR ''A'', CHR ''Z''), (CHR ''a'', CHR ''z''), (CHR ''0'', CHR ''9'')]"

definition chars :: "string \<Rightarrow> (char \<times> char) list" where
  "chars s = map (\<lambda>c. (c, c)) s"

text \<open>\<open>^[A-Za-z0-9_*-][A-Za-z0-9._*-]*$\<close>\<close>

definition bindingHostRe :: rx where
  "bindingHostRe = RSeq (RClass (alnum @ chars ''_*-'')) (RStar (RClass (alnum @ chars ''._*-'')))"

text \<open>\<open>^[A-Za-z0-9._-]+$\<close>\<close>

definition providerRe :: rx where
  "providerRe = rplus (RClass (alnum @ chars ''._-''))"

definition splitHostSpec :: "string \<Rightarrow> cred_error + (string \<times> u32)" where
  "splitHostSpec spec =
     (case cut CHR '':'' spec of
        None \<Rightarrow> Inl (HostPortWanted spec)
      | Some (host, portPart) \<Rightarrow>
          if host = [] \<or> portPart = [] then Inl (HostPortWanted spec)
          else if CHR '':'' \<in> set portPart then Inl (IPv6Unsupported spec)
          else if \<not> MatchString bindingHostRe host then Inl (BadBindingHost spec)
          else (case Atoi portPart of
                  None \<Rightarrow> Inl (BadBindingPort spec)
                | Some port \<Rightarrow>
                    if port < 1 \<or> port > 65535 then Inl (BadBindingPort spec)
                    else Inr (host, of_int port)))"

definition endpointKey :: "string \<Rightarrow> u32 \<Rightarrow> string" where
  "endpointKey host port = to_lower host @ '':'' @ dec_string (unat port)"

section \<open>The binding table\<close>

text \<open>
  The value of the variable as the JSON decoder sees it: white space only, a text whose
  first value is malformed, or a first value with or without something after it.
\<close>

datatype env_text = EnvBlank | EnvMalformed | EnvValue json bool

fun binding_hosts :: "json list \<Rightarrow> string list option" where
  "binding_hosts [] = Some []"
| "binding_hosts (v # vs) =
     (case v of
        JStr s \<Rightarrow> map_option (\<lambda>hs. s # hs) (binding_hosts vs)
      | JNull \<Rightarrow> map_option (\<lambda>hs. [] # hs) (binding_hosts vs)
      | _ \<Rightarrow> None)"

text \<open>One array element, with unknown fields disallowed.\<close>

fun binding_members :: "(string \<times> json) list \<Rightarrow> binding \<Rightarrow> binding option" where
  "binding_members [] b = Some b"
| "binding_members ((k, v) # ms) b =
     (if to_lower k = ''provider'' then
        (case v of
           JStr s \<Rightarrow> binding_members ms (b\<lparr>Provider := s\<rparr>)
         | JNull \<Rightarrow> binding_members ms b
         | _ \<Rightarrow> None)
      else if to_lower k = ''hosts'' then
        (case v of
           JArr vs \<Rightarrow> (case binding_hosts vs of
                          None \<Rightarrow> None
                        | Some hs \<Rightarrow> binding_members ms (b\<lparr>Hosts := hs\<rparr>))
         | JNull \<Rightarrow> binding_members ms (b\<lparr>Hosts := []\<rparr>)
         | _ \<Rightarrow> None)
      else None)"

fun decode_bindings :: "json list \<Rightarrow> binding list option" where
  "decode_bindings [] = Some []"
| "decode_bindings (v # vs) =
     (let b0 = \<lparr>Provider = [], Hosts = []\<rparr>;
          b = (case v of JObj ms \<Rightarrow> binding_members ms b0 | JNull \<Rightarrow> Some b0 | _ \<Rightarrow> None)
      in case b of
           None \<Rightarrow> None
         | Some b \<Rightarrow> map_option (\<lambda>bs. b # bs) (decode_bindings vs))"

fun check_hosts :: "string list \<Rightarrow> cred_error option" where
  "check_hosts [] = None"
| "check_hosts (spec # specs) =
     (case splitHostSpec spec of Inl e \<Rightarrow> Some e | Inr _ \<Rightarrow> check_hosts specs)"

fun check_bindings :: "nat \<Rightarrow> binding list \<Rightarrow> cred_error option" where
  "check_bindings i [] = None"
| "check_bindings i (b # bs) =
     (if \<not> MatchString providerRe (Provider b) then Some (BadProvider i (Provider b))
      else if Hosts b = [] then Some (NoHosts i (Provider b))
      else (case check_hosts (Hosts b) of
              Some e \<Rightarrow> Some e
            | None \<Rightarrow> check_bindings (Suc i) bs))"

definition ParseBindings :: "env_text \<Rightarrow> cred_error + binding list" where
  "ParseBindings raw =
     (case raw of
        EnvBlank \<Rightarrow> Inr []
      | EnvMalformed \<Rightarrow> Inl BadBindingTable
      | EnvValue v trailing \<Rightarrow>
          (case (case v of JArr vs \<Rightarrow> decode_bindings vs | JNull \<Rightarrow> Some [] | _ \<Rightarrow> None) of
             None \<Rightarrow> Inl BadBindingTable
           | Some bs \<Rightarrow>
               if trailing then Inl TrailingData
               else (case check_bindings 0 bs of Some e \<Rightarrow> Inl e | None \<Rightarrow> Inr bs)))"

text \<open>\<open>validateBindings\<close> of \<open>controller/policy.go\<close>.\<close>

fun validateBindings :: "binding list \<Rightarrow> cred_error option" where
  "validateBindings [] = None"
| "validateBindings (b # bs) =
     (case check_hosts (Hosts b) of Some e \<Rightarrow> Some e | None \<Rightarrow> validateBindings bs)"

section \<open>The additive merge\<close>

definition any_rest :: "l7_allow list" where
  "any_rest = [\<lparr>Method = ''*'', Path = ''**''\<rparr>]"

definition bound_endpoint :: "string \<Rightarrow> u32 \<Rightarrow> string \<Rightarrow> network_endpoint" where
  "bound_endpoint host port provider =
     \<lparr>Host = host, Port = port, Ports = [], Protocol = ''rest'', Access = 0, Rules = any_rest,
      AllowedIps = [], CredentialBinding = Some provider\<rparr>"

text \<open>The endpoints of one binding, after those already collected.\<close>

fun merge_hosts ::
    "string \<Rightarrow> string list \<Rightarrow> network_endpoint list \<Rightarrow> cred_error + network_endpoint list" where
  "merge_hosts provider [] eps = Inr eps"
| "merge_hosts provider (spec # specs) eps =
     (case splitHostSpec spec of
        Inl e \<Rightarrow> Inl e
      | Inr (host, port) \<Rightarrow>
          if endpointKey host port \<in> set (map (\<lambda>ep. endpointKey (Host ep) (Port ep)) eps)
          then merge_hosts provider specs eps
          else merge_hosts provider specs (eps @ [bound_endpoint host port provider]))"

fun merge_bindings ::
    "binding list \<Rightarrow> network_endpoint list \<Rightarrow> cred_error + network_endpoint list" where
  "merge_bindings [] eps = Inr eps"
| "merge_bindings (b # bs) eps =
     (case merge_hosts (Provider b) (Hosts b) eps of
        Inl e \<Rightarrow> Inl e
      | Inr eps' \<Rightarrow> merge_bindings bs eps')"

fun add_binaries :: "string list \<Rightarrow> string list \<Rightarrow> string list" where
  "add_binaries [] bins = bins"
| "add_binaries (p # ps) bins = add_binaries ps (if p \<in> set bins then bins else bins @ [p])"

definition MergePolicy ::
    "network_policy_rule option \<Rightarrow> binding list \<Rightarrow> cred_error + network_policy_rule" where
  "MergePolicy policy bindings =
     (case policy of
        None \<Rightarrow> Inl NilPolicy
      | Some p \<Rightarrow>
          if bindings = [] then Inr p
          else (case merge_bindings bindings (Endpoints p) of
                  Inl e \<Rightarrow> Inl e
                | Inr eps \<Rightarrow>
                    Inr \<lparr>Name = Name p, Endpoints = eps,
                         Binaries = add_binaries credentialBinaryPaths (Binaries p)\<rparr>))"

section \<open>Stamping into an existing policy\<close>

definition ensureL7 :: "network_endpoint \<Rightarrow> network_endpoint" where
  "ensureL7 ep =
     (if Protocol ep \<noteq> [] \<and> Protocol ep \<noteq> ''tcp'' then ep
      else if Access ep \<noteq> 0 \<or> Rules ep \<noteq> [] then ep
      else ep\<lparr>Protocol := ''rest'', Rules := any_rest\<rparr>)"

text \<open>The lookup from endpoint keys to providers, in order of first occurrence.\<close>

fun provider_hosts ::
    "string \<Rightarrow> string list \<Rightarrow> (string \<times> string) list \<Rightarrow> cred_error + (string \<times> string) list" where
  "provider_hosts provider [] ps = Inr ps"
| "provider_hosts provider (spec # specs) ps =
     (case splitHostSpec spec of
        Inl e \<Rightarrow> Inl e
      | Inr (host, port) \<Rightarrow>
          if endpointKey host port \<in> set (map fst ps) then provider_hosts provider specs ps
          else provider_hosts provider specs (ps @ [(endpointKey host port, provider)]))"

fun provider_table :: "binding list \<Rightarrow> (string \<times> string) list \<Rightarrow> cred_error + (string \<times> string) list" where
  "provider_table [] ps = Inr ps"
| "provider_table (b # bs) ps =
     (case provider_hosts (Provider b) (Hosts b) ps of
        Inl e \<Rightarrow> Inl e
      | Inr ps' \<Rightarrow> provider_table bs ps')"

text \<open>The loop over a rule's endpoints: the endpoints to send, whether one changed, and the
  keys seen bound.\<close>

fun stamp_endpoints ::
    "(string \<times> string) list \<Rightarrow> network_endpoint list \<Rightarrow>
     cred_error + (network_endpoint list \<times> bool \<times> string list)" where
  "stamp_endpoints ps [] = Inr ([], False, [])"
| "stamp_endpoints ps (ep # eps) =
     (let key = endpointKey (Host ep) (Port ep) in
      case map_of ps key of
        None \<Rightarrow>
          (case stamp_endpoints ps eps of
             Inl e \<Rightarrow> Inl e
           | Inr (out, changed, keys) \<Rightarrow> Inr (ep # out, changed, keys))
      | Some provider \<Rightarrow>
          (let cur = (case CredentialBinding ep of None \<Rightarrow> [] | Some p \<Rightarrow> p) in
           if cur \<noteq> [] \<and> cur \<noteq> provider then Inl (AlreadyBound key cur provider)
           else (case stamp_endpoints ps eps of
                   Inl e \<Rightarrow> Inl e
                 | Inr (out, changed, keys) \<Rightarrow>
                     if cur \<noteq> [] then Inr (ep # out, changed, key # keys)
                     else Inr (ensureL7 (ep\<lparr>CredentialBinding := Some provider\<rparr>) # out,
                               True, key # keys))))"

text \<open>The loop over the rules in the order of their keys.\<close>

fun stamp_rules ::
    "(string \<times> string) list \<Rightarrow> (string \<times> network_policy_rule) list \<Rightarrow>
     cred_error + (add_rule list \<times> string list)" where
  "stamp_rules ps [] = Inr ([], [])"
| "stamp_rules ps ((key, rule) # rules) =
     (case stamp_endpoints ps (Endpoints rule) of
        Inl e \<Rightarrow> Inl e
      | Inr (eps, changed, keys) \<Rightarrow>
          (case stamp_rules ps rules of
             Inl e \<Rightarrow> Inl e
           | Inr (ops, keys') \<Rightarrow>
               Inr ((if changed then [(key, rule\<lparr>Endpoints := eps\<rparr>)] else []) @ ops, keys @ keys')))"

definition sort_rules :: "(string \<times> network_policy_rule) list \<Rightarrow> (string \<times> network_policy_rule) list" where
  "sort_rules rules = sort_key fst rules"

definition missing_bindings :: "(string \<times> string) list \<Rightarrow> string list \<Rightarrow> binding list" where
  "missing_bindings ps stamped =
     map (\<lambda>(key, provider). \<lparr>Provider = provider, Hosts = [key]\<rparr>)
       (filter (\<lambda>(key, provider). key \<notin> set stamped) ps)"

definition CredentialPolicyOps ::
    "sandbox_policy option \<Rightarrow> binding list \<Rightarrow> cred_error + add_rule list" where
  "CredentialPolicyOps policy bindings =
     (if bindings = [] then Inr []
      else case policy of
        None \<Rightarrow> Inl NilPolicy
      | Some pol \<Rightarrow>
          (case provider_table bindings [] of
             Inl e \<Rightarrow> Inl e
           | Inr ps \<Rightarrow>
               (case stamp_rules ps (sort_rules (NetworkPolicies pol)) of
                  Inl e \<Rightarrow> Inl e
                | Inr (ops, stamped) \<Rightarrow>
                    (let missing = missing_bindings ps stamped in
                     if missing = [] then Inr ops
                     else (case MergePolicy (Some \<lparr>Name = CredentialBindingRuleName,
                                                    Endpoints = [], Binaries = []\<rparr>) missing of
                             Inl e \<Rightarrow> Inl e
                           | Inr rule \<Rightarrow> Inr (ops @ [(Name rule, rule)]))))))"

section \<open>Keys and host patterns\<close>

lemma split_last_unique:
  fixes c :: char
  assumes "xs @ c # ys = xs' @ c # ys'" "c \<notin> set ys" "c \<notin> set ys'"
  shows "xs = xs' \<and> ys = ys'"
proof -
  have eq: "rev ys @ c # rev xs = rev ys' @ c # rev xs'"
    using arg_cong [OF assms(1), of rev] by simp
  have "cut c (rev ys @ c # rev xs) = Some (rev ys, rev xs)"
    "cut c (rev ys' @ c # rev xs') = Some (rev ys', rev xs')"
    using assms(2,3) by simp_all
  then have "(rev ys, rev xs) = (rev ys', rev xs')" unfolding eq by (simp only: option.inject)
  then show ?thesis by (simp only: prod.inject rev_is_rev_conv)
qed

lemma endpointKey_inject:
  "endpointKey h p = endpointKey h' p' \<longleftrightarrow> to_lower h = to_lower h' \<and> p = p'"
proof
  assume "endpointKey h p = endpointKey h' p'"
  then have "to_lower h @ CHR '':'' # dec_string (unat p) = to_lower h' @ CHR '':'' # dec_string (unat p')"
    by (simp add: endpointKey_def)
  from split_last_unique [OF this dec_string_no_colon dec_string_no_colon]
  show "to_lower h = to_lower h' \<and> p = p'" by (simp add: word_unat_eq_iff)
qed (simp add: endpointKey_def)

lemma lower_class: "in_class (alnum @ cs) c \<Longrightarrow> in_class (alnum @ cs) (lower_char c)"
proof -
  assume c: "in_class (alnum @ cs) c"
  show ?thesis
  proof (cases "65 \<le> (of_char c :: nat) \<and> (of_char c :: nat) \<le> 90")
    case True
    then have "CHR ''a'' \<le> lower_char c \<and> lower_char c \<le> CHR ''z''"
      by (simp add: lower_char_def Let_def less_eq_char_def)
    then show ?thesis by (simp add: in_class_def alnum_def)
  qed (use c in \<open>auto simp: lower_char_def Let_def\<close>)
qed

lemma to_lower_idem [simp]: "to_lower (to_lower s) = to_lower s"
proof -
  have "lower_char (lower_char c) = lower_char c" for c
    by (simp add: lower_char_def Let_def)
  then show ?thesis by (simp add: to_lower_def)
qed

lemma bindingHostRe_iff:
  "MatchString bindingHostRe h \<longleftrightarrow>
     h \<noteq> [] \<and> in_class (alnum @ chars ''_*-'') (hd h) \<and> list_all (in_class (alnum @ chars ''._*-'')) (tl h)"
  unfolding MatchString_lang bindingHostRe_def lang_class_seq
  by (cases h) (auto simp: star_class)

lemma bindingHost_lower: "MatchString bindingHostRe h \<Longrightarrow> MatchString bindingHostRe (to_lower h)"
  unfolding bindingHostRe_iff to_lower_def
  by (cases h) (simp_all add: list_all_iff lower_class)

lemma bindingHost_no_colon: "MatchString bindingHostRe h \<Longrightarrow> CHR '':'' \<notin> set h"
proof -
  assume h: "MatchString bindingHostRe h"
  have no: "\<not> in_class (alnum @ chars ''_*-'') CHR '':''" "\<not> in_class (alnum @ chars ''._*-'') CHR '':''"
    by (simp_all add: in_class_def alnum_def chars_def less_eq_char_def)
  from h show ?thesis
    unfolding bindingHostRe_iff using no by (cases h) (auto simp: list_all_iff)
qed

lemma splitHostSpec_SomeD:
  assumes "splitHostSpec spec = Inr (host, port)"
  shows "MatchString bindingHostRe host" "1 \<le> unat port" "unat port \<le> 65535" "host \<noteq> []"
proof -
  obtain pp v where v: "cut CHR '':'' spec = Some (host, pp)" "MatchString bindingHostRe host" "host \<noteq> []"
    "1 \<le> v" "v \<le> 65535" "port = of_int v"
    using assms by (auto simp: splitHostSpec_def not_less split: option.splits if_splits)
  define n where "n = nat v"
  with v have n: "v = int n" "n \<le> 65535" "1 \<le> n" by auto
  have "unat port = n" using n(2) by (simp add: v(6) n(1) unat_of_nat take_bit_eq_mod)
  with v(2,3) n show "MatchString bindingHostRe host" "1 \<le> unat port" "unat port \<le> 65535" "host \<noteq> []" by auto
qed

lemma splitHostSpec_print_nat:
  assumes "MatchString bindingHostRe host" "1 \<le> n" "n \<le> 65535"
  shows "splitHostSpec (host @ '':'' @ dec_string n) = Inr (host, of_nat n)"
proof -
  have "host \<noteq> []" using assms(1) by (auto simp: bindingHostRe_iff)
  moreover have "Atoi (dec_string n) = Some (int n)"
    using assms(3) by (intro Atoi_dec_string) (simp add: max_i64_def)
  moreover have "CHR '':'' \<notin> set host" by (rule bindingHost_no_colon [OF assms(1)])
  ultimately show ?thesis
    using assms dec_string_no_colon [of n] by (simp add: splitHostSpec_def)
qed

lemma splitHostSpec_print:
  assumes "MatchString bindingHostRe host" "1 \<le> unat port" "unat port \<le> 65535"
  shows "splitHostSpec (host @ '':'' @ dec_string (unat port)) = Inr (host, port)"
  using splitHostSpec_print_nat [OF assms] by simp

lemma splitHostSpec_key:
  "splitHostSpec spec = Inr (host, port) \<Longrightarrow> splitHostSpec (endpointKey host port) = Inr (to_lower host, port)"
  using splitHostSpec_SomeD [of spec host port] bindingHost_lower [of host]
    splitHostSpec_print [of "to_lower host" port]
  by (simp add: endpointKey_def)

section \<open>The additive merge\<close>

abbreviation (input) ep_key :: "network_endpoint \<Rightarrow> string" where
  "ep_key ep \<equiv> endpointKey (Host ep) (Port ep)"

definition spec_key :: "string \<Rightarrow> string option" where
  "spec_key spec = (case splitHostSpec spec of Inl e \<Rightarrow> None | Inr (h, p) \<Rightarrow> Some (endpointKey h p))"

lemma bound_endpoint_sel [simp]:
  "ep_key (bound_endpoint h p v) = endpointKey h p" "CredentialBinding (bound_endpoint h p v) = Some v"
  by (simp_all add: bound_endpoint_def)

lemma merge_hosts_ok:
  assumes "merge_hosts v specs eps = Inr eps'"
  shows "\<exists>new. eps' = eps @ new \<and> (\<forall>ep \<in> set new. CredentialBinding ep = Some v) \<and>
    (\<forall>spec \<in> set specs. \<exists>ep \<in> set eps'. spec_key spec = Some (ep_key ep))"
  using assms
proof (induction v specs eps rule: merge_hosts.induct)
  case (2 v spec specs eps)
  obtain h p where sp: "splitHostSpec spec = Inr (h, p)" using 2(3) by (auto split: sum.splits)
  show ?case
  proof (cases "endpointKey h p \<in> set (map ep_key eps)")
    case True
    then obtain new where "eps' = eps @ new" "\<forall>ep \<in> set new. CredentialBinding ep = Some v"
      "\<forall>spec \<in> set specs. \<exists>ep \<in> set eps'. spec_key spec = Some (ep_key ep)"
      using 2(1) [OF sp refl] 2(3) sp by auto
    with True sp show ?thesis by (force simp: spec_key_def)
  next
    case False
    then obtain new where "eps' = (eps @ [bound_endpoint h p v]) @ new"
      "\<forall>ep \<in> set new. CredentialBinding ep = Some v"
      "\<forall>spec \<in> set specs. \<exists>ep \<in> set eps'. spec_key spec = Some (ep_key ep)"
      using 2(2) [OF sp refl] 2(3) sp by auto
    with sp show ?thesis
      by (intro exI [of _ "bound_endpoint h p v # new"]) (auto simp: spec_key_def)
  qed
qed simp

lemma merge_hosts_idem:
  assumes "\<forall>spec \<in> set specs. \<exists>ep \<in> set eps. spec_key spec = Some (ep_key ep)"
  shows "merge_hosts v specs eps = Inr eps"
  using assms
proof (induction specs)
  case (Cons spec specs)
  then obtain h p where "splitHostSpec spec = Inr (h, p)" "endpointKey h p \<in> set (map ep_key eps)"
    by (auto simp: spec_key_def split: sum.splits)
  with Cons show ?case by simp
qed simp

lemma merge_bindings_ok:
  assumes "merge_bindings bs eps = Inr eps'"
  shows "\<exists>new. eps' = eps @ new \<and> (\<forall>ep \<in> set new. CredentialBinding ep \<in> Some ` Provider ` set bs) \<and>
    (\<forall>b \<in> set bs. \<forall>spec \<in> set (Hosts b). \<exists>ep \<in> set eps'. spec_key spec = Some (ep_key ep))"
  using assms
proof (induction bs arbitrary: eps)
  case (Cons b bs)
  then obtain eps1 where m: "merge_hosts (Provider b) (Hosts b) eps = Inr eps1" "merge_bindings bs eps1 = Inr eps'"
    by (auto split: sum.splits)
  from merge_hosts_ok [OF m(1)] Cons.IH [OF m(2)] obtain new new' where
    n: "eps1 = eps @ new" "\<forall>ep \<in> set new. CredentialBinding ep = Some (Provider b)"
    "\<forall>spec \<in> set (Hosts b). \<exists>ep \<in> set eps1. spec_key spec = Some (ep_key ep)"
    "eps' = eps1 @ new'" "\<forall>ep \<in> set new'. CredentialBinding ep \<in> Some ` Provider ` set bs"
    "\<forall>b \<in> set bs. \<forall>spec \<in> set (Hosts b). \<exists>ep \<in> set eps'. spec_key spec = Some (ep_key ep)"
    by blast
  have "\<forall>spec \<in> set (Hosts b). \<exists>ep \<in> set eps'. spec_key spec = Some (ep_key ep)"
    using n(3,4) by auto
  with n show ?case by (intro exI [of _ "new @ new'"]) auto
qed simp

lemma merge_bindings_idem:
  assumes "\<forall>b \<in> set bs. \<forall>spec \<in> set (Hosts b). \<exists>ep \<in> set eps. spec_key spec = Some (ep_key ep)"
  shows "merge_bindings bs eps = Inr eps"
  using assms by (induction bs) (simp_all add: merge_hosts_idem)

lemma add_binaries_ok: "\<exists>new. add_binaries ps bins = bins @ new \<and> set ps \<subseteq> set (bins @ new) \<and> set new \<subseteq> set ps"
proof (induction ps arbitrary: bins)
  case (Cons p ps)
  obtain new where new: "add_binaries ps (if p \<in> set bins then bins else bins @ [p]) =
      (if p \<in> set bins then bins else bins @ [p]) @ new"
    "set ps \<subseteq> set ((if p \<in> set bins then bins else bins @ [p]) @ new)" "set new \<subseteq> set ps"
    using Cons by blast
  then show ?case
    by (intro exI [of _ "(if p \<in> set bins then [] else [p]) @ new"]) (auto split: if_splits)
qed simp

lemma add_binaries_idem: "set ps \<subseteq> set bins \<Longrightarrow> add_binaries ps bins = bins"
  by (induction ps) auto

text \<open>C21: the credential merge only adds.  A successful merge keeps the rule's name, keeps the
  endpoints and binaries it was given as a prefix, covers every host pattern of the table,
  gives every endpoint it adds the provider of some binding, and allows the three credential
  binaries; merging the same table again changes nothing.\<close>

theorem MergePolicy_additive:
  assumes merge: "MergePolicy (Some p) bs = Inr q" and bs: "bs \<noteq> []"
  shows "Name q = Name p \<and> take (length (Endpoints p)) (Endpoints q) = Endpoints p \<and>
    take (length (Binaries p)) (Binaries q) = Binaries p \<and>
    set credentialBinaryPaths \<subseteq> set (Binaries q) \<and>
    (\<forall>ep \<in> set (drop (length (Endpoints p)) (Endpoints q)). CredentialBinding ep \<in> Some ` Provider ` set bs) \<and>
    (\<forall>b \<in> set bs. \<forall>spec \<in> set (Hosts b). \<exists>h port ep. splitHostSpec spec = Inr (h, port) \<and>
       ep \<in> set (Endpoints q) \<and> to_lower (Host ep) = to_lower h \<and> Port ep = port) \<and>
    MergePolicy (Some q) bs = Inr q"
proof -
  from merge bs obtain eps where eps: "merge_bindings bs (Endpoints p) = Inr eps"
    and q: "q = \<lparr>Name = Name p, Endpoints = eps, Binaries = add_binaries credentialBinaryPaths (Binaries p)\<rparr>"
    by (auto simp: MergePolicy_def split: sum.splits)
  obtain new where new: "eps = Endpoints p @ new" "\<forall>ep \<in> set new. CredentialBinding ep \<in> Some ` Provider ` set bs"
    and cov: "\<forall>b \<in> set bs. \<forall>spec \<in> set (Hosts b). \<exists>ep \<in> set eps. spec_key spec = Some (ep_key ep)"
    using merge_bindings_ok [OF eps] by blast
  obtain bins where bins: "add_binaries credentialBinaryPaths (Binaries p) = Binaries p @ bins"
    "set credentialBinaryPaths \<subseteq> set (Binaries p @ bins)"
    using add_binaries_ok by blast
  have key: "\<exists>h port. splitHostSpec spec = Inr (h, port) \<and> to_lower (Host ep) = to_lower h \<and> Port ep = port"
    if "spec_key spec = Some (ep_key ep)" for spec ep
    using that by (auto simp: spec_key_def endpointKey_inject split: sum.splits)
  have "\<forall>b \<in> set bs. \<forall>spec \<in> set (Hosts b). \<exists>h port ep. splitHostSpec spec = Inr (h, port) \<and>
       ep \<in> set (Endpoints q) \<and> to_lower (Host ep) = to_lower h \<and> Port ep = port"
    using cov key by (simp add: q) blast
  moreover have "MergePolicy (Some q) bs = Inr q"
    using merge_bindings_idem [OF cov] bins add_binaries_idem bs by (simp add: MergePolicy_def q)
  ultimately show ?thesis using q new bins by simp
qed

section \<open>Stamping\<close>

text \<open>What an endpoint may become: an endpoint whose key is bound carries its provider and is
  otherwise the same up to the upgrade to L7; any other endpoint is unchanged.\<close>

definition stamped_as :: "(string \<times> string) list \<Rightarrow> network_endpoint \<Rightarrow> network_endpoint \<Rightarrow> bool" where
  "stamped_as ps ep ep' =
     (case map_of ps (ep_key ep) of
        None \<Rightarrow> ep' = ep
      | Some v \<Rightarrow>
          CredentialBinding ep' = Some v \<and>
          ep' = (if CredentialBinding ep = Some v then ep
                 else ensureL7 (ep\<lparr>CredentialBinding := Some v\<rparr>)))"

lemma ensureL7_sel [simp]:
  "CredentialBinding (ensureL7 ep) = CredentialBinding ep" "Host (ensureL7 ep) = Host ep"
  "Port (ensureL7 ep) = Port ep" "AllowedIps (ensureL7 ep) = AllowedIps ep"
  by (simp_all add: ensureL7_def)

lemma stamp_endpoints_ok:
  assumes "[] \<notin> set (map snd ps)" and "stamp_endpoints ps eps = Inr (out, changed, keys)"
  shows "list_all2 (stamped_as ps) eps out \<and> (\<not> changed \<longrightarrow> out = eps) \<and>
    set keys = (\<lambda>ep. ep_key ep) ` set eps \<inter> fst ` set ps"
  using assms(2)
proof (induction eps arbitrary: out changed keys)
  case (Cons ep eps)
  show ?case
  proof (cases "map_of ps (ep_key ep)")
    case None
    with Cons.prems obtain out' where "stamp_endpoints ps eps = Inr (out', changed, keys)" "out = ep # out'"
      by (auto split: sum.splits prod.splits)
    moreover have "ep_key ep \<notin> set (map fst ps)" using None by (simp add: map_of_eq_None_iff)
    ultimately show ?thesis using Cons.IH [of out' changed keys] None by (auto simp: stamped_as_def)
  next
    case (Some v)
    have v: "v \<noteq> []" and k: "ep_key ep \<in> set (map fst ps)"
      using assms(1) map_of_SomeD [OF Some] by (force, force)
    let ?cur = "case CredentialBinding ep of None \<Rightarrow> [] | Some p \<Rightarrow> p"
    from Cons.prems Some obtain out' ch' keys' where
      r: "stamp_endpoints ps eps = Inr (out', ch', keys')" "keys = ep_key ep # keys'" "?cur = [] \<or> ?cur = v"
      "if ?cur \<noteq> [] then out = ep # out' \<and> changed = ch'
       else out = ensureL7 (ep\<lparr>CredentialBinding := Some v\<rparr>) # out' \<and> changed"
      by (auto simp: Let_def split: sum.splits prod.splits if_splits)
    have "stamped_as ps ep (hd out)" "tl out = out'" "out \<noteq> []" "\<not> changed \<Longrightarrow> hd out = ep \<and> \<not> ch'"
      using r(3,4) Some v by (auto simp: stamped_as_def split: if_splits option.splits)
    with Cons.IH [OF r(1)] r(2) k show ?thesis by (cases out) auto
  qed
qed auto

text \<open>The endpoint keys a policy's rules declare.\<close>

definition declared_keys :: "(string \<times> network_policy_rule) list \<Rightarrow> string set" where
  "declared_keys rules = (\<Union>kr \<in> set rules. (\<lambda>ep. ep_key ep) ` set (Endpoints (snd kr)))"

lemma stamp_rules_ok:
  assumes "[] \<notin> set (map snd ps)" and "stamp_rules ps rules = Inr (ops, keys)"
  shows "(\<forall>(key, rule) \<in> set rules. \<exists>eps. list_all2 (stamped_as ps) (Endpoints rule) eps \<and>
      ((key, rule\<lparr>Endpoints := eps\<rparr>) \<in> set ops \<or> eps = Endpoints rule)) \<and>
    (\<forall>(key, rule') \<in> set ops. \<exists>rule. (key, rule) \<in> set rules \<and> Name rule' = Name rule \<and>
      Binaries rule' = Binaries rule \<and> list_all2 (stamped_as ps) (Endpoints rule) (Endpoints rule')) \<and>
    set keys = declared_keys rules \<inter> fst ` set ps"
  using assms(2)
proof (induction rules arbitrary: ops keys)
  case (Cons kr rules)
  obtain key rule where kr: "kr = (key, rule)" by fastforce
  from Cons.prems kr obtain eps changed ks ops' ks' where
    r: "stamp_endpoints ps (Endpoints rule) = Inr (eps, changed, ks)" "stamp_rules ps rules = Inr (ops', ks')"
    "ops = (if changed then [(key, rule\<lparr>Endpoints := eps\<rparr>)] else []) @ ops'" "keys = ks @ ks'"
    by (auto split: sum.splits prod.splits)
  note e = stamp_endpoints_ok [OF assms(1) r(1)] and ih = Cons.IH [OF r(2)]
  have head: "\<exists>eps. list_all2 (stamped_as ps) (Endpoints rule) eps \<and>
      ((key, rule\<lparr>Endpoints := eps\<rparr>) \<in> set ops \<or> eps = Endpoints rule)"
    using e r(3) by (cases changed) auto
  have tail: "\<forall>(key, rule) \<in> set rules. \<exists>eps. list_all2 (stamped_as ps) (Endpoints rule) eps \<and>
      ((key, rule\<lparr>Endpoints := eps\<rparr>) \<in> set ops \<or> eps = Endpoints rule)"
    using ih r(3) by fastforce
  have ops: "\<forall>(k, rule') \<in> set ops. \<exists>rule. (k, rule) \<in> set (kr # rules) \<and> Name rule' = Name rule \<and>
      Binaries rule' = Binaries rule \<and> list_all2 (stamped_as ps) (Endpoints rule) (Endpoints rule')"
    using ih e r(3) kr by (fastforce split: if_splits)
  have "set keys = declared_keys (kr # rules) \<inter> fst ` set ps"
    using ih e r(4) kr by (simp add: declared_keys_def Int_Un_distrib2)
  with head tail ops kr show ?case by auto
qed (simp add: declared_keys_def)

text \<open>The lookup table: distinct keys, each of them a host pattern, first binding wins.\<close>

definition key_ok :: "string \<Rightarrow> bool" where
  "key_ok k \<longleftrightarrow> (\<exists>h p. splitHostSpec k = Inr (h, p) \<and> endpointKey h p = k)"

lemma spec_key_ok: "splitHostSpec spec = Inr (h, p) \<Longrightarrow> key_ok (endpointKey h p)"
  using splitHostSpec_key [of spec h p]
  by (auto simp: key_ok_def intro!: exI [of _ "to_lower h"] exI [of _ p]) (simp add: endpointKey_def)

definition table_ok :: "(string \<times> string) list \<Rightarrow> bool" where
  "table_ok ps \<longleftrightarrow> distinct (map fst ps) \<and> (\<forall>k \<in> fst ` set ps. key_ok k)"

lemma provider_hosts_ok:
  assumes "provider_hosts v specs ps = Inr ps'" "table_ok ps"
  shows "table_ok ps' \<and> set ps \<subseteq> set ps' \<and> snd ` set ps' \<subseteq> insert v (snd ` set ps) \<and>
    (\<forall>spec \<in> set specs. spec_key spec \<in> Some ` fst ` set ps')"
  using assms
proof (induction v specs ps rule: provider_hosts.induct)
  case (2 v spec specs ps)
  obtain h p where sp: "splitHostSpec spec = Inr (h, p)" using 2(3) by (auto split: sum.splits)
  show ?case
  proof (cases "endpointKey h p \<in> set (map fst ps)")
    case True
    with 2(1) [OF sp refl True] 2(3,4) sp show ?thesis by (auto simp: spec_key_def)
  next
    case False
    then have "table_ok (ps @ [(endpointKey h p, v)])"
      using 2(4) spec_key_ok [OF sp] by (auto simp: table_ok_def)
    moreover have "provider_hosts v specs (ps @ [(endpointKey h p, v)]) = Inr ps'"
      using 2(3) False sp by simp
    ultimately have ih: "table_ok ps'" "set (ps @ [(endpointKey h p, v)]) \<subseteq> set ps'"
      "snd ` set ps' \<subseteq> insert v (snd ` set (ps @ [(endpointKey h p, v)]))"
      "\<forall>spec \<in> set specs. spec_key spec \<in> Some ` fst ` set ps'"
      using 2(2) [OF sp refl False] by blast+
    have "fst (endpointKey h p, v) \<in> fst ` set ps'" by (rule imageI) (use ih(2) in simp)
    moreover have "spec_key spec = Some (endpointKey h p)" using sp by (simp add: spec_key_def)
    ultimately have "spec_key spec \<in> Some ` fst ` set ps'" by simp
    with ih show ?thesis by simp
  qed
qed auto

lemma provider_table_ok:
  assumes "provider_table bs ps = Inr ps'" "table_ok ps"
  shows "table_ok ps' \<and> set ps \<subseteq> set ps' \<and> snd ` set ps' \<subseteq> Provider ` set bs \<union> snd ` set ps \<and>
    (\<forall>b \<in> set bs. \<forall>spec \<in> set (Hosts b). spec_key spec \<in> Some ` fst ` set ps')"
  using assms
proof (induction bs arbitrary: ps)
  case (Cons b bs)
  then obtain ps1 where p: "provider_hosts (Provider b) (Hosts b) ps = Inr ps1" "provider_table bs ps1 = Inr ps'"
    by (auto split: sum.splits)
  note one = provider_hosts_ok [OF p(1) Cons.prems(2)]
  with Cons.IH [OF p(2)] have two: "table_ok ps'" "set ps1 \<subseteq> set ps'"
    "snd ` set ps' \<subseteq> Provider ` set bs \<union> snd ` set ps1"
    "\<forall>b \<in> set bs. \<forall>spec \<in> set (Hosts b). spec_key spec \<in> Some ` fst ` set ps'"
    by blast+
  have "\<forall>spec \<in> set (Hosts b). spec_key spec \<in> Some ` fst ` set ps'"
    using one two(2) by (meson image_mono subsetD)
  moreover have "snd ` set ps' \<subseteq> Provider ` set (b # bs) \<union> snd ` set ps"
  proof -
    have "snd ` set ps1 \<subseteq> insert (Provider b) (snd ` set ps)" using one by blast
    with two(3) show ?thesis by (simp add: subset_iff) blast
  qed
  ultimately show ?case using one two by auto
qed auto

text \<open>The additive rule for the keys no rule declares: one endpoint per key, with its provider.\<close>

lemma merge_missing:
  assumes "table_ok qs" "(\<lambda>ep. ep_key ep) ` set eps \<inter> fst ` set qs = {}"
  shows "\<exists>new. merge_bindings (map (\<lambda>(k, v). \<lparr>Provider = v, Hosts = [k]\<rparr>) qs) eps = Inr (eps @ new) \<and>
    (\<forall>(k, v) \<in> set qs. \<exists>ep \<in> set new. ep_key ep = k \<and> CredentialBinding ep = Some v)"
  using assms
proof (induction qs arbitrary: eps)
  case (Cons q qs)
  obtain k v where q: "q = (k, v)" by fastforce
  obtain h p where sp: "splitHostSpec k = Inr (h, p)" "endpointKey h p = k"
    using Cons.prems(1) q by (auto simp: table_ok_def key_ok_def)
  let ?ep = "bound_endpoint h p v"
  have fresh: "k \<notin> set (map (\<lambda>ep. ep_key ep) eps)" using Cons.prems(2) q by auto
  have "table_ok qs" "(\<lambda>ep. ep_key ep) ` set (eps @ [?ep]) \<inter> fst ` set qs = {}"
    using Cons.prems q sp by (auto simp: table_ok_def)
  from Cons.IH [OF this] obtain new where
    new: "merge_bindings (map (\<lambda>(k, v). \<lparr>Provider = v, Hosts = [k]\<rparr>) qs) (eps @ [?ep]) = Inr ((eps @ [?ep]) @ new)"
    "\<forall>(k, v) \<in> set qs. \<exists>ep \<in> set new. ep_key ep = k \<and> CredentialBinding ep = Some v"
    by blast
  have "merge_hosts v [k] eps = Inr (eps @ [?ep])" using sp fresh by simp
  with new q sp show ?case by (intro exI [of _ "?ep # new"]) auto
qed simp


section \<open>Witnesses\<close>

definition demo_bindings :: "binding list" where
  "demo_bindings = [\<lparr>Provider = ''kape-ns-cr-gh'', Hosts = [''GitHub.com:443'', ''*.ghcr.io:443'']\<rparr>]"

definition demo_endpoint :: network_endpoint where
  "demo_endpoint = \<lparr>Host = ''github.com'', Port = 443, Ports = [], Protocol = [], Access = 0, Rules = [],
     AllowedIps = [], CredentialBinding = None\<rparr>"

definition demo_rule :: network_policy_rule where
  "demo_rule = \<lparr>Name = ''github-ssh-over-https'', Endpoints = [demo_endpoint], Binaries = [''/usr/bin/git'']\<rparr>"

definition demo_table :: "(string \<times> string) list" where
  "demo_table = [(''github.com:443'', ''kape-ns-cr-gh''), (''*.ghcr.io:443'', ''kape-ns-cr-gh'')]"

lemma demo_split:
  "splitHostSpec ''GitHub.com:443'' = Inr (''GitHub.com'', 443)"
  "splitHostSpec ''*.ghcr.io:443'' = Inr (''*.ghcr.io'', 443)"
  by code_simp+

lemma demo_keys:
  "endpointKey ''GitHub.com'' 443 = ''github.com:443''"
  "endpointKey ''github.com'' 443 = ''github.com:443''"
  "endpointKey ''*.ghcr.io'' 443 = ''*.ghcr.io:443''"
  by code_simp+

lemma demo_provider_table: "provider_table demo_bindings [] = Inr demo_table"
  by (simp add: demo_bindings_def demo_table_def demo_split demo_keys)

definition demo_merged :: network_policy_rule where
  "demo_merged = \<lparr>Name = ''github-ssh-over-https'',
     Endpoints = [demo_endpoint, bound_endpoint ''*.ghcr.io'' 443 ''kape-ns-cr-gh''],
     Binaries = [''/usr/bin/git'', ''/usr/bin/gh'', ''/usr/bin/pi'']\<rparr>"

lemma demo_merge: "MergePolicy (Some demo_rule) demo_bindings = Inr demo_merged"
  by (simp add: MergePolicy_def demo_bindings_def demo_rule_def demo_endpoint_def demo_merged_def
      credentialBinaryPaths_def demo_split demo_keys)

theorem MergePolicy_additive_witness:
  "MergePolicy (Some demo_rule) demo_bindings = Inr demo_merged \<and>
   take 1 (Endpoints demo_merged) = Endpoints demo_rule \<and>
   MergePolicy (Some demo_merged) demo_bindings = Inr demo_merged"
proof -
  have "demo_bindings \<noteq> []" "length (Endpoints demo_rule) = 1"
    by (simp_all add: demo_bindings_def demo_rule_def)
  with MergePolicy_additive [OF demo_merge] show ?thesis by (simp add: demo_merge)
qed

definition demo_policy :: sandbox_policy where
  "demo_policy = \<lparr>NetworkPolicies = [(''git'', demo_rule)]\<rparr>"

definition demo_stamped :: network_endpoint where
  "demo_stamped = demo_endpoint\<lparr>CredentialBinding := Some ''kape-ns-cr-gh'', Protocol := ''rest'', Rules := any_rest\<rparr>"

definition demo_policy_ops :: "add_rule list" where
  "demo_policy_ops =
     [(''git'', demo_rule\<lparr>Endpoints := [demo_stamped]\<rparr>),
      (CredentialBindingRuleName,
       \<lparr>Name = CredentialBindingRuleName, Endpoints = [bound_endpoint ''*.ghcr.io'' 443 ''kape-ns-cr-gh''],
        Binaries = credentialBinaryPaths\<rparr>)]"

lemma demo_stamp:
  "stamp_rules demo_table [(''git'', demo_rule)] = Inr ([(''git'', demo_rule\<lparr>Endpoints := [demo_stamped]\<rparr>)], [''github.com:443''])"
  by (simp add: demo_table_def demo_rule_def demo_endpoint_def demo_stamped_def demo_keys ensureL7_def)

lemma demo_CredentialPolicyOps: "CredentialPolicyOps (Some demo_policy) demo_bindings = Inr demo_policy_ops"
proof -
  have "demo_bindings \<noteq> []" by (simp add: demo_bindings_def)
  moreover have "missing_bindings demo_table [''github.com:443''] = [\<lparr>Provider = ''kape-ns-cr-gh'', Hosts = [''*.ghcr.io:443'']\<rparr>]"
    by (simp add: missing_bindings_def demo_table_def)
  ultimately show ?thesis
    by (simp add: CredentialPolicyOps_def demo_provider_table demo_stamp demo_policy_def sort_rules_def
        demo_policy_ops_def MergePolicy_def demo_split demo_keys credentialBinaryPaths_def
        del: stamp_rules.simps provider_table.simps)
qed


end
