(* ===== verification/Controller_Config.thy ===== *)
theory Controller_Config
  imports Credentials
begin

text \<open>
  The controller's configuration (\<open>controller/config.go\<close>): the create-profile with its
  validation, the resolution against the defaults, the configuration record with its
  compiled-in values, the \<open>KAPE_*\<close> environment overrides and the startup validation.

  The environment is a function from variable names to values, the empty string standing
  for an unset variable as for \<open>os.Getenv\<close>.  The two variables that hold JSON are given
  as the documents their texts denote (\<open>texts\<close>).  A validation error keeps the field it
  names; the human-readable reason is left out.
\<close>

section \<open>Profiles\<close>

datatype field_error = FieldError string

record resources =
  CPU :: string
  Memory :: string

definition digits_rx :: rx where
  "digits_rx = rplus (RClass [(CHR ''0'', CHR ''9'')])"

text \<open>\<open>[0-9]+(?:\.[0-9]+)?\<close>, the number of a quantity.\<close>

definition number_rx :: rx where
  "number_rx = RSeq digits_rx (ropt (RSeq (rstr ''.'') digits_rx))"

definition cpuQuantityRe :: rx where
  "cpuQuantityRe = RSeq number_rx (ropt (rstr ''m''))"

fun ralts :: "rx list \<Rightarrow> rx" where
  "ralts [] = REmpty"
| "ralts (r # rs) = RAlt r (ralts rs)"

definition memorySuffixes :: "string list" where
  "memorySuffixes = [''E'', ''P'', ''T'', ''G'', ''M'', ''K'', ''Ei'', ''Pi'', ''Ti'', ''Gi'', ''Mi'', ''Ki'']"

definition memoryQuantityRe :: rx where
  "memoryQuantityRe = RSeq number_rx (ropt (ralts (map rstr memorySuffixes)))"

text \<open>\<open>Resources.UnmarshalJSON\<close>\<close>

definition Resources_UnmarshalJSON :: "raw \<Rightarrow> field_error + resources" where
  "Resources_UnmarshalJSON data =
     (case unmarshal_strs [''cpu'', ''memory''] data of
        Some [c, m] \<Rightarrow> Inr \<lparr>CPU = c, Memory = m\<rparr>
      | _ \<Rightarrow> Inl (FieldError ''resources''))"

definition Resources_Validate :: "resources \<Rightarrow> field_error option" where
  "Resources_Validate r =
     (if \<not> MatchString cpuQuantityRe (CPU r) then Some (FieldError ''resources'')
      else if \<not> MatchString memoryQuantityRe (Memory r) then Some (FieldError ''resources'')
      else None)"

record create_profile =
  p_Name :: string
  p_Image :: string
  p_Resources :: "resources option"
  p_Model :: string
  p_ParentID :: string

definition empty_profile :: create_profile where
  "empty_profile = \<lparr>p_Name = [], p_Image = [], p_Resources = None, p_Model = [], p_ParentID = []\<rparr>"

definition lower_alnum :: "(char \<times> char) list" where
  "lower_alnum = [(CHR ''a'', CHR ''z''), (CHR ''0'', CHR ''9'')]"

text \<open>\<open>^[a-z0-9]([-a-z0-9]{0,61}[a-z0-9])?$\<close>\<close>

definition agentNameRe :: rx where
  "agentNameRe =
     RSeq (RClass lower_alnum)
       (ropt (RSeq (rupto 61 (RClass (chars ''-'' @ lower_alnum))) (RClass lower_alnum)))"

definition imageRefRe :: rx where
  "imageRefRe =
     RSeq (RClass alnum) (RSeq (RStar (RClass (alnum @ chars ''._-'')))
     (RSeq (ropt (RSeq (rstr '':'') digits_rx))
     (RSeq (RStar (RSeq (rstr ''/'') (rplus (RClass (alnum @ chars ''._/-'')))))
     (RSeq (ropt (RSeq (rstr '':'') (rplus (RClass (alnum @ chars ''._-'')))))
           (ropt (RSeq (rstr ''@sha256:'') (rrep 64 (RClass [(CHR ''a'', CHR ''f''), (CHR ''0'', CHR ''9'')]))))))))"

definition modelRe :: rx where
  "modelRe = rplus (RClass (alnum @ chars ''._:/-''))"

definition Profile_Validate :: "create_profile \<Rightarrow> field_error option" where
  "Profile_Validate p =
     (if p_Name p \<noteq> [] \<and> (length (p_Name p) > 19 \<or> \<not> MatchString agentNameRe (p_Name p))
      then Some (FieldError ''name'')
      else if p_Image p \<noteq> [] \<and>
        (list_ex (\<lambda>c. c \<in> set [CHR '' '', CHR 0x09, CHR 0x0A]) (p_Image p) \<or> \<not> MatchString imageRefRe (p_Image p))
      then Some (FieldError ''image'')
      else case (case p_Resources p of None \<Rightarrow> None | Some r \<Rightarrow> Resources_Validate r) of
        Some e \<Rightarrow> Some e
      | None \<Rightarrow>
          if p_Model p \<noteq> [] \<and> \<not> MatchString modelRe (p_Model p) then Some (FieldError ''model'')
          else if p_ParentID p \<noteq> [] \<and> \<not> MatchString providerRe (p_ParentID p)
          then Some (FieldError ''parent_id'')
          else None)"

record resolved_profile =
  r_Name :: string
  r_Image :: string
  r_Resources :: resources
  r_Provider :: string
  r_Model :: string

section \<open>The configuration record\<close>

definition TransportPull :: string where "TransportPull = ''pull''"

definition TransportExec :: string where "TransportExec = ''exec''"

text \<open>Durations are signed 64-bit counts of nanoseconds.\<close>

record monitor_config =
  Interval :: int
  SummarizerModel :: string
  ClassifierModel :: string
  BaseURL :: string
  APIKey :: string
  Timeout :: int

definition Monitor_Enabled :: "monitor_config \<Rightarrow> bool" where
  "Monitor_Enabled m = (APIKey m \<noteq> [])"

record config =
  GatewayAddr :: string
  CredsDir :: string
  ListenAddr :: string
  DefaultProvider :: string
  DefaultImage :: string
  DefaultModel :: string
  DefaultResources :: resources
  ModelGatewayURL :: string
  ServerDescription :: string
  EventStorePath :: string
  Transport :: string
  DaemonToken :: string
  DaemonCommand :: string
  DaemonPort :: string
  SandboxNamespace :: string
  SpawnMaxDepth :: int
  SpawnMaxChildren :: int
  ReviveMax :: int
  ReviveCooldown :: int
  ControllerServiceHost :: string
  ControllerServicePort :: int
  CredentialBindings :: "binding list"
  Monitor :: monitor_config

definition ResolveProfile :: "config \<Rightarrow> create_profile option \<Rightarrow> field_error + resolved_profile" where
  "ResolveProfile c mp =
     (let p = (case mp of None \<Rightarrow> empty_profile | Some p \<Rightarrow> p) in
      case Profile_Validate p of
        Some e \<Rightarrow> Inl e
      | None \<Rightarrow>
          (let r = \<lparr>r_Name = p_Name p,
                    r_Image = (if p_Image p = [] then DefaultImage c else p_Image p),
                    r_Resources = (case p_Resources p of None \<Rightarrow> DefaultResources c | Some rs \<Rightarrow> rs),
                    r_Provider = DefaultProvider c,
                    r_Model = (if p_Model p = [] then DefaultModel c else p_Model p)\<rparr>;
               resolved = \<lparr>p_Name = r_Name r, p_Image = r_Image r, p_Resources = Some (r_Resources r),
                           p_Model = r_Model r, p_ParentID = []\<rparr>
           in case Profile_Validate resolved of Some e \<Rightarrow> Inl e | None \<Rightarrow> Inr r))"

section \<open>Defaults and environment\<close>

type_synonym environ = "string \<Rightarrow> string"

definition DefaultConfig :: "environ \<Rightarrow> config" where
  "DefaultConfig env =
     \<lparr>GatewayAddr = ''127.0.0.1:32353'',
      CredsDir = env ''HOME'' @ ''/.config/openshell/gateways/k8s/mtls'',
      ListenAddr = '':8081'',
      DefaultProvider = ''openrouter-spike'',
      DefaultImage = ''ghcr.io/dzungtr/pi-openshell:openrouter'',
      DefaultModel = [],
      DefaultResources = \<lparr>CPU = ''1'', Memory = ''2Gi''\<rparr>,
      ModelGatewayURL = [],
      ServerDescription = [],
      EventStorePath = ''controller-events.db'',
      Transport = TransportPull,
      DaemonToken = [],
      DaemonCommand = ''kape-daemon'',
      DaemonPort = ''9090'',
      SandboxNamespace = ''openshell'',
      SpawnMaxDepth = 2,
      SpawnMaxChildren = 8,
      ReviveMax = 3,
      ReviveCooldown = 60 * second,
      ControllerServiceHost = ''kape-controller.openshell.svc.cluster.local'',
      ControllerServicePort = 8081,
      CredentialBindings = [],
      Monitor = \<lparr>Interval = 60 * second,
                 SummarizerModel = ''~deepseek/deepseek-v4-flash-latest'',
                 ClassifierModel = ''scaledown/classify-1'',
                 BaseURL = ''https://openrouter.ai/api/v1'',
                 APIKey = [],
                 Timeout = 5 * second\<rparr>\<rparr>"

text \<open>\<open>MalformedResources\<close> is the panic; the others are returned errors.\<close>

datatype config_error = MalformedResources | NotANumber string | BindingTable cred_error

definition env_str :: "environ \<Rightarrow> string \<Rightarrow> (string \<Rightarrow> config \<Rightarrow> config) \<Rightarrow> config \<Rightarrow> config" where
  "env_str env k f c = (if env k = [] then c else f (env k) c)"

definition env_int ::
    "environ \<Rightarrow> string \<Rightarrow> (int \<Rightarrow> bool) \<Rightarrow> (int \<Rightarrow> config \<Rightarrow> config) \<Rightarrow> config \<Rightarrow> config_error + config" where
  "env_int env k ok f c =
     (if env k = [] then Inr c
      else case Atoi (env k) of
        None \<Rightarrow> Inl (NotANumber k)
      | Some n \<Rightarrow> if ok n then Inr (f n c) else Inl (NotANumber k))"

definition env_resources :: "environ \<Rightarrow> (string \<Rightarrow> raw) \<Rightarrow> config \<Rightarrow> config_error + config" where
  "env_resources env texts c =
     (if env ''KAPE_DEFAULT_RESOURCES'' = [] then Inr c
      else case Resources_UnmarshalJSON (texts (env ''KAPE_DEFAULT_RESOURCES'')) of
        Inl e \<Rightarrow> Inl MalformedResources
      | Inr r \<Rightarrow> Inr (c\<lparr>DefaultResources := r\<rparr>))"

definition env_bindings :: "environ \<Rightarrow> (string \<Rightarrow> env_text) \<Rightarrow> config \<Rightarrow> config_error + config" where
  "env_bindings env table c =
     (if env ''KAPE_CREDENTIAL_BINDINGS'' = [] then Inr c
      else case ParseBindings (table (env ''KAPE_CREDENTIAL_BINDINGS'')) of
        Inl e \<Rightarrow> Inl (BindingTable e)
      | Inr bs \<Rightarrow> Inr (c\<lparr>CredentialBindings := bs\<rparr>))"

text \<open>\<open>time.Duration(n) * time.Second\<close>\<close>

definition seconds :: "int \<Rightarrow> int" where
  "seconds n = wrap64 (n * second)"

fun apply_all :: "(config \<Rightarrow> config_error + config) list \<Rightarrow> config \<Rightarrow> config_error + config" where
  "apply_all [] c = Inr c"
| "apply_all (f # fs) c = (case f c of Inl e \<Rightarrow> Inl e | Inr c' \<Rightarrow> apply_all fs c')"

definition upd_monitor :: "(monitor_config \<Rightarrow> monitor_config) \<Rightarrow> config \<Rightarrow> config" where
  "upd_monitor f c = c\<lparr>Monitor := f (Monitor c)\<rparr>"

definition env_steps ::
    "environ \<Rightarrow> (string \<Rightarrow> raw) \<Rightarrow> (string \<Rightarrow> env_text) \<Rightarrow> (config \<Rightarrow> config_error + config) list" where
  "env_steps env texts table =
    (let str = (\<lambda>k f. \<lambda>c. Inr (env_str env k f c)) in
     [str ''KAPE_GATEWAY_ADDR'' (\<lambda>v c. c\<lparr>GatewayAddr := v\<rparr>),
      str ''KAPE_CREDS_DIR'' (\<lambda>v c. c\<lparr>CredsDir := v\<rparr>),
      str ''KAPE_LISTEN_ADDR'' (\<lambda>v c. c\<lparr>ListenAddr := v\<rparr>),
      str ''KAPE_DEFAULT_PROVIDER'' (\<lambda>v c. c\<lparr>DefaultProvider := v\<rparr>),
      str ''KAPE_DEFAULT_IMAGE'' (\<lambda>v c. c\<lparr>DefaultImage := v\<rparr>),
      env_resources env texts,
      str ''KAPE_DEFAULT_MODEL'' (\<lambda>v c. c\<lparr>DefaultModel := v\<rparr>),
      str ''KAPE_SERVER_DESCRIPTION'' (\<lambda>v c. c\<lparr>ServerDescription := v\<rparr>),
      str ''KAPE_MODEL_GATEWAY_URL'' (\<lambda>v c. c\<lparr>ModelGatewayURL := v\<rparr>),
      str ''KAPE_EVENT_STORE'' (\<lambda>v c. c\<lparr>EventStorePath := v\<rparr>),
      str ''KAPE_TRANSPORT'' (\<lambda>v c. c\<lparr>Transport := v\<rparr>),
      str ''KAPE_DAEMON_PORT'' (\<lambda>v c. c\<lparr>DaemonPort := v\<rparr>),
      str ''KAPE_SANDBOX_NAMESPACE'' (\<lambda>v c. c\<lparr>SandboxNamespace := v\<rparr>),
      str ''KAPE_CONTROLLER_SERVICE_HOST'' (\<lambda>v c. c\<lparr>ControllerServiceHost := v\<rparr>),
      env_int env ''KAPE_CONTROLLER_SERVICE_PORT'' (\<lambda>n. True) (\<lambda>n c. c\<lparr>ControllerServicePort := n\<rparr>),
      env_bindings env table,
      str ''KAPE_DAEMON_TOKEN'' (\<lambda>v c. c\<lparr>DaemonToken := v\<rparr>),
      str ''KAPE_DAEMON_COMMAND'' (\<lambda>v c. c\<lparr>DaemonCommand := v\<rparr>),
      env_int env ''KAPE_SPAWN_MAX_DEPTH'' (\<lambda>n. n \<ge> 0) (\<lambda>n c. c\<lparr>SpawnMaxDepth := n\<rparr>),
      env_int env ''KAPE_SPAWN_MAX_CHILDREN'' (\<lambda>n. n \<ge> 1) (\<lambda>n c. c\<lparr>SpawnMaxChildren := n\<rparr>),
      env_int env ''KAPE_REVIVE_MAX'' (\<lambda>n. n \<ge> 0) (\<lambda>n c. c\<lparr>ReviveMax := n\<rparr>),
      env_int env ''KAPE_REVIVE_COOLDOWN'' (\<lambda>n. n \<ge> 0) (\<lambda>n c. c\<lparr>ReviveCooldown := seconds n\<rparr>),
      env_int env ''KAPE_MONITOR_INTERVAL_SECONDS'' (\<lambda>n. n \<ge> 1)
        (\<lambda>n. upd_monitor (\<lambda>m. m\<lparr>Interval := seconds n\<rparr>)),
      str ''KAPE_MONITOR_SUMMARIZER_MODEL'' (\<lambda>v. upd_monitor (\<lambda>m. m\<lparr>SummarizerModel := v\<rparr>)),
      str ''KAPE_MONITOR_CLASSIFIER_MODEL'' (\<lambda>v. upd_monitor (\<lambda>m. m\<lparr>ClassifierModel := v\<rparr>)),
      str ''KAPE_MONITOR_BASE_URL'' (\<lambda>v. upd_monitor (\<lambda>m. m\<lparr>BaseURL := v\<rparr>)),
      str ''KAPE_MONITOR_OPENROUTER_API_KEY'' (\<lambda>v. upd_monitor (\<lambda>m. m\<lparr>APIKey := v\<rparr>)),
      env_int env ''KAPE_MONITOR_TIMEOUT_SECONDS'' (\<lambda>n. n \<ge> 1)
        (\<lambda>n. upd_monitor (\<lambda>m. m\<lparr>Timeout := seconds n\<rparr>))])"

definition envConfig ::
    "environ \<Rightarrow> (string \<Rightarrow> raw) \<Rightarrow> (string \<Rightarrow> env_text) \<Rightarrow> config \<Rightarrow> config_error + config" where
  "envConfig env texts table def = apply_all (env_steps env texts table) def"

definition ConfigFromEnv ::
    "environ \<Rightarrow> (string \<Rightarrow> raw) \<Rightarrow> (string \<Rightarrow> env_text) \<Rightarrow> config_error + config" where
  "ConfigFromEnv env texts table = envConfig env texts table (DefaultConfig env)"

definition DaemonCommandArgv :: "config \<Rightarrow> string list" where
  "DaemonCommandArgv c = (if DaemonCommand c = [] then [] else Fields (DaemonCommand c))"

section \<open>Startup validation\<close>

definition transport_Validate :: "config \<Rightarrow> field_error option" where
  "transport_Validate c =
     (if Transport c = TransportPull then
        (if (case Atoi (DaemonPort c) of None \<Rightarrow> True | Some port \<Rightarrow> port < 1 \<or> port > 65535)
         then Some (FieldError ''daemon-port'')
         else if SandboxNamespace c = [] then Some (FieldError ''sandbox-namespace'')
         else if ControllerServiceHost c = [] then Some (FieldError ''controller-service-host'')
         else if ControllerServicePort c < 1 \<or> ControllerServicePort c > 65535
         then Some (FieldError ''controller-service-port'')
         else None)
      else if Transport c = TransportExec then None
      else Some (FieldError ''transport''))"

definition Config_Validate :: "config \<Rightarrow> field_error option" where
  "Config_Validate c =
     (if DefaultProvider c = [] \<or> \<not> MatchString providerRe (DefaultProvider c)
      then Some (FieldError ''provider'')
      else case Profile_Validate (empty_profile\<lparr>p_Image := DefaultImage c, p_Resources := Some (DefaultResources c)\<rparr>) of
        Some e \<Rightarrow> Some e
      | None \<Rightarrow>
          if ModelGatewayURL c = [] then Some (FieldError ''model-gateway-url'')
          else if \<not> has_prefix (ModelGatewayURL c) ''http'' then Some (FieldError ''model-gateway-url'')
          else if GatewayAddr c = [] \<or> ListenAddr c = [] then Some (FieldError ''config'')
          else if EventStorePath c = [] then Some (FieldError ''event-store'')
          else if Monitor_Enabled (Monitor c) \<and>
            (BaseURL (Monitor c) = [] \<or> \<not> has_prefix (BaseURL (Monitor c)) ''http'')
          then Some (FieldError ''monitor-base-url'')
          else if Monitor_Enabled (Monitor c) \<and> (Interval (Monitor c) \<le> 0 \<or> Timeout (Monitor c) \<le> 0)
          then Some (FieldError ''monitor'')
          else transport_Validate c)"


section \<open>Names\<close>

lemma lang_class_snoc:
  "w \<in> lang (RSeq r (RClass cs)) \<longleftrightarrow> (\<exists>v c. w = v @ [c] \<and> v \<in> lang r \<and> in_class cs c)"
  by auto

lemma in_class_append [simp]: "in_class (as @ bs) c \<longleftrightarrow> in_class as c \<or> in_class bs c"
  by (simp add: in_class_def)

lemma agentNameRe_iff:
  "MatchString agentNameRe s \<longleftrightarrow>
     s \<noteq> [] \<and> length s \<le> 63 \<and> in_class lower_alnum (hd s) \<and> in_class lower_alnum (last s) \<and>
     list_all (in_class (chars ''-'' @ lower_alnum)) s"
proof (cases s)
  case Nil
  then show ?thesis by (simp add: MatchString_lang agentNameRe_def lang_class_seq del: lang.simps(4))
next
  case (Cons c w)
  have "MatchString agentNameRe s \<longleftrightarrow> in_class lower_alnum c \<and>
      (w = [] \<or> (\<exists>v d. w = v @ [d] \<and> length v \<le> 61 \<and> list_all (in_class (chars ''-'' @ lower_alnum)) v \<and>
         in_class lower_alnum d))"
    unfolding MatchString_lang agentNameRe_def Cons lang_class_seq
    by (auto simp: ropt_def lang_class_snoc lang_rupto_class simp del: lang.simps(4) rupto.simps)
  also have "\<dots> \<longleftrightarrow> s \<noteq> [] \<and> length s \<le> 63 \<and> in_class lower_alnum (hd s) \<and> in_class lower_alnum (last s) \<and>
     list_all (in_class (chars ''-'' @ lower_alnum)) s"
  proof (cases w rule: rev_cases)
    case (snoc v d)
    then show ?thesis by (auto simp: Cons)
  qed (auto simp: Cons)
  finally show ?thesis .
qed

section \<open>Resolution\<close>

lemma Profile_Validate_None:
  "Profile_Validate p = None \<longleftrightarrow>
     (p_Name p = [] \<or> length (p_Name p) \<le> 19 \<and> MatchString agentNameRe (p_Name p)) \<and>
     (p_Image p = [] \<or> \<not> list_ex (\<lambda>c. c \<in> set [CHR '' '', CHR 0x09, CHR 0x0A]) (p_Image p) \<and>
        MatchString imageRefRe (p_Image p)) \<and>
     (\<forall>r. p_Resources p = Some r \<longrightarrow> Resources_Validate r = None) \<and>
     (p_Model p = [] \<or> MatchString modelRe (p_Model p)) \<and>
     (p_ParentID p = [] \<or> MatchString providerRe (p_ParentID p))"
  by (auto simp: Profile_Validate_def not_less split: option.splits)

lemma Profile_Validate_model:
  assumes "Profile_Validate (p\<lparr>p_Model := []\<rparr>) = None" "p_Model p \<noteq> []" "\<not> MatchString modelRe (p_Model p)"
  shows "Profile_Validate p = Some (FieldError ''model'')"
proof -
  have "(case p_Resources p of None \<Rightarrow> None | Some r \<Rightarrow> Resources_Validate r) = None"
    using assms(1) unfolding Profile_Validate_None by (auto split: option.split)
  with assms show ?thesis unfolding Profile_Validate_None by (auto simp: Profile_Validate_def)
qed

text \<open>The overrides a resolved profile hands on, as \<open>inheritProfile\<close> does for a child.\<close>

definition profile_of :: "resolved_profile \<Rightarrow> create_profile" where
  "profile_of r = \<lparr>p_Name = [], p_Image = r_Image r, p_Resources = Some (r_Resources r),
                   p_Model = r_Model r, p_ParentID = []\<rparr>"

text \<open>C23: a resolved profile.  When resolution succeeds, every field the caller supplied is the
  caller's, every other field is the configured default, and the provider is always the
  configured one; a name is a lower-case DNS label of at most 19 characters that starts and
  ends with a letter or digit, the quantities are well-formed, and resolving the inherited
  image, resources and model again succeeds and gives the same values.\<close>

theorem ResolveProfile_sound:
  assumes res: "ResolveProfile c (Some p) = Inr r"
  shows "r_Provider r = DefaultProvider c \<and> r_Name r = p_Name p \<and>
    r_Image r = (if p_Image p = [] then DefaultImage c else p_Image p) \<and>
    r_Model r = (if p_Model p = [] then DefaultModel c else p_Model p) \<and>
    r_Resources r = (case p_Resources p of None \<Rightarrow> DefaultResources c | Some rs \<Rightarrow> rs) \<and>
    (r_Name r = [] \<or> length (r_Name r) \<le> 19 \<and> in_class lower_alnum (hd (r_Name r)) \<and>
       in_class lower_alnum (last (r_Name r)) \<and>
       list_all (in_class (chars ''-'' @ lower_alnum)) (r_Name r)) \<and>
    MatchString cpuQuantityRe (CPU (r_Resources r)) \<and> MatchString memoryQuantityRe (Memory (r_Resources r)) \<and>
    ResolveProfile c (Some (profile_of r)) = Inr (r\<lparr>r_Name := []\<rparr>)"
proof -
  have r: "r = \<lparr>r_Name = p_Name p, r_Image = (if p_Image p = [] then DefaultImage c else p_Image p),
      r_Resources = (case p_Resources p of None \<Rightarrow> DefaultResources c | Some rs \<Rightarrow> rs),
      r_Provider = DefaultProvider c, r_Model = (if p_Model p = [] then DefaultModel c else p_Model p)\<rparr>"
    and v: "Profile_Validate \<lparr>p_Name = r_Name r, p_Image = r_Image r, p_Resources = Some (r_Resources r),
        p_Model = r_Model r, p_ParentID = []\<rparr> = None"
    using res by (auto simp: ResolveProfile_def Let_def split: option.splits)
  from v have q: "MatchString cpuQuantityRe (CPU (r_Resources r))" "MatchString memoryQuantityRe (Memory (r_Resources r))"
    by (auto simp: Profile_Validate_None Resources_Validate_def split: if_splits)
  from v have n: "r_Name r = [] \<or> length (r_Name r) \<le> 19 \<and> in_class lower_alnum (hd (r_Name r)) \<and>
       in_class lower_alnum (last (r_Name r)) \<and> list_all (in_class (chars ''-'' @ lower_alnum)) (r_Name r)"
    by (auto simp: Profile_Validate_None agentNameRe_iff)
  from v have "Profile_Validate (profile_of r) = None"
    by (auto simp: Profile_Validate_None profile_of_def)
  moreover have "r_Image r = [] \<longrightarrow> DefaultImage c = []" "r_Model r = [] \<longrightarrow> DefaultModel c = []"
    "DefaultProvider c = r_Provider r"
    by (simp_all add: r)
  ultimately have "ResolveProfile c (Some (profile_of r)) = Inr (r\<lparr>r_Name := []\<rparr>)"
    by (auto simp: ResolveProfile_def Let_def profile_of_def)
  with q n show ?thesis by (simp add: r)
qed

text \<open>The default model is not checked at startup.  A configuration that passes the
  startup validation passes it with any other default model; when its default model is not a
  model id, every valid create request that names no model is refused with the field \<open>model\<close>.\<close>

theorem default_model_unchecked:
  assumes valid: "Config_Validate c = None"
    and bad: "DefaultModel c \<noteq> []" "\<not> MatchString modelRe (DefaultModel c)"
    and p: "Profile_Validate p = None" "p_Model p = []"
  shows "Config_Validate (c\<lparr>DefaultModel := m\<rparr>) = None \<and>
    ResolveProfile c (Some p) = Inl (FieldError ''model'')"
proof
  have t: "transport_Validate (c\<lparr>DefaultModel := m\<rparr>) = transport_Validate c"
    by (simp add: transport_Validate_def)
  have "Config_Validate (c\<lparr>DefaultModel := m\<rparr>) = Config_Validate c"
    unfolding Config_Validate_def t by (simp split del: if_split cong: if_cong option.case_cong)
  with valid show "Config_Validate (c\<lparr>DefaultModel := m\<rparr>) = None" by simp
  have d: "Profile_Validate (empty_profile\<lparr>p_Image := DefaultImage c, p_Resources := Some (DefaultResources c)\<rparr>) = None"
    using valid by (auto simp: Config_Validate_def split: if_splits option.splits)
  let ?r = "\<lparr>p_Name = p_Name p, p_Image = (if p_Image p = [] then DefaultImage c else p_Image p),
    p_Resources = Some (case p_Resources p of None \<Rightarrow> DefaultResources c | Some rs \<Rightarrow> rs),
    p_Model = DefaultModel c, p_ParentID = []\<rparr>"
  have "Profile_Validate (?r\<lparr>p_Model := []\<rparr>) = None"
    using p(1) d unfolding Profile_Validate_None by (auto simp: empty_profile_def split: option.splits)
  from Profile_Validate_model [OF this] bad have "Profile_Validate ?r = Some (FieldError ''model'')" by simp
  then show "ResolveProfile c (Some p) = Inl (FieldError ''model'')"
    using p by (simp add: ResolveProfile_def Let_def)
qed

text \<open>A deployment with the mandatory gateway address and a default model with a space.\<close>

definition demo_env :: environ where
  "demo_env k = (if k = ''KAPE_MODEL_GATEWAY_URL'' then ''http://gw'' else if k = ''KAPE_DEFAULT_MODEL'' then ''glm 5''
                 else [])"

definition no_docs :: "string \<Rightarrow> raw" where "no_docs s = RawBad s"

definition no_table :: "string \<Rightarrow> env_text" where "no_table s = EnvMalformed"

definition demo_config :: config where
  "demo_config = (DefaultConfig demo_env)\<lparr>ModelGatewayURL := ''http://gw'', DefaultModel := ''glm 5''\<rparr>"

lemma demo_ConfigFromEnv: "ConfigFromEnv demo_env no_docs no_table = Inr demo_config"
  by (simp add: ConfigFromEnv_def envConfig_def env_steps_def env_str_def env_int_def env_resources_def
      env_bindings_def demo_env_def demo_config_def Let_def)

lemma demo_config_valid: "Config_Validate demo_config = None"
  by code_simp

definition demo_profile :: create_profile where
  "demo_profile = empty_profile\<lparr>p_Name := ''agent-1'', p_Resources := Some \<lparr>CPU = ''500m'', Memory = ''1Gi''\<rparr>\<rparr>"

lemma demo_profile_valid: "Profile_Validate demo_profile = None" "\<not> MatchString modelRe ''glm 5''"
  by code_simp+

theorem default_model_unchecked_witness:
  "Config_Validate demo_config = None \<and> ResolveProfile demo_config (Some demo_profile) = Inl (FieldError ''model'')"
proof -
  have "DefaultModel demo_config = ''glm 5''" "p_Model demo_profile = []"
    by (simp_all add: demo_config_def demo_profile_def empty_profile_def)
  with default_model_unchecked [OF demo_config_valid, of demo_profile] demo_profile_valid
  show ?thesis by (simp add: demo_config_valid)
qed

definition demo_resolved :: resolved_profile where
  "demo_resolved = \<lparr>r_Name = ''agent-1'', r_Image = ''ghcr.io/dzungtr/pi-openshell:openrouter'',
     r_Resources = \<lparr>CPU = ''500m'', Memory = ''1Gi''\<rparr>, r_Provider = ''openrouter-spike'', r_Model = []\<rparr>"

lemma demo_resolves: "ResolveProfile (DefaultConfig demo_env) (Some demo_profile) = Inr demo_resolved"
  by code_simp

theorem ResolveProfile_sound_witness:
  "ResolveProfile (DefaultConfig demo_env) (Some demo_profile) = Inr demo_resolved \<and>
   ResolveProfile (DefaultConfig demo_env) (Some (profile_of demo_resolved)) = Inr (demo_resolved\<lparr>r_Name := []\<rparr>)"
  using ResolveProfile_sound [OF demo_resolves] demo_resolves by blast


section \<open>Environment overrides\<close>

text \<open>A step that leaves a field as it is.\<close>

definition keeps :: "(config \<Rightarrow> 'a) \<Rightarrow> (config \<Rightarrow> config_error + config) \<Rightarrow> bool" where
  "keeps g f \<longleftrightarrow> (\<forall>d d'. f d = Inr d' \<longrightarrow> g d' = g d)"

lemma keeps_str: "(\<And>v d. g (f v d) = g d) \<Longrightarrow> keeps g (\<lambda>c. Inr (env_str env k f c))"
  by (simp add: keeps_def env_str_def)

lemma keeps_int: "(\<And>n d. g (f n d) = g d) \<Longrightarrow> keeps g (env_int env k ok f)"
  by (auto simp: keeps_def env_int_def split: if_splits option.splits)

lemma keeps_resources: "(\<And>r d. g (d\<lparr>DefaultResources := r\<rparr>) = g d) \<Longrightarrow> keeps g (env_resources env texts)"
  by (auto simp: keeps_def env_resources_def split: if_splits sum.splits)

lemma keeps_bindings: "(\<And>r d. g (d\<lparr>CredentialBindings := r\<rparr>) = g d) \<Longrightarrow> keeps g (env_bindings env table)"
  by (auto simp: keeps_def env_bindings_def split: if_splits sum.splits)

lemmas keeps_step = keeps_str keeps_int keeps_resources keeps_bindings

lemma apply_all_append:
  "apply_all (fs @ gs) c = (case apply_all fs c of Inl e \<Rightarrow> Inl e | Inr c' \<Rightarrow> apply_all gs c')"
  by (induction fs arbitrary: c) (auto split: sum.split)

lemma apply_all_keeps: "list_all (keeps g) fs \<Longrightarrow> apply_all fs c = Inr c' \<Longrightarrow> g c' = g c"
  by (induction fs arbitrary: c) (auto simp: keeps_def split: sum.splits)

text \<open>A field that only the \<open>i\<close>-th step sets.\<close>

lemma apply_all_sets:
  assumes "apply_all fs c = Inr c'" "i < length fs"
    and keep: "list_all (keeps g) (take i fs)" "list_all (keeps g) (drop (Suc i) fs)"
  shows "\<exists>d d'. (fs ! i) d = Inr d' \<and> g d = g c \<and> g c' = g d'"
proof -
  have "fs = take i fs @ fs ! i # drop (Suc i) fs" using assms(2) by (rule id_take_nth_drop)
  with assms(1) have "apply_all (take i fs @ fs ! i # drop (Suc i) fs) c = Inr c'" by simp
  then obtain d d' where d: "apply_all (take i fs) c = Inr d" "(fs ! i) d = Inr d'"
      "apply_all (drop (Suc i) fs) d' = Inr c'"
    by (auto simp: apply_all_append split: sum.splits)
  show ?thesis
    using d(2) apply_all_keeps [OF keep(1) d(1)] apply_all_keeps [OF keep(2) d(3)] by blast
qed

lemma envConfig_ReviveCooldown:
  assumes "envConfig env texts table c = Inr c'"
  shows "ReviveCooldown c' =
    (if env ''KAPE_REVIVE_COOLDOWN'' = [] then ReviveCooldown c
     else seconds (the (Atoi (env ''KAPE_REVIVE_COOLDOWN''))))"
proof -
  let ?fs = "env_steps env texts table"
  have "list_all (keeps ReviveCooldown) (take 21 ?fs)" "list_all (keeps ReviveCooldown) (drop (Suc 21) ?fs)"
    "21 < length ?fs"
    by (simp_all add: env_steps_def keeps_step upd_monitor_def)
  from apply_all_sets [OF assms [unfolded envConfig_def] this(3) this(1,2)]
  show ?thesis by (auto simp: env_steps_def env_int_def split: if_splits option.splits)
qed

lemma envConfig_DaemonCommand:
  assumes "envConfig env texts table c = Inr c'"
  shows "DaemonCommand c' = (if env ''KAPE_DAEMON_COMMAND'' = [] then DaemonCommand c else env ''KAPE_DAEMON_COMMAND'')"
proof -
  let ?fs = "env_steps env texts table"
  have "list_all (keeps DaemonCommand) (take 17 ?fs)" "list_all (keeps DaemonCommand) (drop (Suc 17) ?fs)"
    "17 < length ?fs"
    by (simp_all add: env_steps_def keeps_step upd_monitor_def)
  from apply_all_sets [OF assms [unfolded envConfig_def] this(3) this(1,2)]
  show ?thesis by (auto simp: env_steps_def env_str_def split: if_splits)
qed

lemma seconds_small: "0 \<le> n \<Longrightarrow> n \<le> 9223372036 \<Longrightarrow> seconds n = n * second"
  unfolding seconds_def by (rule wrap64_id) (simp_all add: min_i64_def max_i64_def second_def)

lemma seconds_wrapped:
  assumes "9223372036 < n" "n \<le> 18446744073"
  shows "seconds n < 0"
proof -
  have "(n * second + 2 ^ 63) mod 2 ^ 64 = (n * second + 2 ^ 63 - 2 ^ 64) mod 2 ^ 64"
    by (metis minus_mod_self2)
  also have "\<dots> = n * second + 2 ^ 63 - 2 ^ 64"
    using assms by (intro mod_pos_pos_trivial) (simp_all add: second_def)
  finally show ?thesis using assms by (simp add: seconds_def wrap64_def second_def)
qed


definition cooldown_env :: environ where
  "cooldown_env k = (if k = ''KAPE_REVIVE_COOLDOWN'' then dec_string 9223372037 else [])"

definition cooldown_config :: config where
  "cooldown_config = (DefaultConfig cooldown_env)\<lparr>ReviveCooldown := - 9223372036709551616\<rparr>"

lemma cooldown_ConfigFromEnv: "envConfig cooldown_env no_docs no_table (DefaultConfig cooldown_env) = Inr cooldown_config"
proof -
  have a: "Atoi (dec_string 9223372037) = Some (int 9223372037)"
    by (intro Atoi_dec_string) (simp add: max_i64_def)
  show ?thesis
    by (simp add: envConfig_def env_steps_def env_str_def env_int_def env_resources_def env_bindings_def
        cooldown_env_def cooldown_config_def a seconds_def wrap64_def second_def)
qed


text \<open>An empty \<open>KAPE_DAEMON_COMMAND\<close> does not disable the canonical main process: with the
  variable empty or unset, every environment that resolves yields the compiled-in argv.\<close>

lemma daemon_command_not_disabled:
  assumes "ConfigFromEnv env texts table = Inr c" "env ''KAPE_DAEMON_COMMAND'' = []"
  shows "DaemonCommandArgv c = [''kape-daemon'']"
proof -
  have "DaemonCommand c = ''kape-daemon''"
    using envConfig_DaemonCommand [OF assms(1) [unfolded ConfigFromEnv_def]] assms(2) by (simp add: DefaultConfig_def)
  moreover have "Fields ''kape-daemon'' = [''kape-daemon'']" by code_simp
  ultimately show ?thesis by (simp add: DaemonCommandArgv_def)
qed

lemma daemon_command_not_disabled_witness: "DaemonCommandArgv demo_config = [''kape-daemon'']"
  using daemon_command_not_disabled [OF demo_ConfigFromEnv] by (simp add: demo_env_def)

end
