(* ===== verification/Go_Time.thy ===== *)
theory Go_Time
  imports Go_Lib
begin

text \<open>
  Instants of Go's \<open>time\<close> package and their RFC 3339 texts.  An instant is its distance in
  nanoseconds from the zero \<open>time.Time\<close> (1 January of year 1, UTC), so that \<open>t.IsZero()\<close>
  is \<open>t = 0\<close>; \<open>Format_RFC3339Nano\<close> is \<open>t.UTC().Format(time.RFC3339Nano)\<close> and
  \<open>Parse_RFC3339Nano\<close> is \<open>time.Parse(time.RFC3339Nano, s)\<close>.
\<close>

type_synonym go_time = int

section \<open>The calendar\<close>

text \<open>Years are counted from 0 for the year 1: \<open>days_before z\<close> is the number of days before
  the year \<open>z + 1\<close>.\<close>

definition leap :: "int \<Rightarrow> bool" where
  "leap y \<longleftrightarrow> y mod 4 = 0 \<and> (y mod 100 \<noteq> 0 \<or> y mod 400 = 0)"

definition days_before :: "int \<Rightarrow> int" where
  "days_before z = 365 * z + z div 4 - z div 100 + z div 400"

text \<open>The average length of a year gives the year of a day up to one.\<close>

definition year_index :: "int \<Rightarrow> int" where
  "year_index d =
     (let z = 400 * d div 146097
      in if d < days_before z then z - 1 else if days_before (z + 1) \<le> d then z + 1 else z)"

definition month_lengths :: "int \<Rightarrow> nat list" where
  "month_lengths y = [31, if leap y then 29 else 28, 31, 30, 31, 30, 31, 31, 30, 31, 30, 31]"

text \<open>Month and day, both from 1, of a day of the year, from 0.\<close>

fun month_day :: "nat list \<Rightarrow> nat \<Rightarrow> nat \<times> nat" where
  "month_day [] d = (1, d + 1)"
| "month_day (l # ls) d = (if d < l then (1, d + 1) else (case month_day ls (d - l) of (m, k) \<Rightarrow> (m + 1, k)))"

section \<open>Texts\<close>

text \<open>Decimal numbers of a fixed width, and the fractional second with its trailing zeros
  removed.\<close>

fun pad :: "nat \<Rightarrow> nat \<Rightarrow> string" where
  "pad 0 n = []"
| "pad (Suc k) n = pad k (n div 10) @ [char_of (48 + n mod 10)]"

definition format_frac :: "nat \<Rightarrow> string" where
  "format_frac ns =
     (let ds = rev (dropWhile (\<lambda>c. c = CHR ''0'') (rev (pad 9 ns)))
      in if ds = [] then [] else CHR ''.'' # ds)"

definition format_year :: "int \<Rightarrow> string" where
  "format_year y =
     (let n = nat \<bar>y\<bar>; ds = (if n < 10000 then pad 4 n else dec_string n)
      in if y < 0 then CHR ''-'' # ds else ds)"

definition Format_RFC3339Nano :: "go_time \<Rightarrow> string" where
  "Format_RFC3339Nano t =
     (let secs = t div second; ns = nat (t mod second);
          d = secs div 86400; s = nat (secs mod 86400);
          z = year_index d;
          (m, k) = month_day (month_lengths (z + 1)) (nat (d - days_before z))
      in format_year (z + 1) @ ''-'' @ pad 2 m @ ''-'' @ pad 2 k @ ''T'' @
         pad 2 (s div 3600) @ '':'' @ pad 2 (s div 60 mod 60) @ '':'' @ pad 2 (s mod 60) @
         format_frac ns @ ''Z'')"

text \<open>The parser: a number of \<open>k\<close> digits, one literal byte, the hour with one or two digits,
  an optional fraction after a point or a comma of which nine digits count, and the zone,
  \<open>Z\<close> or an offset.\<close>

definition getnum :: "nat \<Rightarrow> string \<Rightarrow> (nat \<times> string) option" where
  "getnum k s =
     (if length s < k \<or> \<not> list_all is_digit (take k s) then None
      else Some (dec_val (take k s), drop k s))"

definition literal :: "char \<Rightarrow> string \<Rightarrow> string option" where
  "literal c s = (case s of [] \<Rightarrow> None | x # xs \<Rightarrow> if x = c then Some xs else None)"

definition get_hour :: "string \<Rightarrow> (nat \<times> string) option" where
  "get_hour s = (case getnum 2 s of None \<Rightarrow> getnum 1 s | Some r \<Rightarrow> Some r)"

definition get_frac :: "string \<Rightarrow> nat \<times> string" where
  "get_frac s =
     (case s of
        c # x # xs \<Rightarrow>
          if (c = CHR ''.'' \<or> c = CHR '','') \<and> is_digit x then
            (let ds = take 9 (takeWhile is_digit (x # xs))
             in (dec_val ds * 10 ^ (9 - length ds), dropWhile is_digit (x # xs)))
          else (0, s)
      | _ \<Rightarrow> (0, s))"

definition get_zone :: "string \<Rightarrow> int option" where
  "get_zone s =
     (if s = ''Z'' then Some 0
      else case s of
        [] \<Rightarrow> None
      | sg # s1 \<Rightarrow>
          if sg \<noteq> CHR ''+'' \<and> sg \<noteq> CHR ''-'' then None
          else Option.bind (getnum 2 s1) (\<lambda>(h, s2).
               Option.bind (literal CHR '':'' s2) (\<lambda>s3.
               Option.bind (getnum 2 s3) (\<lambda>(m, s4).
                 if s4 \<noteq> [] \<or> h > 24 \<or> m > 60 then None
                 else Some ((if sg = CHR ''-'' then -1 else 1) * int (h * 3600 + m * 60))))))"

definition make_time :: "int \<Rightarrow> nat \<Rightarrow> nat \<Rightarrow> nat \<Rightarrow> nat \<Rightarrow> nat \<Rightarrow> nat \<Rightarrow> int \<Rightarrow> go_time option" where
  "make_time y m k h mi s ns off =
     (if m < 1 \<or> m > 12 \<or> k < 1 \<or> k > month_lengths y ! (m - 1) \<or> h \<ge> 24 \<or> mi \<ge> 60 \<or> s \<ge> 60 then None
      else
        let d = days_before (y - 1) + int (sum_list (take (m - 1) (month_lengths y)) + (k - 1))
        in Some ((d * 86400 + int (h * 3600 + mi * 60 + s) - off) * second + int ns))"

definition Parse_RFC3339Nano :: "string \<Rightarrow> go_time option" where
  "Parse_RFC3339Nano t =
     Option.bind (getnum 4 t) (\<lambda>(y, t).
     Option.bind (literal CHR ''-'' t) (\<lambda>t.
     Option.bind (getnum 2 t) (\<lambda>(m, t).
     Option.bind (literal CHR ''-'' t) (\<lambda>t.
     Option.bind (getnum 2 t) (\<lambda>(k, t).
     Option.bind (literal CHR ''T'' t) (\<lambda>t.
     Option.bind (get_hour t) (\<lambda>(h, t).
     Option.bind (literal CHR '':'' t) (\<lambda>t.
     Option.bind (getnum 2 t) (\<lambda>(mi, t).
     Option.bind (literal CHR '':'' t) (\<lambda>t.
     Option.bind (getnum 2 t) (\<lambda>(s, t).
       (case get_frac t of (ns, t) \<Rightarrow>
        Option.bind (get_zone t) (\<lambda>off. make_time (int y) m k h mi s ns off)))))))))))))"

section \<open>The round trip\<close>

lemma div_plus_one:
  assumes "(n :: int) > 0"
  shows "(z + 1) div n = z div n + (if (z + 1) mod n = 0 then 1 else 0)"
proof -
  have z: "z = n * (z div n) + z mod n" "0 \<le> z mod n" "z mod n < n" using assms by simp_all
  show ?thesis
  proof (cases "z mod n + 1 = n")
    case True
    then have "z + 1 = n * (z div n + 1) + 0" unfolding distrib_left using z(1) by linarith
    from int_div_pos_eq [OF this] int_mod_pos_eq [OF this] assms show ?thesis by simp
  next
    case False
    then have "z + 1 = n * (z div n) + (z mod n + 1)" "0 \<le> z mod n + 1" "z mod n + 1 < n"
      using z by simp_all
    from int_div_pos_eq [OF this] int_mod_pos_eq [OF this] z(2) show ?thesis by simp
  qed
qed

lemma days_before_Suc: "days_before (z + 1) = days_before z + int (sum_list (month_lengths (z + 1)))"
proof -
  define l4 l100 l400 where "l4 = ((z + 1) mod 4 = 0)" and "l100 = ((z + 1) mod 100 = 0)"
    and "l400 = ((z + 1) mod 400 = 0)"
  define q4 q100 q400 where "q4 = z div 4" and "q100 = z div 100" and "q400 = z div 400"
  note folds = l4_def [symmetric] l100_def [symmetric] l400_def [symmetric]
    q4_def [symmetric] q100_def [symmetric] q400_def [symmetric]
  have "l400 \<longrightarrow> l100" "l100 \<longrightarrow> l4"
    using mod_mod_cancel [of 100 400 "z + 1"] mod_mod_cancel [of 4 100 "z + 1"]
    by (auto simp: l4_def l100_def l400_def)
  moreover have "sum_list (month_lengths y) = (if leap y then 366 else 365)" for y
    by (simp add: month_lengths_def)
  moreover have "leap (z + 1) \<longleftrightarrow> l4 \<and> (\<not> l100 \<or> l400)"
    by (simp only: leap_def folds)
  moreover have "(z + 1) div 4 = q4 + (if l4 then 1 else 0)"
    "(z + 1) div 100 = q100 + (if l100 then 1 else 0)"
    "(z + 1) div 400 = q400 + (if l400 then 1 else 0)"
    by (simp_all only: div_plus_one [of 4 z] div_plus_one [of 100 z] div_plus_one [of 400 z]
          folds zero_less_numeral)
  ultimately show ?thesis
    unfolding days_before_def folds by (cases l4; cases l100; cases l400) simp_all
qed

lemma year_index_bounds: "days_before (year_index d) \<le> d" "d < days_before (year_index d + 1)"
proof -
  let ?z = "400 * d div 146097"
  have b: "146097 * ?z \<le> 400 * d" "400 * d < 146097 * ?z + 146097"
    by simp_all
  have e: "400 * days_before z \<le> 146097 * z + 400 * 3" "146097 * z - 400 * 3 \<le> 400 * days_before z" for z
    by (simp_all add: days_before_def)
  have s: "365 \<le> days_before (z + 1) - days_before z" for z
    by (simp add: days_before_Suc month_lengths_def)
  show "days_before (year_index d) \<le> d" "d < days_before (year_index d + 1)"
    using b e [of ?z] e [of "?z + 1"] s [of ?z] s [of "?z + 1"] s [of "?z - 1"]
    by (auto simp: year_index_def Let_def)
qed

lemma month_day_bounds:
  assumes "d < sum_list ls" "month_day ls d = (m, k)"
  shows "1 \<le> m" "m \<le> length ls" "1 \<le> k" "k \<le> ls ! (m - 1)" "sum_list (take (m - 1) ls) + (k - 1) = d"
  using assms
proof (induction ls arbitrary: d m)
  case (Cons l ls)
  { case 1 then show ?case by (auto split: if_splits prod.splits) }
  { case 2 then show ?case using Cons.IH(2) [of "d - l"] by (auto split: if_splits prod.splits) }
  { case 3 then show ?case using Cons.IH(3) [of "d - l"] by (auto split: if_splits prod.splits) }
  { case 4 then show ?case using Cons.IH(1,4) [of "d - l"]
      by (fastforce split: if_splits prod.splits simp: nth_Cons') }
  { case 5 then show ?case using Cons.IH(1,5) [of "d - l"]
      by (fastforce split: if_splits prod.splits simp: take_Cons') }
qed simp_all

lemma pad_props: "length (pad k n) = k" "list_all is_digit (pad k n)" "dec_val (pad k n) = n mod 10 ^ k"
  by (induction k arbitrary: n) (simp_all add: digit_char mod_mult2_eq)

lemma getnum_pad: "n < 10 ^ k \<Longrightarrow> getnum k (pad k n @ s) = Some (n, s)"
  by (simp add: getnum_def pad_props)

lemma rev_pad_zeros:
  "list_all is_digit s \<Longrightarrow>
   let ds = rev (dropWhile (\<lambda>c. c = CHR ''0'') (rev s))
   in list_all is_digit ds \<and> length ds \<le> length s \<and> dec_val s = dec_val ds * 10 ^ (length s - length ds)"
proof (induction s rule: rev_induct)
  case (snoc c s)
  show ?case
  proof (cases "c = CHR ''0''")
    case True
    with snoc show ?thesis by (simp add: Let_def digit_val_def Suc_diff_le)
  next
    case False
    with snoc show ?thesis by simp
  qed
qed simp

lemma get_frac_format:
  assumes "ns < 10 ^ 9" "r \<noteq> []" "\<not> is_digit (hd r)" "hd r \<noteq> CHR ''.''" "hd r \<noteq> CHR '',''"
  shows "get_frac (format_frac ns @ r) = (ns, r)"
proof -
  define ds where "ds = rev (dropWhile (\<lambda>c. c = CHR ''0'') (rev (pad 9 ns)))"
  have fmt: "format_frac ns = (if ds = [] then [] else CHR ''.'' # ds)"
    by (simp only: format_frac_def ds_def [symmetric] Let_def)
  have "list_all is_digit ds \<and> length ds \<le> 9 \<and> dec_val (pad 9 ns) = dec_val ds * 10 ^ (9 - length ds)"
    using rev_pad_zeros [OF pad_props(2) [of 9 ns]] by (simp only: Let_def ds_def [symmetric] pad_props(1))
  then have ds: "list_all is_digit ds" "length ds \<le> 9" "dec_val ds * 10 ^ (9 - length ds) = ns"
    using assms(1) by (simp_all add: pad_props)
  show ?thesis
  proof (cases ds)
    case Nil
    then show ?thesis using assms ds(3) fmt
      by (cases r) (auto simp: get_frac_def split: list.splits)
  next
    case (Cons x xs)
    have tw: "takeWhile is_digit (x # xs @ r) = x # xs" "dropWhile is_digit (x # xs @ r) = r"
      using ds(1) Cons assms(2,3)
      by (cases r; simp add: takeWhile_append dropWhile_append list_all_iff)+
    have "get_frac (CHR ''.'' # x # xs @ r) = (ns, r)"
      unfolding get_frac_def using tw ds Cons
      by (simp del: takeWhile.simps dropWhile.simps)
    then show ?thesis using Cons fmt by simp
  qed
qed

lemma literal_Cons [simp]: "literal c (c # s) = Some s"
  by (simp add: literal_def)

lemma Parse_parts:
  assumes "y < 10000" "m < 100" "k < 100" "h < 100" "mi < 100" "s < 100" "ns < 10 ^ 9"
  shows "Parse_RFC3339Nano (pad 4 y @ ''-'' @ pad 2 m @ ''-'' @ pad 2 k @ ''T'' @ pad 2 h @ '':'' @
    pad 2 mi @ '':'' @ pad 2 s @ format_frac ns @ ''Z'') = make_time (int y) m k h mi s ns 0"
proof -
  have "get_zone ''Z'' = Some 0" by (simp add: get_zone_def)
  moreover have "get_frac (format_frac ns @ ''Z'') = (ns, ''Z'')"
    using assms(7) by (intro get_frac_format) (simp_all add: is_digit_def)
  ultimately show ?thesis
    using assms by (simp add: Parse_RFC3339Nano_def get_hour_def getnum_pad)
qed

text \<open>Every instant up to the year 9999 is read back from its text.\<close>

lemma Parse_Format:
  assumes "0 \<le> t" "t div second div 86400 < days_before 9999"
  shows "Parse_RFC3339Nano (Format_RFC3339Nano t) = Some t"
proof -
  define secs ns where "secs = t div second" and "ns = nat (t mod second)"
  define d s where "d = secs div 86400" and "s = nat (secs mod 86400)"
  define z where "z = year_index d"
  obtain m k where mk: "month_day (month_lengths (z + 1)) (nat (d - days_before z)) = (m, k)"
    by fastforce
  have t: "t = secs * second + int ns" "ns < 10 ^ 9"
    by (simp_all add: secs_def ns_def second_def nat_less_iff)
  have secs: "secs = d * 86400 + int s" "s < 86400" by (simp_all add: d_def s_def nat_less_iff)
  have d: "days_before z \<le> d" "d < days_before (z + 1)"
    using year_index_bounds [of d] by (simp_all add: z_def)
  have mono: "days_before a \<le> days_before b" if "a \<le> b" for a b
    using that
  proof (induction b rule: int_ge_induct)
    case (step i)
    then show ?case by (simp add: days_before_Suc)
  qed simp
  have "0 \<le> d" using assms(1) by (simp add: d_def secs_def second_def pos_imp_zdiv_nonneg_iff)
  moreover have "days_before 0 = 0" by (simp add: days_before_def)
  ultimately have z: "0 \<le> z" "z < 9999"
    using mono [of "z + 1" 0] mono [of 9999 z] d assms(2) unfolding d_def [symmetric] secs_def [symmetric]
    by linarith+
  let ?ls = "month_lengths (z + 1)"
  have "nat (d - days_before z) < sum_list ?ls"
    using d days_before_Suc [of z] by (simp add: nat_less_iff)
  note md = month_day_bounds [OF this mk]
  have len: "length ?ls = 12" by (simp add: month_lengths_def)
  have "?ls ! (m - 1) \<in> set ?ls" using md(1,2) len by (intro nth_mem) simp
  moreover have "\<forall>l \<in> set ?ls. l \<le> 31" by (simp add: month_lengths_def)
  ultimately have k31: "k \<le> 31" using md(4) le_trans by blast
  have "s div 3600 = s div 60 div 60" by (simp add: div_mult2_eq [symmetric])
  then have hms: "s div 3600 * 3600 + s div 60 mod 60 * 60 + s mod 60 = s" "s div 3600 < 24"
      "s div 60 mod 60 < 60" "s mod 60 < 60"
    using secs(2) div_mult_mod_eq [of "s div 60" 60] div_mult_mod_eq [of s 60]
    by (linarith, simp_all add: less_mult_imp_div_less)
  have "make_time (z + 1) m k (s div 3600) (s div 60 mod 60) (s mod 60) ns 0 = Some t"
    using md len hms t secs d(1) by (simp add: make_time_def Let_def not_le)
  moreover have "Format_RFC3339Nano t =
      pad 4 (nat (z + 1)) @ ''-'' @ pad 2 m @ ''-'' @ pad 2 k @ ''T'' @ pad 2 (s div 3600) @ '':'' @
      pad 2 (s div 60 mod 60) @ '':'' @ pad 2 (s mod 60) @ format_frac ns @ ''Z''"
    using mk z unfolding Format_RFC3339Nano_def Let_def secs_def [symmetric] ns_def [symmetric]
      d_def [symmetric] s_def [symmetric] z_def [symmetric]
    by (simp add: format_year_def Let_def nat_less_iff)
  ultimately show ?thesis
    using Parse_parts [of "nat (z + 1)" m k "s div 3600" "s div 60 mod 60" "s mod 60" ns]
      z md(1,2) len k31 hms t(2) by simp
qed

end
