(* ===== verification/Log_Projections.thy ===== *)
theory Log_Projections
  imports Session_FSM Controller_Config Go_Time
begin

text \<open>
  The pure projections of an agent's durable log: the liveness status and the provisioning
  payload a restart restores (\<open>controller/registry.go\<close>), the revive ledger
  (\<open>controller/revive.go\<close>), the current turn and its assessment
  (\<open>controller/monitor.go\<close>), and the wake filter of the blocking wait
  (\<open>controller/wait.go\<close>).  They are functions of the list of events a snapshot returns.
\<close>

section \<open>Liveness\<close>

datatype agent_status = StatusCreating | StatusReady | StatusWorking | StatusFailed | StatusTerminated

fun agent_status_string :: "agent_status \<Rightarrow> string" where
  "agent_status_string StatusCreating = ''creating''"
| "agent_status_string StatusReady = ''ready''"
| "agent_status_string StatusWorking = ''working''"
| "agent_status_string StatusFailed = ''failed''"
| "agent_status_string StatusTerminated = ''terminated''"

definition lifecycleProvisioned :: string where "lifecycleProvisioned = ''agent.provisioned''"

definition lifecycleStarted :: string where "lifecycleStarted = ''agent.started''"

definition lifecycleTurnStarted :: string where "lifecycleTurnStarted = ''agent.turn_started''"

definition lifecycleSettled :: string where "lifecycleSettled = ''agent.settled''"

definition lifecycleFailed :: string where "lifecycleFailed = ''agent.failed''"

definition lifecycleTerminated :: string where "lifecycleTerminated = ''agent.terminated''"

lemmas lifecycle_defs =
  lifecycleProvisioned_def lifecycleStarted_def lifecycleTurnStarted_def lifecycleSettled_def
  lifecycleFailed_def lifecycleTerminated_def lifecyclePaused_def lifecycleRevived_def

definition status_apply :: "agent_status \<Rightarrow> string \<Rightarrow> agent_status" where
  "status_apply status t =
     (if t = lifecycleProvisioned then StatusCreating
      else if t = lifecycleStarted \<or> t = lifecycleSettled then StatusReady
      else if t = lifecycleTurnStarted then StatusWorking
      else if t = lifecycleFailed \<or> t = lifecyclePaused then StatusFailed
      else if t = lifecycleRevived then StatusReady
      else if t = lifecycleTerminated then StatusTerminated
      else status)"

definition ReplayAgentStatus :: "event list \<Rightarrow> agent_status" where
  "ReplayAgentStatus evs = foldl (\<lambda>status ev. status_apply status (Type ev)) StatusCreating evs"

lemma ReplayAgentStatus_snoc [simp]:
  "ReplayAgentStatus [] = StatusCreating"
  "ReplayAgentStatus (evs @ [ev]) = status_apply (ReplayAgentStatus evs) (Type ev)"
  by (simp_all add: ReplayAgentStatus_def)

section \<open>The provisioning payload\<close>

record provision_info =
  i_sandbox :: string
  i_created :: "go_time option"
  i_parent :: string
  i_resolved :: resolved_profile

definition zero_resolved :: resolved_profile where
  "zero_resolved = \<lparr>r_Name = [], r_Image = [], r_Resources = \<lparr>CPU = [], Memory = []\<rparr>, r_Provider = [], r_Model = []\<rparr>"

definition no_provision :: provision_info where
  "no_provision = \<lparr>i_sandbox = [], i_created = None, i_parent = [], i_resolved = zero_resolved\<rparr>"

text \<open>The fields of the anonymous struct, in its order.\<close>

definition provision_fields :: "string list" where
  "provision_fields = [''sandbox'', ''created'', ''parent'', ''image'', ''provider'', ''model'', ''cpu'', ''memory'']"

definition provision_event :: "provision_info \<Rightarrow> event \<Rightarrow> provision_info" where
  "provision_event i ev =
     (if Type ev \<noteq> lifecycleProvisioned then i
      else case unmarshal_strs provision_fields (Data ev) of
        Some [sandbox, created, parent, img, provider, model, cpu, memory] \<Rightarrow>
          i\<lparr>i_sandbox := sandbox, i_parent := parent,
            i_resolved :=
              (if img \<noteq> [] \<or> provider \<noteq> [] \<or> model \<noteq> [] \<or> cpu \<noteq> [] \<or> memory \<noteq> []
               then \<lparr>r_Name = sandbox, r_Image = img, r_Resources = \<lparr>CPU = cpu, Memory = memory\<rparr>,
                     r_Provider = provider, r_Model = model\<rparr>
               else i_resolved i),
            i_created :=
              (if created \<noteq> []
               then (case Parse_RFC3339Nano created of None \<Rightarrow> i_created i | Some t \<Rightarrow> Some t)
               else i_created i)\<rparr>
      | _ \<Rightarrow> i)"

definition replayProvisionInfo :: "event list \<Rightarrow> provision_info" where
  "replayProvisionInfo evs = foldl provision_event no_provision evs"

section \<open>The revive ledger\<close>

definition reviveConsumedEventType :: string where "reviveConsumedEventType = ''agent.revive_consumed''"

definition agentResumedEventType :: string where "agentResumedEventType = ''agent.resumed''"

definition reviveAbandonedEventType :: string where "reviveAbandonedEventType = ''agent.revive_abandoned''"

definition daemonBootEventType :: string where "daemonBootEventType = ''daemon.boot''"

lemmas ledger_type_defs =
  reviveConsumedEventType_def agentResumedEventType_def reviveAbandonedEventType_def daemonBootEventType_def

record reviveLedger =
  used :: int
  lastAttempt :: go_time
  openAttempt :: bool

definition zero_ledger :: reviveLedger where
  "zero_ledger = \<lparr>used = 0, lastAttempt = 0, openAttempt = False\<rparr>"

definition ledger_event :: "reviveLedger \<Rightarrow> event \<Rightarrow> reviveLedger" where
  "ledger_event l ev =
     (if Type ev = reviveConsumedEventType then
        (let l = l\<lparr>used := used l + 1, openAttempt := True\<rparr> in
         case unmarshal_str ''at'' (Data ev) of
           None \<Rightarrow> l
         | Some s \<Rightarrow> (case Parse_RFC3339Nano s of None \<Rightarrow> l | Some t \<Rightarrow> l\<lparr>lastAttempt := t\<rparr>))
      else if Type ev = lifecycleRevived then l\<lparr>openAttempt := False\<rparr>
      else if Type ev = reviveAbandonedEventType then l\<lparr>openAttempt := False\<rparr>
      else if Type ev = agentResumedEventType then zero_ledger
      else l)"

definition reviveLedgerFromEvents :: "event list \<Rightarrow> reviveLedger" where
  "reviveLedgerFromEvents evs = foldl ledger_event zero_ledger evs"

lemma reviveLedgerFromEvents_snoc [simp]:
  "reviveLedgerFromEvents [] = zero_ledger"
  "reviveLedgerFromEvents (evs @ [ev]) = ledger_event (reviveLedgerFromEvents evs) ev"
  by (simp_all add: reviveLedgerFromEvents_def)

definition remaining :: "reviveLedger \<Rightarrow> int \<Rightarrow> int" where
  "remaining l mx = (let r = mx - used l in if r < 0 then 0 else r)"

definition cooldownRemaining :: "reviveLedger \<Rightarrow> go_time \<Rightarrow> int \<Rightarrow> int" where
  "cooldownRemaining l now cooldown =
     (if lastAttempt l = 0 \<or> cooldown \<le> 0 then 0
      else let d = wrap64 (cooldown - time_sub now (lastAttempt l)) in if d < 0 then 0 else d)"

definition boot_event :: "string \<Rightarrow> event \<Rightarrow> string" where
  "boot_event l ev =
     (if Type ev \<noteq> daemonBootEventType then l
      else case unmarshal_str ''boot_id'' (Data ev) of None \<Rightarrow> l | Some b \<Rightarrow> b)"

definition lastRecordedBootID :: "event list \<Rightarrow> string" where
  "lastRecordedBootID evs = foldl boot_event [] evs"

section \<open>The current turn\<close>

definition EventTypeAssessed :: string where "EventTypeAssessed = ''agent.assessed''"

record assessment_payload =
  y_Verdict :: string
  y_Summary :: string
  y_Confidence :: string
  y_Reason :: string
  y_AssessedAt :: string

record assessment_view =
  v_Verdict :: string
  v_Summary :: string
  v_AssessedAt :: string
  v_Seq :: u64

definition unmarshal_assessment :: "raw \<Rightarrow> assessment_payload option" where
  "unmarshal_assessment r =
     (case unmarshal_strs [''verdict'', ''summary'', ''confidence'', ''reason'', ''assessed_at''] r of
        Some [v, s, c, re, a] \<Rightarrow>
          Some \<lparr>y_Verdict = v, y_Summary = s, y_Confidence = c, y_Reason = re, y_AssessedAt = a\<rparr>
      | _ \<Rightarrow> None)"

definition zero_payload :: assessment_payload where
  "zero_payload = \<lparr>y_Verdict = [], y_Summary = [], y_Confidence = [], y_Reason = [], y_AssessedAt = []\<rparr>"

fun assessment_loop :: "event list \<Rightarrow> u64 \<Rightarrow> u64 \<Rightarrow> assessment_payload \<Rightarrow> u64 \<times> u64 \<times> assessment_payload" where
  "assessment_loop [] turnStart latest payload = (turnStart, latest, payload)"
| "assessment_loop (ev # evs) turnStart latest payload =
     (if Type ev = lifecycleTurnStarted then assessment_loop evs (Seq ev) latest payload
      else if Type ev = EventTypeAssessed then
        (case unmarshal_assessment (Data ev) of
           None \<Rightarrow> assessment_loop evs turnStart latest payload
         | Some p \<Rightarrow>
             if Seq ev > latest then assessment_loop evs turnStart (Seq ev) p
             else assessment_loop evs turnStart latest payload)
      else assessment_loop evs turnStart latest payload)"

definition assessmentFromEvents :: "event list \<Rightarrow> assessment_view option" where
  "assessmentFromEvents evs =
     (case assessment_loop evs 0 0 zero_payload of (turnStart, latest, payload) \<Rightarrow>
        if latest = 0 \<or> latest \<le> turnStart then None
        else Some \<lparr>v_Verdict = y_Verdict payload, v_Summary = y_Summary payload,
                   v_AssessedAt = y_AssessedAt payload, v_Seq = latest\<rparr>)"

record turn_window =
  w_turnStartSeq :: u64
  w_prompt :: string
  w_events :: "event list"

text \<open>A decode whose error is ignored: \<open>Unmarshal\<close> goes on after a member of a wrong type, so
  the field has the last string given to it.\<close>

fun last_str_member :: "string \<Rightarrow> (string \<times> json) list \<Rightarrow> string \<Rightarrow> string" where
  "last_str_member k [] acc = acc"
| "last_str_member k ((k', v) # ms) acc =
     last_str_member k ms (if to_lower k' = to_lower k then (case v of JStr s \<Rightarrow> s | _ \<Rightarrow> acc) else acc)"

definition decode_prompt :: "raw \<Rightarrow> string" where
  "decode_prompt r = (case r of RawDoc (JObj ms) \<Rightarrow> last_str_member ''prompt'' ms [] | _ \<Rightarrow> [])"

text \<open>The scan from the end of the log: the events already passed are kept in \<open>after\<close>.\<close>

fun window_scan :: "event list \<Rightarrow> event list \<Rightarrow> turn_window option" where
  "window_scan [] after = None"
| "window_scan (ev # revd) after =
     (if Type ev \<noteq> lifecycleTurnStarted then window_scan revd (ev # after)
      else Some \<lparr>w_turnStartSeq = Seq ev,
                 w_prompt = decode_prompt (Data ev),
                 w_events = filter (\<lambda>e. Type e \<noteq> EventTypeAssessed) (ev # after)\<rparr>)"

definition currentTurnWindow :: "event list \<Rightarrow> turn_window option" where
  "currentTurnWindow evs = window_scan (rev evs) []"

text \<open>\<open>text_of\<close> gives the bytes of a raw message.\<close>

definition transcriptOf :: "(raw \<Rightarrow> string) \<Rightarrow> turn_window \<Rightarrow> string" where
  "transcriptOf text_of w =
     concat (map (\<lambda>ev. Type ev @ '': '' @ text_of (Data ev) @ [CHR 0x0A]) (w_events w))"

section \<open>The wake filter\<close>

definition waitDefaultTimeout :: int where "waitDefaultTimeout = 300 * second"

definition waitMaxTimeout :: int where "waitMaxTimeout = 600 * second"

definition waitChangedState :: string where "waitChangedState = ''state''"

definition waitChangedAssessment :: string where "waitChangedAssessment = ''assessment''"

definition waitChangedTimeout :: string where "waitChangedTimeout = ''timeout''"

lemmas wait_kind_defs = waitChangedState_def waitChangedAssessment_def waitChangedTimeout_def

definition parseWaitTimeout :: "string \<Rightarrow> int option" where
  "parseWaitTimeout raw =
     (if raw = [] then Some waitDefaultTimeout
      else case Atoi raw of
        None \<Rightarrow> None
      | Some secs \<Rightarrow>
          if secs \<le> 0 then None
          else let d = seconds secs in if d > waitMaxTimeout then Some waitMaxTimeout else Some d)"

definition wakeOf :: "event \<Rightarrow> string \<times> string" where
  "wakeOf ev =
     (if sessionEventType (Type ev) \<noteq> None then (waitChangedState, [])
      else if Type ev = ''agent.failed'' then (waitChangedState, [])
      else if Type ev = EventTypeAssessed then
        (case unmarshal_assessment (Data ev) of
           None \<Rightarrow> ([], [])
         | Some p \<Rightarrow> (waitChangedAssessment, y_Verdict p))
      else ([], []))"

text \<open>One event against the set of fired kinds and the last seen verdict; the third result
  says whether a wake fired.  The live loop, the replayed events and the coalescing
  window all apply it.\<close>

type_synonym wake_state = "(string \<Rightarrow> bool) \<times> string"

definition wake_event :: "event \<Rightarrow> wake_state \<Rightarrow> wake_state \<times> bool" where
  "wake_event ev cl =
     (case cl of (changed, lastVerdict) \<Rightarrow>
        let (kind, verdict) = wakeOf ev in
        if kind = [] then (cl, False)
        else if kind = waitChangedAssessment \<and> verdict = lastVerdict then (cl, False)
        else ((changed(kind := True),
               if kind = waitChangedAssessment then verdict else lastVerdict), True))"

fun consumeWakeEvents :: "event list \<Rightarrow> wake_state \<Rightarrow> bool \<Rightarrow> wake_state \<times> bool" where
  "consumeWakeEvents [] cl woke = (cl, woke)"
| "consumeWakeEvents (ev # evs) cl woke =
     (case wake_event ev cl of (cl', w) \<Rightarrow> consumeWakeEvents evs cl' (woke \<or> w))"

definition finalizeChanged :: "(string \<Rightarrow> bool) \<Rightarrow> string list" where
  "finalizeChanged changed = filter changed [waitChangedState, waitChangedAssessment, waitChangedTimeout]"

section \<open>The assessment is the latest one of the current turn\<close>

definition current_turn :: "event list \<Rightarrow> event list" where
  "current_turn evs = rev (takeWhile (\<lambda>e. Type e \<noteq> lifecycleTurnStarted) (rev evs))"

definition assessed_view :: "event \<Rightarrow> assessment_view option" where
  "assessed_view ev =
     (if Type ev \<noteq> EventTypeAssessed then None
      else map_option (\<lambda>p. \<lparr>v_Verdict = y_Verdict p, v_Summary = y_Summary p,
                            v_AssessedAt = y_AssessedAt p, v_Seq = Seq ev\<rparr>)
             (unmarshal_assessment (Data ev)))"

definition latest_view :: "event list \<Rightarrow> assessment_view option" where
  "latest_view evs =
     (let vs = List.map_filter assessed_view (current_turn evs) in if vs = [] then None else Some (last vs))"

lemma type_names [simp]: "lifecycleTurnStarted \<noteq> EventTypeAssessed" "EventTypeAssessed \<noteq> lifecycleTurnStarted"
  by (simp_all add: lifecycleTurnStarted_def EventTypeAssessed_def)

lemma current_turn_snoc:
  "current_turn (evs @ [ev]) = (if Type ev = lifecycleTurnStarted then [] else current_turn evs @ [ev])"
  by (simp add: current_turn_def)

lemma map_filter_snoc:
  "List.map_filter f (xs @ [x]) = List.map_filter f xs @ (case f x of None \<Rightarrow> [] | Some y \<Rightarrow> [y])"
  by (induction xs) (auto simp: List.map_filter_def split: option.splits)

lemma latest_view_snoc:
  "latest_view (evs @ [ev]) =
     (if Type ev = lifecycleTurnStarted then None
      else case assessed_view ev of None \<Rightarrow> latest_view evs | Some v \<Rightarrow> Some v)"
  by (simp add: latest_view_def current_turn_snoc map_filter_snoc Let_def List.map_filter_def split: option.split)

lemma assessment_loop_snoc:
  "assessment_loop (evs @ [ev]) T L P =
     (case assessment_loop evs T L P of (T', L', P') \<Rightarrow> assessment_loop [ev] T' L' P')"
  by (induction evs T L P rule: assessment_loop.induct) (auto split: option.split)

lemma assessment_loop_latest:
  assumes "sorted_wrt (<) (map Seq evs)" "0 \<notin> Seq ` set evs" "assessment_loop evs 0 0 zero_payload = (T, L, P)"
  shows "(T = 0 \<or> T \<in> Seq ` set evs) \<and> (L = 0 \<or> L \<in> Seq ` set evs) \<and>
    latest_view evs = (if L = 0 \<or> L \<le> T then None
       else Some \<lparr>v_Verdict = y_Verdict P, v_Summary = y_Summary P, v_AssessedAt = y_AssessedAt P, v_Seq = L\<rparr>)"
  using assms
proof (induction evs arbitrary: T L P rule: rev_induct)
  case Nil
  then show ?case by (simp add: latest_view_def current_turn_def List.map_filter_def)
next
  case (snoc ev evs)
  obtain T0 L0 P0 where l0: "assessment_loop evs 0 0 zero_payload = (T0, L0, P0)" by (metis prod_cases3)
  have s: "sorted_wrt (<) (map Seq evs)" "0 \<notin> Seq ` set evs" "0 < Seq ev"
    and lt: "\<forall>e \<in> set evs. Seq e < Seq ev"
    using snoc.prems(1,2) by (auto simp: sorted_wrt_append word_gt_0)
  note IH = snoc.IH [OF s(1,2) l0]
  have "T0 < Seq ev" "L0 < Seq ev" using IH s(3) lt by auto
  then show ?case using snoc.prems(3) l0 s(3) IH
    by (auto simp: assessment_loop_snoc latest_view_snoc assessed_view_def split: if_splits option.splits)
qed


section \<open>The timeout of a wait\<close>

text \<open>The timeout a wait runs with.  A text that is not a positive decimal number is refused;
  up to 9223372036 seconds the result is the number of seconds, at most ten minutes.  From
  9223372037 seconds on the product with a second no longer fits 64 bits: over the next
  nine billion values the timeout is negative, so that the wait expires at once instead of
  being clamped.\<close>

theorem wait_timeout_range:
  assumes "Atoi txt = Some n"
  shows "parseWaitTimeout txt =
      (if n \<le> 0 then None else if n \<le> 9223372036 then Some (min n 600 * second)
       else Some (min (seconds n) waitMaxTimeout)) \<and>
    (9223372037 \<le> n \<and> n \<le> 18446744073 \<longrightarrow> seconds n < 0)"
proof -
  have "txt \<noteq> []" using assms by (auto simp: Atoi_def)
  then have "parseWaitTimeout txt = (if n \<le> 0 then None else Some (min (seconds n) waitMaxTimeout))"
    using assms by (simp add: parseWaitTimeout_def Let_def min_def)
  moreover have "min (seconds n) waitMaxTimeout = min n 600 * second" if "0 < n" "n \<le> 9223372036"
    using that by (simp add: seconds_small waitMaxTimeout_def min_def second_def)
  ultimately show ?thesis using seconds_wrapped [of n] by auto
qed

section \<open>What wakes a wait\<close>

definition is_state_event :: "event \<Rightarrow> bool" where
  "is_state_event ev \<longleftrightarrow> sessionEventType (Type ev) \<noteq> None \<or> Type ev = ''agent.failed''"

definition verdicts :: "event list \<Rightarrow> string list" where
  "verdicts evs = List.map_filter (\<lambda>ev. map_option v_Verdict (assessed_view ev)) evs"

lemma wakeOf_cases:
  "wakeOf ev =
     (if is_state_event ev then (waitChangedState, [])
      else case assessed_view ev of None \<Rightarrow> ([], []) | Some v \<Rightarrow> (waitChangedAssessment, v_Verdict v))"
  by (auto simp: wakeOf_def is_state_event_def assessed_view_def split: option.split)

lemma assessed_not_state: "assessed_view ev \<noteq> None \<Longrightarrow> \<not> is_state_event ev"
  by (auto simp: assessed_view_def is_state_event_def EventTypeAssessed_def sessionEventType_def
      lifecyclePaused_def lifecycleRevived_def split: if_splits)

text \<open>The filter over any list of events: a state event always fires, an assessment fires
  exactly when its verdict differs from the last one seen.\<close>

lemma consumeWakeEvents_exact:
  "consumeWakeEvents evs (changed, lv) woke = ((changed', lv'), woke') \<Longrightarrow>
     lv' = last (lv # verdicts evs) \<and>
     (woke' \<longleftrightarrow> woke \<or> list_ex is_state_event evs \<or> \<not> list_all (\<lambda>v. v = lv) (verdicts evs)) \<and>
     (changed' waitChangedState \<longleftrightarrow> changed waitChangedState \<or> list_ex is_state_event evs) \<and>
     (changed' waitChangedAssessment \<longleftrightarrow>
        changed waitChangedAssessment \<or> \<not> list_all (\<lambda>v. v = lv) (verdicts evs)) \<and>
     changed' waitChangedTimeout = changed waitChangedTimeout"
proof (induction evs arbitrary: changed lv woke)
  case Nil
  then show ?case by (simp add: verdicts_def List.map_filter_def)
next
  case (Cons ev evs)
  obtain c1 l1 w where w: "wake_event ev (changed, lv) = ((c1, l1), w)" by (metis surj_pair)
  with Cons.prems have "consumeWakeEvents evs (c1, l1) (woke \<or> w) = ((changed', lv'), woke')" by simp
  note IH = Cons.IH [OF this]
  have v: "verdicts (ev # evs) = (case assessed_view ev of None \<Rightarrow> [] | Some v \<Rightarrow> [v_Verdict v]) @ verdicts evs"
    by (simp add: verdicts_def List.map_filter_def split: option.split)
  show ?case
  proof (cases "assessed_view ev")
    case None
    with w IH v show ?thesis
      by (auto simp: wake_event_def wakeOf_cases wait_kind_defs split: if_splits)
  next
    case (Some a)
    with w IH v assessed_not_state [of ev] show ?thesis
      by (cases "v_Verdict a = lv") (auto simp: wake_event_def wakeOf_cases wait_kind_defs split: if_splits)
  qed
qed

section \<open>Witnesses\<close>

definition assessed_event :: "u64 \<Rightarrow> string \<Rightarrow> event" where
  "assessed_event n verdict =
     \<lparr>Seq = n, Type = EventTypeAssessed,
      Data = RawDoc (JObj [(''verdict'', JStr verdict), (''summary'', JStr ''s''), (''assessed_at'', JStr ''t'')])\<rparr>"

definition demo_turn :: "event list" where
  "demo_turn = [assessed_event 1 ''finished'', \<lparr>Seq = 2, Type = lifecycleTurnStarted, Data = RawDoc JNull\<rparr>,
     assessed_event 3 ''looping'', assessed_event 4 ''healthy'']"

lemma demo_decode:
  "assessed_view (assessed_event n v) = Some \<lparr>v_Verdict = v, v_Summary = ''s'', v_AssessedAt = ''t'', v_Seq = n\<rparr>"
  by (simp add: assessed_view_def assessed_event_def unmarshal_assessment_def unmarshal_str_def
      to_lower_def lower_char_def)


theorem wait_timeout_range_witness:
  "\<exists>d < 0. parseWaitTimeout (dec_string 9223372037) = Some d"
proof -
  have "Atoi (dec_string 9223372037) = Some (int 9223372037)"
    by (intro Atoi_dec_string) (simp add: max_i64_def)
  from wait_timeout_range [OF this]
  have "parseWaitTimeout (dec_string 9223372037) = Some (min (seconds 9223372037) waitMaxTimeout)"
    "seconds 9223372037 < 0" by simp_all
  then show ?thesis by (intro exI [of _ "min (seconds 9223372037) waitMaxTimeout"]) simp
qed

end
