(* ===== verification/Controller_World.thy ===== *)
theory Controller_World
  imports Log_Projections
begin

text \<open>
  The state of the controller's agent manager and its surroundings: the agent objects and
  the registry (\<open>Agent\<close>, \<open>AgentManager\<close> of \<open>controller/agent.go\<close>), the monitor's timers
  (\<open>controller/monitor.go\<close>), and everything the controller talks to but does not contain:
  the OpenShell gateway, the sandboxes' daemons, the model endpoint, the clock and the random
  source.

  The outside is the parameter \<open>outside\<close>: what a call returns is a function of the history
  of calls, whose last element is the call itself, so that every behaviour of the outside,
  each failure included, is an instance.  The manager keeps that history (\<open>calls\<close>), which
  makes the calls a handler makes, and their order, part of its result.

  Each mutex-protected section is atomic; a handler runs its sections one after the other.
\<close>

section \<open>The outside\<close>

datatype sandbox_phase = PhaseReady | PhaseError | PhaseStopped | PhaseOther

record sandbox_info =
  si_Name :: string
  si_ID :: string
  si_Phase :: sandbox_phase
  si_Labels :: "(string \<times> string) list"

text \<open>A missing label reads as the empty string.\<close>

definition label_of :: "sandbox_info \<Rightarrow> string \<Rightarrow> string" where
  "label_of info k = (case map_of (si_Labels info) k of None \<Rightarrow> [] | Some v \<Rightarrow> v)"

record DaemonStatus =
  ds_AgentID :: string
  ds_BootID :: string
  ds_PiRunning :: bool

record DaemonCommand =
  dc_ID :: string
  dc_Type :: string
  dc_Payload :: raw

text \<open>The telemetry of a turn: the two \<open>float64\<close> fields are the durations they are
  computed from.\<close>

record TurnTelemetry =
  t_Summary :: string
  t_Elapsed :: int
  t_SinceLastRecord :: int
  t_LastRecordType :: string
  t_RecordCount :: nat
  t_TurnPrompt :: string

record Verdict =
  vd_Verdict :: string
  vd_Confidence :: string
  vd_Reason :: string

text \<open>\<open>CSleep\<close> is a sleep that ends early when the context is cancelled, \<open>CCtx\<close> a look at
  the context.\<close>

datatype call =
    CNow
  | CRand
  | CCreateSandbox string string string resources "(string \<times> string) list" string
  | CGetSandboxPhase string
  | CListSandboxes string
  | CDeleteSandbox string
  | CStartPi string string
  | CApplyModelGatewayPolicy string
  | CApplyControllerEgressDeny string string int
  | CListProviders
  | CExposeDaemon string
  | CWithdrawDaemon string
  | CResolveDaemonAddr string
  | CStatus string
  | CRecords string u64 int
  | CCommand string DaemonCommand
  | CSummarize string
  | CSummarizeTerminal string
  | CClassify TurnTelemetry
  | CSleep int
  | CCtx

record outside =
  o_time :: "call list \<Rightarrow> go_time"
  o_rand :: "call list \<Rightarrow> string"
  o_str :: "call list \<Rightarrow> string + string"
  o_err :: "call list \<Rightarrow> string option"
  o_phase :: "call list \<Rightarrow> string + sandbox_phase"
  o_sandboxes :: "call list \<Rightarrow> string + sandbox_info list"
  o_names :: "call list \<Rightarrow> string + string list"
  o_status :: "call list \<Rightarrow> string + DaemonStatus"
  o_records :: "call list \<Rightarrow> string + (u64 \<times> raw) list"
  o_verdict :: "call list \<Rightarrow> string + Verdict"
  o_live :: "call list \<Rightarrow> bool"

section \<open>Agents\<close>

text \<open>An agent object.  The session machine is its current state, the machine's other fields
  being the hub and the id; \<open>a_stdin\<close> is the buffered channel of the exec path (\<open>None\<close>
  for a nil channel), \<open>a_daemon\<close> the address of the cached daemon client.  The context's
  cancel function shows in what the outside answers to \<open>CCtx\<close> and \<open>CSleep\<close>.\<close>

record agent =
  a_ID :: string
  a_Sandbox :: string
  a_Created :: go_time
  a_ParentID :: string
  a_resolved :: resolved_profile
  a_status :: agent_status
  a_piSeq :: int
  a_replayedOnly :: bool
  a_bootID :: string
  a_degraded :: bool
  a_pendingRevive :: bool
  a_hub :: event_hub
  a_fsm :: session_state
  a_stdin :: "raw list option"
  a_stdinClosed :: bool
  a_daemon :: "string option"
  a_pullTransport :: bool
  a_cmdSeq :: int
  a_cancelled :: bool

section \<open>The monitor's timers\<close>

text \<open>An entry is known to the ticks in flight by its address, its position in \<open>mo_entries\<close>;
  its hub is that of the agent \<open>e_hub\<close>.\<close>

record monitorEntry =
  e_gen :: u64
  e_stopped :: bool
  e_hub :: string
  e_armTime :: go_time
  e_lastRecAt :: go_time
  e_lastRecTy :: string

record Monitor =
  mo_interval :: int
  mo_entries :: "monitorEntry list"
  mo_agents :: "string \<rightharpoonup> nat"

definition NewMonitor :: "int \<Rightarrow> Monitor" where
  "NewMonitor interval = \<lparr>mo_interval = interval, mo_entries = [], mo_agents = Map.empty\<rparr>"

section \<open>The manager\<close>

text \<open>\<open>agents\<close> are the keys of the registry map and \<open>objs\<close> the objects; an object stays
  known to its goroutines after it has left the registry.  \<open>skippedTicks\<close> is the expvar
  counter.\<close>

record 's AgentManager =
  agents :: "string list"
  objs :: "string \<Rightarrow> agent"
  store :: 's
  monitor :: "Monitor option"
  skippedTicks :: nat
  calls :: "call list"

text \<open>What the handlers are given: the event store, the outside, the configuration, the bytes of
  a raw message and the document a text denotes, and whether an address resolver is
  configured.\<close>

record 's deps =
  d_store :: "'s event_store"
  d_out :: outside
  d_cfg :: config
  d_text :: "raw \<Rightarrow> string"
  d_json :: "string \<Rightarrow> raw"
  d_resolver :: bool

definition ManagedByValue :: string where "ManagedByValue = ''kape-controller''"

definition LabelManagedBy :: string where "LabelManagedBy = ''managed-by''"

definition LabelAgentID :: string where "LabelAgentID = ''agent-id''"

definition LabelParentAgentID :: string where "LabelParentAgentID = ''parent-agent-id''"

text \<open>One call to the outside: it is recorded and answered by the component of the outside for
  its kind of reply.\<close>

definition ask ::
    "'s deps \<Rightarrow> (outside \<Rightarrow> call list \<Rightarrow> 'r) \<Rightarrow> call \<Rightarrow> 's AgentManager \<Rightarrow> 's AgentManager \<times> 'r" where
  "ask D reply c st = (let cs = calls st @ [c] in (st\<lparr>calls := cs\<rparr>, reply (d_out D) cs))"

text \<open>\<open>randID\<close>: the random part is the hexadecimal text of six random bytes.  A failing random
  source panics and is not modelled.\<close>

definition randID :: "'s deps \<Rightarrow> string \<Rightarrow> 's AgentManager \<Rightarrow> 's AgentManager \<times> string" where
  "randID D pre st = (case ask D o_rand CRand st of (st, hex) \<Rightarrow> (st, pre @ ''-'' @ hex))"

definition upd_agent :: "string \<Rightarrow> (agent \<Rightarrow> agent) \<Rightarrow> 's AgentManager \<Rightarrow> 's AgentManager" where
  "upd_agent aid f st = st\<lparr>objs := (objs st)(aid := f (objs st aid))\<rparr>"

text \<open>\<open>m.Get(id)\<close>\<close>

definition mgr_Get :: "string \<Rightarrow> 's AgentManager \<Rightarrow> agent option" where
  "mgr_Get aid st = (if aid \<in> set (agents st) then Some (objs st aid) else None)"

text \<open>The operations of the agent's hub and session machine on the manager's state.\<close>

definition publish ::
    "'s deps \<Rightarrow> string \<Rightarrow> string \<Rightarrow> (string \<times> json) list \<Rightarrow> 's AgentManager \<Rightarrow>
     's AgentManager \<times> event option" where
  "publish D aid t flds st =
     (case PublishLifecycle (d_store D) t flds (a_hub (objs st aid)) (store st) of (h, s, ev) \<Rightarrow>
        ((upd_agent aid (\<lambda>a. a\<lparr>a_hub := h\<rparr>) st)\<lparr>store := s\<rparr>, ev))"

definition publish_raw :: "'s deps \<Rightarrow> string \<Rightarrow> raw \<Rightarrow> 's AgentManager \<Rightarrow> 's AgentManager" where
  "publish_raw D aid r st =
     (case Publish (d_store D) r (a_hub (objs st aid)) (store st) of (h, s, _) \<Rightarrow>
        (upd_agent aid (\<lambda>a. a\<lparr>a_hub := h\<rparr>) st)\<lparr>store := s\<rparr>)"

definition publish_pulled ::
    "'s deps \<Rightarrow> string \<Rightarrow> raw \<Rightarrow> u64 \<Rightarrow> 's AgentManager \<Rightarrow> 's AgentManager \<times> (store_error + u64)" where
  "publish_pulled D aid r spoolID st =
     (case PublishPulled (d_store D) r spoolID (a_hub (objs st aid)) (store st) of (h, s, v) \<Rightarrow>
        ((upd_agent aid (\<lambda>a. a\<lparr>a_hub := h\<rparr>) st)\<lparr>store := s\<rparr>, v))"

definition transition ::
    "'s deps \<Rightarrow> string \<Rightarrow> session_state \<Rightarrow> string \<Rightarrow> (string \<times> json) list \<Rightarrow> 's AgentManager \<Rightarrow>
     's AgentManager \<times> fsm_error option" where
  "transition D aid to_state t flds st =
     (case Transition (d_store D) to_state t flds (a_fsm (objs st aid), a_hub (objs st aid), store st) of
        ((f, h, s), err) \<Rightarrow>
          ((upd_agent aid (\<lambda>a. a\<lparr>a_fsm := f, a_hub := h\<rparr>) st)\<lparr>store := s\<rparr>, err))"

definition snapshot :: "'s deps \<Rightarrow> string \<Rightarrow> 's AgentManager \<Rightarrow> store_error + event list" where
  "snapshot D aid st = SubscribeSnapshot (d_store D) (a_hub (objs st aid)) (store st)"

section \<open>What the basic operations leave alone\<close>

named_theorems frame_simps \<open>fields an operation does not change\<close>

lemma ask_frame [frame_simps]:
  "ask D reply c st = (st', r) \<Longrightarrow>
     agents st' = agents st \<and> objs st' = objs st \<and> store st' = store st \<and> monitor st' = monitor st"
  by (auto simp: ask_def Let_def)

lemma upd_agent_sel [simp]:
  "agents (upd_agent aid f st) = agents st" "store (upd_agent aid f st) = store st"
  "monitor (upd_agent aid f st) = monitor st" "calls (upd_agent aid f st) = calls st"
  "skippedTicks (upd_agent aid f st) = skippedTicks st"
  "objs (upd_agent aid f st) = (objs st)(aid := f (objs st aid))"
  by (simp_all add: upd_agent_def)

end
