(* ===== verification/Agent_Monitor.thy ===== *)
theory Agent_Monitor
  imports Controller_World
begin

text \<open>
  The assessment monitor (\<open>controller/monitor.go\<close>): one timer per running agent, ticks that
  summarize and classify the current turn, the terminal assessment of the settle path, and
  the generation gate that keeps a tick in flight from appending after its timer has been
  disarmed.

  A tick reads the log, calls the model, and appends under the entry's lock; the model calls
  take seconds, so a tick is split at the gate: \<open>tick_begin\<close> up to the model's answer and
  \<open>tick_end\<close> from the gate on, with any other operations in between.
\<close>

section \<open>Timers\<close>

definition upd_entry :: "nat \<Rightarrow> (monitorEntry \<Rightarrow> monitorEntry) \<Rightarrow> Monitor \<Rightarrow> Monitor" where
  "upd_entry i f mo = mo\<lparr>mo_entries := (mo_entries mo)[i := f (mo_entries mo ! i)]\<rparr>"

text \<open>A new entry is registered before its anchors are read.\<close>

definition arm_entry :: "string \<Rightarrow> Monitor \<Rightarrow> Monitor" where
  "arm_entry aid mo =
     mo\<lparr>mo_entries := mo_entries mo @
          [\<lparr>e_gen = 0, e_stopped = False, e_hub = aid, e_armTime = 0, e_lastRecAt = 0, e_lastRecTy = []\<rparr>],
        mo_agents := (mo_agents mo)(aid \<mapsto> length (mo_entries mo))\<rparr>"

text \<open>The type of the last record of the current turn, if the log can be read.\<close>

definition window_last_type :: "'s deps \<Rightarrow> string \<Rightarrow> 's AgentManager \<Rightarrow> string option" where
  "window_last_type D aid st =
     (case snapshot D aid st of
        Inl e \<Rightarrow> None
      | Inr evs \<Rightarrow>
          (case currentTurnWindow evs of
             None \<Rightarrow> None
           | Some w \<Rightarrow> if w_events w = [] then None else Some (Type (last (w_events w)))))"

definition Arm :: "'s deps \<Rightarrow> string \<Rightarrow> 's AgentManager \<Rightarrow> 's AgentManager" where
  "Arm D aid st =
     (case monitor st of
        None \<Rightarrow> st
      | Some mo \<Rightarrow>
          if mo_agents mo aid \<noteq> None then st
          else
            let i = length (mo_entries mo);
                (st, now) = ask D o_time CNow (st\<lparr>monitor := Some (arm_entry aid mo)\<rparr>);
                ty = (case window_last_type D aid st of None \<Rightarrow> [] | Some t \<Rightarrow> t)
            in st\<lparr>monitor := Some (upd_entry i
                  (\<lambda>e. e\<lparr>e_lastRecTy := ty, e_armTime := now, e_lastRecAt := now\<rparr>) (arm_entry aid mo))\<rparr>)"

text \<open>\<open>disarm\<close> returns the entry for the settle path.\<close>

definition disarm :: "string \<Rightarrow> Monitor \<Rightarrow> Monitor \<times> nat option" where
  "disarm aid mo =
     (case mo_agents mo aid of
        None \<Rightarrow> (mo, None)
      | Some i \<Rightarrow>
          ((upd_entry i (\<lambda>e. e\<lparr>e_gen := e_gen e + 1, e_stopped := True\<rparr>) mo)
             \<lparr>mo_agents := (mo_agents mo)(aid := None)\<rparr>, Some i))"

definition Disarm :: "string \<Rightarrow> 's AgentManager \<Rightarrow> 's AgentManager" where
  "Disarm aid st =
     (case monitor st of None \<Rightarrow> st | Some mo \<Rightarrow> st\<lparr>monitor := Some (fst (disarm aid mo))\<rparr>)"

definition NoteRecord :: "'s deps \<Rightarrow> string \<Rightarrow> string \<Rightarrow> 's AgentManager \<Rightarrow> 's AgentManager" where
  "NoteRecord D aid recType st =
     (case monitor st of
        None \<Rightarrow> st
      | Some mo \<Rightarrow>
          (case mo_agents mo aid of
             None \<Rightarrow> st
           | Some i \<Rightarrow>
               let (st, now) = ask D o_time CNow st
               in st\<lparr>monitor := Some (upd_entry i
                      (\<lambda>e. e\<lparr>e_lastRecAt := now, e_lastRecTy := recType\<rparr>) mo)\<rparr>))"

section \<open>Assessments\<close>

text \<open>Summarize and classify; a failure of either is counted and yields nothing.\<close>

definition assess_pipeline ::
    "'s deps \<Rightarrow> turn_window \<Rightarrow> TurnTelemetry \<Rightarrow> bool \<Rightarrow> 's AgentManager \<Rightarrow>
     's AgentManager \<times> (string \<times> Verdict) option" where
  "assess_pipeline D w tel terminal st =
     (let transcript = transcriptOf (d_text D) w;
          (st, summary) = ask D o_str (if terminal then CSummarizeTerminal transcript else CSummarize transcript) st
      in case summary of
           Inl e \<Rightarrow> (st\<lparr>skippedTicks := skippedTicks st + 1\<rparr>, None)
         | Inr s \<Rightarrow>
             let (st, verdict) = ask D o_verdict (CClassify (tel\<lparr>t_Summary := s\<rparr>)) st
             in case verdict of
                  Inl e \<Rightarrow> (st\<lparr>skippedTicks := skippedTicks st + 1\<rparr>, None)
                | Inr v \<Rightarrow> (st, Some (s, v)))"

text \<open>The \<open>agent.assessed\<close> event.\<close>

definition publish_assessed ::
    "'s deps \<Rightarrow> string \<Rightarrow> string \<times> Verdict \<Rightarrow> 's AgentManager \<Rightarrow> 's AgentManager" where
  "publish_assessed D aid sv st =
     (let (st, now) = ask D o_time CNow st
      in fst (publish D aid EventTypeAssessed
           [(''agent_id'', JStr aid), (''verdict'', JStr (vd_Verdict (snd sv))),
            (''summary'', JStr (fst sv)), (''confidence'', JStr (vd_Confidence (snd sv))),
            (''reason'', JStr (vd_Reason (snd sv))),
            (''assessed_at'', JStr (Format_RFC3339Nano now))] st))"

text \<open>The telemetry of a tick; the clock is read for each of the two durations.\<close>

definition tick_telemetry :: "go_time \<Rightarrow> go_time \<Rightarrow> monitorEntry \<Rightarrow> turn_window \<Rightarrow> TurnTelemetry" where
  "tick_telemetry now1 now2 e w =
     \<lparr>t_Summary = [], t_Elapsed = time_sub now1 (e_armTime e),
      t_SinceLastRecord = time_sub now2 (e_lastRecAt e), t_LastRecordType = e_lastRecTy e,
      t_RecordCount = length (w_events w), t_TurnPrompt = w_prompt w\<rparr>"

definition tick_begin ::
    "'s deps \<Rightarrow> nat \<Rightarrow> 's AgentManager \<Rightarrow> 's AgentManager \<times> (string \<times> Verdict) option" where
  "tick_begin D i st =
     (case monitor st of
        None \<Rightarrow> (st, None)
      | Some mo \<Rightarrow>
          let e = mo_entries mo ! i in
          (case snapshot D (e_hub e) st of
             Inl _ \<Rightarrow> (st, None)
           | Inr evs \<Rightarrow>
               (case currentTurnWindow evs of
                  None \<Rightarrow> (st, None)
                | Some w \<Rightarrow>
                    let (st, now1) = ask D o_time CNow st;
                        (st, now2) = ask D o_time CNow st
                    in assess_pipeline D w (tick_telemetry now1 now2 e w) False st)))"

text \<open>The gate and the append, under the entry's lock.\<close>

definition tick_end :: "'s deps \<Rightarrow> nat \<Rightarrow> string \<times> Verdict \<Rightarrow> 's AgentManager \<Rightarrow> 's AgentManager" where
  "tick_end D i sv st =
     (case monitor st of
        None \<Rightarrow> st
      | Some mo \<Rightarrow>
          let e = mo_entries mo ! i in
          if e_gen e \<noteq> 0 then st else publish_assessed D (e_hub e) sv st)"

definition tick :: "'s deps \<Rightarrow> nat \<Rightarrow> 's AgentManager \<Rightarrow> 's AgentManager" where
  "tick D i st =
     (case tick_begin D i st of (st, None) \<Rightarrow> st | (st, Some sv) \<Rightarrow> tick_end D i sv st)"

text \<open>The settle path: disarm first, then the terminal assessment with no gate.\<close>

definition SettleAssess :: "'s deps \<Rightarrow> string \<Rightarrow> 's AgentManager \<Rightarrow> 's AgentManager" where
  "SettleAssess D aid st =
     (case monitor st of
        None \<Rightarrow> st
      | Some mo \<Rightarrow>
          (case disarm aid mo of
             (mo, None) \<Rightarrow> st
           | (mo, Some i) \<Rightarrow>
               let st = st\<lparr>monitor := Some mo\<rparr>; e = mo_entries mo ! i in
               (case snapshot D (e_hub e) st of
                  Inl _ \<Rightarrow> st
                | Inr evs \<Rightarrow>
                    (case currentTurnWindow evs of
                       None \<Rightarrow> st
                     | Some w \<Rightarrow>
                         let (st, now) = ask D o_time CNow st in
                         (case assess_pipeline D w (tick_telemetry now now e w) True st of
                            (st, None) \<Rightarrow> st
                          | (st, Some sv) \<Rightarrow> publish_assessed D aid sv st)))))"

end
