(* ===== verification/Agent_Manager.thy ===== *)
theory Agent_Manager
  imports Agent_Monitor
begin

text \<open>
  The agent manager (\<open>controller/agent.go\<close>): creation and its rollback, spawning caps and
  inheritance, prompts, steers and aborts over the daemon or the exec stream, the records
  that end a turn, liveness failures, and the cascading delete.

  A handler returns the new state and its error; the \<open>context\<close> and the log output are left
  out.  The shared daemon client and HTTP transport that only tests set are left out.
\<close>

section \<open>Errors\<close>

text \<open>The sentinel errors, the field errors of a profile, and every other error by its cause.\<close>

datatype mgr_error =
    ErrUnknownAgent string
  | ErrSpawnDepthExceeded string
  | ErrSpawnChildrenExceeded string
  | ErrTurnInFlight string
  | ErrNotReady string agent_status
  | ErrField field_error
  | ErrOutside string
  | ErrStore store_error
  | ErrSession fsm_error
  | ErrStdinFull
  | ErrLedger string

section \<open>The daemon client\<close>

definition daemonFor :: "'s deps \<Rightarrow> string \<Rightarrow> 's AgentManager \<Rightarrow> 's AgentManager \<times> (string + string)" where
  "daemonFor D aid st =
     (case a_daemon (objs st aid) of
        Some dc \<Rightarrow> (st, Inr dc)
      | None \<Rightarrow>
          if \<not> d_resolver D then (st, Inl ''no daemon address resolver configured'')
          else
            (case ask D o_str (CResolveDaemonAddr (a_Sandbox (objs st aid))) st of
               (st, Inl e) \<Rightarrow> (st, Inl e)
             | (st, Inr base) \<Rightarrow> (upd_agent aid (\<lambda>a. a\<lparr>a_daemon := Some base\<rparr>) st, Inr base)))"

definition invalidateDaemon :: "string \<Rightarrow> 's AgentManager \<Rightarrow> 's AgentManager" where
  "invalidateDaemon aid st = upd_agent aid (\<lambda>a. a\<lparr>a_daemon := None\<rparr>) st"

definition preflight :: "'s deps \<Rightarrow> string \<Rightarrow> 's AgentManager \<Rightarrow> 's AgentManager \<times> (string + DaemonStatus)" where
  "preflight D aid st =
     (case daemonFor D aid st of
        (st, Inl e) \<Rightarrow> (st, Inl e)
      | (st, Inr dc) \<Rightarrow> ask D o_status (CStatus dc) st)"

definition noteBootID :: "'s deps \<Rightarrow> string \<Rightarrow> 's AgentManager \<Rightarrow> 's AgentManager" where
  "noteBootID D aid st =
     (case preflight D aid st of
        (st, Inl e) \<Rightarrow> st
      | (st, Inr ds) \<Rightarrow>
          upd_agent aid (\<lambda>a. if a_bootID a = [] then a\<lparr>a_bootID := ds_BootID ds\<rparr> else a) st)"

section \<open>Liveness failure and the end of a turn\<close>

definition fail :: "'s deps \<Rightarrow> string \<Rightarrow> string \<Rightarrow> 's AgentManager \<Rightarrow> 's AgentManager" where
  "fail D aid reason st =
     (if a_status (objs st aid) = StatusFailed \<or> a_status (objs st aid) = StatusTerminated then st
      else
        Disarm aid (fst (publish D aid ''agent.failed''
          [(''agent_id'', JStr aid), (''status'', JStr (agent_status_string StatusFailed)),
           (''reason'', JStr reason)]
          (upd_agent aid (\<lambda>a. a\<lparr>a_status := StatusFailed\<rparr>) st))))"

definition piSettledEventType :: string where "piSettledEventType = ''agent_settled''"

definition onPiRecord :: "'s deps \<Rightarrow> string \<Rightarrow> raw \<Rightarrow> 's AgentManager \<Rightarrow> 's AgentManager" where
  "onPiRecord D aid r st =
     (case unmarshal_str ''type'' r of
        None \<Rightarrow> st
      | Some t \<Rightarrow>
          let st = NoteRecord D aid t st in
          if t \<noteq> piSettledEventType then st
          else if a_status (objs st aid) \<noteq> StatusWorking then st
          else
            fst (transition D aid SessionIdle ''agent.settled'' []
                  (SettleAssess D aid (upd_agent aid (\<lambda>a. a\<lparr>a_status := StatusReady\<rparr>) st))))"

section \<open>Prompts, steers, aborts\<close>

definition stdin_cap :: nat where "stdin_cap = 16"

definition prompt_gate :: "string \<Rightarrow> agent \<Rightarrow> mgr_error option" where
  "prompt_gate aid a =
     (case a_fsm a of
        SessionRunning \<Rightarrow> Some (ErrTurnInFlight aid)
      | SessionReady \<Rightarrow> if a_status a \<noteq> StatusReady then Some (ErrNotReady aid (a_status a)) else None
      | SessionIdle \<Rightarrow> if a_status a \<noteq> StatusReady then Some (ErrNotReady aid (a_status a)) else None
      | _ \<Rightarrow> Some (ErrNotReady aid (a_status a)))"

text \<open>What follows an accepted prompt on both transports.  An error of the transition is
  logged only.\<close>

definition turn_started :: "'s deps \<Rightarrow> string \<Rightarrow> string \<Rightarrow> 's AgentManager \<Rightarrow> 's AgentManager" where
  "turn_started D aid message st =
     Arm D aid (upd_agent aid (\<lambda>a. a\<lparr>a_status := StatusWorking\<rparr>)
       (fst (transition D aid SessionRunning ''agent.turn_started'' [(''prompt'', JStr message)] st)))"

text \<open>A command for the daemon, under a random id.\<close>

definition new_command ::
    "'s deps \<Rightarrow> string \<Rightarrow> raw \<Rightarrow> 's AgentManager \<Rightarrow> 's AgentManager \<times> DaemonCommand" where
  "new_command D ty payload st =
     (case randID D ''cmd'' st of (st, i) \<Rightarrow> (st, \<lparr>dc_ID = i, dc_Type = ty, dc_Payload = payload\<rparr>))"

definition post_message ::
    "'s deps \<Rightarrow> string \<Rightarrow> string \<Rightarrow> string \<Rightarrow> 's AgentManager \<Rightarrow> 's AgentManager \<times> string option" where
  "post_message D dc ty message st =
     (case new_command D ty (RawDoc (JObj [(''message'', JStr message)])) st of
        (st, cmd) \<Rightarrow> ask D o_err (CCommand dc cmd) st)"

definition bump_cmdSeq :: "string \<Rightarrow> 's AgentManager \<Rightarrow> 's AgentManager" where
  "bump_cmdSeq aid st = upd_agent aid (\<lambda>a. a\<lparr>a_cmdSeq := a_cmdSeq a + 1\<rparr>) st"

text \<open>The non-blocking send to the exec stream's channel.\<close>

definition stdin_send :: "string \<Rightarrow> raw \<Rightarrow> 's AgentManager \<Rightarrow> 's AgentManager \<times> bool" where
  "stdin_send aid line st =
     (case a_stdin (objs st aid) of
        None \<Rightarrow> (st, False)
      | Some ch \<Rightarrow>
          if length ch < stdin_cap
          then (upd_agent aid (\<lambda>a. a\<lparr>a_stdin := Some (ch @ [line])\<rparr>) st, True)
          else (st, False))"

definition exec_command :: "string \<Rightarrow> char \<Rightarrow> string \<Rightarrow> string \<Rightarrow> 's AgentManager \<Rightarrow> 's AgentManager \<times> bool" where
  "exec_command aid pre ty message st =
     (let st = upd_agent aid (\<lambda>a. a\<lparr>a_piSeq := a_piSeq a + 1\<rparr>) st;
          n = a_piSeq (objs st aid)
      in stdin_send aid
           (RawDoc (JObj [(''id'', JStr (pre # dec_string (nat n))), (''type'', JStr ty),
                          (''message'', JStr message)])) st)"

definition sendPrompt ::
    "'s deps \<Rightarrow> string \<Rightarrow> string \<Rightarrow> 's AgentManager \<Rightarrow> 's AgentManager \<times> mgr_error option" where
  "sendPrompt D aid message st =
     (let a = objs st aid in
      if a_pullTransport a then
        (case prompt_gate aid a of
           Some e \<Rightarrow> (st, Some e)
         | None \<Rightarrow>
             (case daemonFor D aid st of
                (st, Inl e) \<Rightarrow> (st, Some (ErrOutside e))
              | (st, Inr dc) \<Rightarrow>
                  (case post_message D dc ''prompt'' message (bump_cmdSeq aid st) of
                     (st, Some e) \<Rightarrow> (invalidateDaemon aid st, Some (ErrOutside e))
                   | (st, None) \<Rightarrow> (turn_started D aid message st, None))))
      else if a_stdin a = None then (st, Some (ErrNotReady aid (a_status a)))
      else
        (case prompt_gate aid a of
           Some e \<Rightarrow> (st, Some e)
         | None \<Rightarrow>
             (case exec_command aid (CHR ''p'') ''prompt'' message st of
                (st, False) \<Rightarrow> (st, Some ErrStdinFull)
              | (st, True) \<Rightarrow> (turn_started D aid message st, None))))"

definition Prompt ::
    "'s deps \<Rightarrow> string \<Rightarrow> string \<Rightarrow> 's AgentManager \<Rightarrow> 's AgentManager \<times> mgr_error option" where
  "Prompt D aid message st =
     (if aid \<notin> set (agents st) then (st, Some (ErrUnknownAgent aid)) else sendPrompt D aid message st)"

definition sendSteer ::
    "'s deps \<Rightarrow> string \<Rightarrow> string \<Rightarrow> 's AgentManager \<Rightarrow> 's AgentManager \<times> mgr_error option" where
  "sendSteer D aid message st =
     (let a = objs st aid in
      if a_pullTransport a then
        (if a_fsm a \<noteq> SessionRunning \<or> a_status a \<noteq> StatusWorking then (st, Some (ErrNotReady aid (a_status a)))
         else
           (case daemonFor D aid st of
              (st, Inl e) \<Rightarrow> (st, Some (ErrOutside e))
            | (st, Inr dc) \<Rightarrow>
                (case post_message D dc ''steer'' message (bump_cmdSeq aid st) of
                   (st, Some e) \<Rightarrow> (st, Some (ErrOutside e))
                 | (st, None) \<Rightarrow> (st, None))))
      else if a_stdin a = None then (st, Some (ErrNotReady aid (a_status a)))
      else if a_fsm a \<noteq> SessionRunning \<or> a_status a \<noteq> StatusWorking then (st, Some (ErrNotReady aid (a_status a)))
      else
        (case exec_command aid (CHR ''s'') ''steer'' message st of
           (st, False) \<Rightarrow> (st, Some ErrStdinFull)
         | (st, True) \<Rightarrow> (st, None)))"

definition Steer ::
    "'s deps \<Rightarrow> string \<Rightarrow> string \<Rightarrow> 's AgentManager \<Rightarrow> 's AgentManager \<times> mgr_error option" where
  "Steer D aid message st =
     (if aid \<notin> set (agents st) then (st, Some (ErrUnknownAgent aid)) else sendSteer D aid message st)"

text \<open>The status is checked before and again under the lock; no step separates the two here.\<close>

definition Abort :: "'s deps \<Rightarrow> string \<Rightarrow> 's AgentManager \<Rightarrow> 's AgentManager \<times> mgr_error option" where
  "Abort D aid st =
     (if aid \<notin> set (agents st) then (st, Some (ErrUnknownAgent aid))
      else
        let a = objs st aid in
        if a_status a \<noteq> StatusWorking then (st, Some (ErrNotReady aid (a_status a)))
        else if a_pullTransport a then
          (case new_command D ''abort'' (RawBad []) (bump_cmdSeq aid st) of
             (st, cmd) \<Rightarrow>
               (case daemonFor D aid st of
                  (st, Inl e) \<Rightarrow> (st, Some (ErrOutside e))
                | (st, Inr dc) \<Rightarrow>
                    (case ask D o_err (CCommand dc cmd) st of
                       (st, Some e) \<Rightarrow> (invalidateDaemon aid st, Some (ErrOutside e))
                     | (st, None) \<Rightarrow> (st, None))))
        else if a_stdin a = None then (st, Some (ErrNotReady aid (a_status a)))
        else
          (case stdin_send aid (RawDoc (JObj [(''type'', JStr ''abort'')])) st of
             (st, True) \<Rightarrow> (st, None)
           | (st, False) \<Rightarrow> (st, Some ErrStdinFull)))"

end
