(* ===== verification/Agent_Lifecycle.thy ===== *)
theory Agent_Lifecycle
  imports Agent_Manager
begin

text \<open>
  The life of an agent (\<open>controller/agent.go\<close>): the spawning caps and the inheritance of a
  parent's profile, \<open>Create\<close> with its rollbacks, the exec stream's pumps, and \<open>Delete\<close>
  with the cascade over the spawned subtree.
\<close>

section \<open>Spawning\<close>

definition owned :: "sandbox_info \<Rightarrow> bool" where
  "owned info \<longleftrightarrow> label_of info LabelManagedBy = ManagedByValue \<and> label_of info LabelAgentID \<noteq> []"

definition resolveParent :: "string \<Rightarrow> 's AgentManager \<Rightarrow> mgr_error + agent option" where
  "resolveParent parentID st =
     (if parentID = [] then Inr None
      else case mgr_Get parentID st of
        None \<Rightarrow> Inl (ErrField (FieldError ''parent_id''))
      | Some a \<Rightarrow>
          if a_status a = StatusTerminated then Inl (ErrField (FieldError ''parent_id''))
          else Inr (Some a))"

text \<open>The walk over the ancestors: it stops at a root, at a parent that is not registered, and
  at a parent it has seen.\<close>

function depth_walk :: "string list \<Rightarrow> (string \<Rightarrow> agent) \<Rightarrow> string set \<Rightarrow> agent \<Rightarrow> nat \<Rightarrow> nat" where
  "depth_walk regs ob seen cur depth =
     (if a_ParentID cur = [] then depth
      else if a_ParentID cur \<in> seen then depth
      else if a_ParentID cur \<notin> set regs then depth
      else depth_walk regs ob (insert (a_ParentID cur) seen) (ob (a_ParentID cur)) (depth + 1))"
  by pat_completeness auto
termination
proof (relation "measure (\<lambda>(regs, ob, seen, cur, depth). card (set regs - seen))", goal_cases)
  case (2 regs ob seen cur depth)
  then have "a_ParentID cur \<in> set regs - seen" by simp
  then have "card (set regs - insert (a_ParentID cur) seen) < card (set regs - seen)"
    by (metis Diff_insert card_Diff1_less finite_Diff finite_set)
  then show ?case by simp
qed simp

declare depth_walk.simps [simp del]

definition agent_Depth :: "agent \<Rightarrow> 's AgentManager \<Rightarrow> nat" where
  "agent_Depth a st = depth_walk (agents st) (objs st) {a_ID a} a 0"

definition childCount :: "'s deps \<Rightarrow> string \<Rightarrow> 's AgentManager \<Rightarrow> 's AgentManager \<times> nat" where
  "childCount D parentID st =
     (case ask D o_sandboxes (CListSandboxes (LabelParentAgentID @ ''='' @ parentID)) st of
        (st, Inr infos) \<Rightarrow> (st, length (filter owned infos))
      | (st, Inl e) \<Rightarrow> (st, length (filter (\<lambda>i. a_ParentID (objs st i) = parentID) (agents st))))"

definition checkSpawnCaps ::
    "'s deps \<Rightarrow> string \<Rightarrow> agent option \<Rightarrow> 's AgentManager \<Rightarrow> 's AgentManager \<times> mgr_error option" where
  "checkSpawnCaps D parentID parent st =
     (case parent of
        None \<Rightarrow> (st, None)
      | Some p \<Rightarrow>
          if int (agent_Depth p st) + 1 > SpawnMaxDepth (d_cfg D) then (st, Some (ErrSpawnDepthExceeded parentID))
          else
            (case childCount D parentID st of (st, n) \<Rightarrow>
               if int n \<ge> SpawnMaxChildren (d_cfg D) then (st, Some (ErrSpawnChildrenExceeded parentID))
               else (st, None)))"

definition inheritProfile :: "create_profile \<Rightarrow> resolved_profile \<Rightarrow> create_profile" where
  "inheritProfile p parent =
     p\<lparr>p_Image := (if p_Image p = [] then r_Image parent else p_Image p),
       p_Model := (if p_Model p = [] then r_Model parent else p_Model p),
       p_Resources := (case p_Resources p of None \<Rightarrow> Some (r_Resources parent) | Some r \<Rightarrow> Some r)\<rparr>"

definition PiSessionID :: "string \<Rightarrow> string" where
  "PiSessionID aid = ''kape-'' @ trim_prefix aid ''agent-''"

section \<open>Creation\<close>

definition rollbackSandbox :: "'s deps \<Rightarrow> string \<Rightarrow> 's AgentManager \<Rightarrow> 's AgentManager" where
  "rollbackSandbox D name st =
     fst (ask D o_err (CDeleteSandbox name) (fst (ask D o_err (CWithdrawDaemon name) st)))"

text \<open>Ten minutes of polling every two seconds; a clock that does not reach the deadline keeps
  the loop going (\<open>None\<close>).\<close>

partial_function (option) waitReady ::
    "'s deps \<Rightarrow> string \<Rightarrow> go_time \<Rightarrow> 's AgentManager \<Rightarrow> ('s AgentManager \<times> mgr_error option) option" where
  "waitReady D sandbox deadline st =
     (case ask D o_phase (CGetSandboxPhase sandbox) st of
        (st, Inl e) \<Rightarrow> Some (st, Some (ErrOutside e))
      | (st, Inr phase) \<Rightarrow>
          if phase = PhaseReady then Some (st, None)
          else if phase = PhaseError then Some (st, Some (ErrOutside ''terminal phase''))
          else
            (case ask D o_time CNow st of (st, now) \<Rightarrow>
               if now > deadline then Some (st, Some (ErrOutside ''timeout''))
               else
                 (case ask D o_live (CSleep (2 * second)) st of
                    (st, _) \<Rightarrow> waitReady D sandbox deadline st)))"

definition startPi :: "'s deps \<Rightarrow> string \<Rightarrow> string \<Rightarrow> 's AgentManager \<Rightarrow> 's AgentManager \<times> mgr_error option" where
  "startPi D aid model st =
     (case ask D o_err (CStartPi (a_Sandbox (objs st aid)) model) st of
        (st, Some e) \<Rightarrow> (st, Some (ErrOutside e))
      | (st, None) \<Rightarrow> (upd_agent aid (\<lambda>a. a\<lparr>a_stdin := Some []\<rparr>) st, None))"

text \<open>The provisioning payload of the log.\<close>

definition provision_payload :: "agent \<Rightarrow> agent option \<Rightarrow> (string \<times> json) list" where
  "provision_payload a parent =
     [(''agent_id'', JStr (a_ID a)), (''status'', JStr (agent_status_string StatusCreating)),
      (''sandbox'', JStr (a_Sandbox a)), (''created'', JStr (Format_RFC3339Nano (a_Created a))),
      (''image'', JStr (r_Image (a_resolved a))), (''provider'', JStr (r_Provider (a_resolved a))),
      (''model'', JStr (r_Model (a_resolved a))), (''cpu'', JStr (CPU (r_Resources (a_resolved a)))),
      (''memory'', JStr (Memory (r_Resources (a_resolved a))))] @
     (case parent of None \<Rightarrow> [] | Some p \<Rightarrow> [(''parent'', JStr (a_ID p))])"

definition new_agent ::
    "string \<Rightarrow> go_time \<Rightarrow> string \<Rightarrow> resolved_profile \<Rightarrow> event_hub \<Rightarrow> agent" where
  "new_agent aid created parentID resolved h =
     \<lparr>a_ID = aid, a_Sandbox = r_Name resolved, a_Created = created, a_ParentID = parentID,
      a_resolved = resolved, a_status = StatusCreating, a_piSeq = 0, a_replayedOnly = False,
      a_bootID = [], a_degraded = False, a_pendingRevive = False, a_hub = h, a_fsm = SessionProvision,
      a_stdin = None, a_stdinClosed = False, a_daemon = None, a_pullTransport = False, a_cmdSeq = 0,
      a_cancelled = False\<rparr>"

text \<open>The last part: the transport, the registration and the start of the session, whose failure
  takes the agent out of the registry again.\<close>

definition Create_start ::
    "'s deps \<Rightarrow> string \<Rightarrow> 's AgentManager \<Rightarrow> 's AgentManager \<times> (mgr_error + string)" where
  "Create_start D aid st =
     (let name = a_Sandbox (objs st aid) in
      case (if Transport (d_cfg D) = TransportPull
            then (noteBootID D aid (upd_agent aid (\<lambda>a. a\<lparr>a_pullTransport := True\<rparr>) st), None)
            else startPi D aid (r_Model (a_resolved (objs st aid))) st) of
        (st, Some e) \<Rightarrow> (rollbackSandbox D name st, Inl e)
      | (st, None) \<Rightarrow>
          (case transition D aid SessionReady ''agent.started'' [] (st\<lparr>agents := agents st @ [aid]\<rparr>) of
             (st, Some e) \<Rightarrow>
               let st = upd_agent aid (\<lambda>a. a\<lparr>a_cancelled := True, a_status := StatusTerminated,
                          a_stdinClosed := (a_stdin a \<noteq> None), a_hub := hub_Close (a_hub a)\<rparr>) st
               in (rollbackSandbox D name (st\<lparr>agents := filter (\<lambda>i. i \<noteq> aid) (agents st)\<rparr>), Inl (ErrSession e))
           | (st, None) \<Rightarrow> (upd_agent aid (\<lambda>a. a\<lparr>a_status := StatusReady\<rparr>) st, Inr aid)))"

text \<open>A gateway call whose failure rolls the sandbox back.\<close>

definition or_rollback ::
    "'s deps \<Rightarrow> string \<Rightarrow> call \<Rightarrow> ('s AgentManager \<Rightarrow> 's AgentManager \<times> (mgr_error + string)) \<Rightarrow>
     's AgentManager \<Rightarrow> 's AgentManager \<times> (mgr_error + string)" where
  "or_rollback D name c k st =
     (case ask D o_err c st of
        (st, Some e) \<Rightarrow> (rollbackSandbox D name st, Inl (ErrOutside e))
      | (st, None) \<Rightarrow> k st)"

definition Create_provision ::
    "'s deps \<Rightarrow> string \<Rightarrow> agent option \<Rightarrow> 's AgentManager \<Rightarrow> 's AgentManager \<times> (mgr_error + string)" where
  "Create_provision D aid parent st =
     (let a = objs st aid; name = a_Sandbox a; cfg = d_cfg D;
          policies = (\<lambda>st.
            or_rollback D name (CApplyModelGatewayPolicy name)
              (or_rollback D name (CApplyControllerEgressDeny name (ControllerServiceHost cfg) (ControllerServicePort cfg))
                (Create_start D aid))
              (fst (publish D aid ''agent.provisioned'' (provision_payload a parent) st)))
      in if Transport cfg = TransportPull then or_rollback D name (CExposeDaemon name) policies st
         else policies st)"

definition Create ::
    "'s deps \<Rightarrow> create_profile option \<Rightarrow> 's AgentManager \<Rightarrow> ('s AgentManager \<times> (mgr_error + string)) option" where
  "Create D mp st =
     (let profile = (case mp of None \<Rightarrow> empty_profile | Some p \<Rightarrow> p); parentID = p_ParentID profile in
      case resolveParent parentID st of
        Inl e \<Rightarrow> Some (st, Inl e)
      | Inr parent \<Rightarrow>
          (case checkSpawnCaps D parentID parent st of
             (st, Some e) \<Rightarrow> Some (st, Inl e)
           | (st, None) \<Rightarrow>
               let profile = (case parent of None \<Rightarrow> profile | Some p \<Rightarrow> inheritProfile profile (a_resolved p)) in
               (case ResolveProfile (d_cfg D) (Some profile) of
                  Inl e \<Rightarrow> Some (st, Inl (ErrField e))
                | Inr resolved \<Rightarrow>
                    let (st, aid) = randID D ''agent'' st;
                        resolved = (if r_Name resolved = [] then resolved\<lparr>r_Name := ''sbx-'' @ drop 6 aid\<rparr> else resolved);
                        name = r_Name resolved in
                    (case NewEventHub (d_store D) aid (store st) of
                       Inl e \<Rightarrow> Some (st, Inl (ErrStore e))
                     | Inr h \<Rightarrow>
                         let (st, now) = ask D o_time CNow st;
                             st = upd_agent aid (\<lambda>_. new_agent aid now parentID resolved h) st;
                             labels = [(LabelManagedBy, ManagedByValue), (LabelAgentID, aid)] @
                               (case parent of None \<Rightarrow> [] | Some p \<Rightarrow> [(LabelParentAgentID, a_ID p)]) in
                         (case ask D o_err (CCreateSandbox name (r_Image resolved) (r_Provider resolved)
                                 (r_Resources resolved) labels (PiSessionID aid)) st of
                            (st, Some e) \<Rightarrow> Some (st, Inl (ErrOutside e))
                          | (st, None) \<Rightarrow>
                              (case ask D o_time CNow st of (st, now) \<Rightarrow>
                               (case waitReady D name (now + 600 * second) st of
                                  None \<Rightarrow> None
                                | Some (st, Some e) \<Rightarrow> Some (rollbackSandbox D name st, Inl e)
                                | Some (st, None) \<Rightarrow> Some (Create_provision D aid parent st))))))))"

section \<open>The exec stream\<close>

text \<open>What the exec stream delivers: the end of the stream, output, an exit code, or a payload of
  another type.\<close>

datatype exec_event = ExecEnd string | ExecStdout string | ExecStderr string | ExecExit int | ExecOther

fun drop_cr :: "string \<Rightarrow> string" where
  "drop_cr (c # d # s) =
     (if c = CHR 0x0D \<and> d = CHR 0x0A then d # drop_cr s else c # drop_cr (d # s))"
| "drop_cr s = s"

fun split_lf :: "string \<Rightarrow> string list" where
  "split_lf [] = [[]]"
| "split_lf (c # s) = (if c = CHR 0x0A then [] # split_lf s else (case split_lf s of l # ls \<Rightarrow> (c # l) # ls | [] \<Rightarrow> [[c]]))"

definition splitLines :: "string \<Rightarrow> string list" where
  "splitLines data = split_lf (drop_cr data)"

text \<open>A line that is not JSON is published wrapped.\<close>

definition stdout_line :: "'s deps \<Rightarrow> string \<Rightarrow> string \<Rightarrow> 's AgentManager \<Rightarrow> 's AgentManager" where
  "stdout_line D aid line st =
     (let l = TrimSpace line in
      if l = [] then st
      else
        let r = (if json_valid (d_json D l) then d_json D l
                 else RawDoc (JObj [(''data'', JStr l), (''type'', JStr ''raw'')]))
        in onPiRecord D aid r (publish_raw D aid r st))"

text \<open>One turn of the stdout pump; the second result says whether the pump goes on.\<close>

definition stdoutPump :: "'s deps \<Rightarrow> string \<Rightarrow> exec_event \<Rightarrow> 's AgentManager \<Rightarrow> 's AgentManager \<times> bool" where
  "stdoutPump D aid ev st =
     (case ev of
        ExecEnd e \<Rightarrow>
          (fail D aid (''exec stream ended: '' @ e) (upd_agent aid (\<lambda>a. a\<lparr>a_cancelled := True\<rparr>) st), False)
      | ExecStdout data \<Rightarrow> (foldl (\<lambda>st line. stdout_line D aid line st) st (splitLines data), True)
      | ExecStderr txt \<Rightarrow>
          (publish_raw D aid (RawDoc (JObj [(''data'', JStr txt), (''type'', JStr ''stderr'')])) st, True)
      | ExecExit code \<Rightarrow>
          let st = publish_raw D aid (RawDoc (JObj [(''exit_code'', JNum (of_int code)), (''type'', JStr ''exec_exit'')])) st
          in if code \<noteq> 0
             then (fail D aid ''pi exited with a code'' (upd_agent aid (\<lambda>a. a\<lparr>a_cancelled := True\<rparr>) st), False)
             else (st, True)
      | ExecOther \<Rightarrow> (st, True))"

text \<open>One tick of the phase poll.\<close>

definition phasePoll :: "'s deps \<Rightarrow> string \<Rightarrow> 's AgentManager \<Rightarrow> 's AgentManager \<times> bool" where
  "phasePoll D aid st =
     (case ask D o_phase (CGetSandboxPhase (a_Sandbox (objs st aid))) st of
        (st, Inl e) \<Rightarrow> (st, True)
      | (st, Inr phase) \<Rightarrow>
          if phase = PhaseError then (fail D aid ''sandbox phase ERROR'' st, False) else (st, True))"

section \<open>Deletion\<close>

definition deleteOne :: "'s deps \<Rightarrow> string \<Rightarrow> 's AgentManager \<Rightarrow> 's AgentManager \<times> mgr_error option" where
  "deleteOne D aid st =
     (if aid \<notin> set (agents st) then (st, Some (ErrUnknownAgent aid))
      else
        let st = st\<lparr>agents := filter (\<lambda>i. i \<noteq> aid) (agents st)\<rparr>;
            st = upd_agent aid (\<lambda>a. a\<lparr>a_cancelled := True, a_status := StatusTerminated,
                   a_stdinClosed := (a_stdin a \<noteq> None)\<rparr>) st;
            st = fst (transition D aid SessionTerminated ''agent.terminated'' [] st);
            st = upd_agent aid (\<lambda>a. a\<lparr>a_hub := hub_Close (a_hub a)\<rparr>) (Disarm aid st);
            name = a_Sandbox (objs st aid);
            st = fst (ask D o_err (CWithdrawDaemon name) st)
        in (case ask D o_err (CDeleteSandbox name) st of
              (st, Some e) \<Rightarrow> (st, Some (ErrOutside e))
            | (st, None) \<Rightarrow> (st, None)))"

text \<open>Children known to the gateway only.\<close>

fun delete_sandboxes :: "'s deps \<Rightarrow> sandbox_info list \<Rightarrow> 's AgentManager \<Rightarrow> 's AgentManager" where
  "delete_sandboxes D [] st = st"
| "delete_sandboxes D (info # infos) st =
     delete_sandboxes D infos
       (if owned info \<and> label_of info LabelAgentID \<notin> set (agents st)
        then fst (ask D o_err (CDeleteSandbox (si_Name info)) st) else st)"

definition delete_cr_children :: "'s deps \<Rightarrow> string \<Rightarrow> 's AgentManager \<Rightarrow> 's AgentManager" where
  "delete_cr_children D aid st =
     (case ask D o_sandboxes (CListSandboxes (LabelParentAgentID @ ''='' @ aid)) st of
        (st, Inl e) \<Rightarrow> st
      | (st, Inr infos) \<Rightarrow> delete_sandboxes D infos st)"

definition children_of :: "'s AgentManager \<Rightarrow> string \<Rightarrow> string list" where
  "children_of st aid = sort_Strings (filter (\<lambda>i. a_ParentID (objs st i) = aid) (agents st))"

text \<open>The cascade; the first argument bounds the depth of the recursion, and \<open>None\<close> says that
  the bound was too small.\<close>

fun deleteCascade ::
    "nat \<Rightarrow> 's deps \<Rightarrow> string \<Rightarrow> string set \<Rightarrow> 's AgentManager \<Rightarrow>
     (string set \<times> 's AgentManager \<times> mgr_error option) option"
  and deleteChildren ::
    "nat \<Rightarrow> 's deps \<Rightarrow> string list \<Rightarrow> mgr_error option \<Rightarrow> string set \<Rightarrow> 's AgentManager \<Rightarrow>
     (string set \<times> 's AgentManager \<times> mgr_error option) option" where
  "deleteCascade 0 D aid visited st = None"
| "deleteCascade (Suc n) D aid visited st =
     (if aid \<in> visited then Some (visited, st, None)
      else
        (case deleteChildren n D (children_of st aid) None (insert aid visited) st of
           None \<Rightarrow> None
         | Some (visited, st, firstErr) \<Rightarrow>
             (case deleteOne D aid (delete_cr_children D aid st) of
                (st, err) \<Rightarrow> Some (visited, st, if firstErr = None then err else firstErr))))"
| "deleteChildren n D [] firstErr visited st = Some (visited, st, firstErr)"
| "deleteChildren n D (c # cs) firstErr visited st =
     (case deleteCascade n D c visited st of
        None \<Rightarrow> None
      | Some (visited, st, err) \<Rightarrow>
          deleteChildren n D cs (if firstErr = None then err else firstErr) visited st)"

text \<open>\<open>m.Delete\<close>: the bound is the number of registered agents and two, for the agent itself
  and for the level at which the recursion meets a visited one.\<close>

definition Delete :: "'s deps \<Rightarrow> string \<Rightarrow> 's AgentManager \<Rightarrow> ('s AgentManager \<times> mgr_error option) option" where
  "Delete D aid st =
     map_option (\<lambda>(_, st, err). (st, err)) (deleteCascade (length (agents st) + 2) D aid {} st)"

end
