(* ===== verification/Agent_Revive.thy ===== *)
theory Agent_Revive
  imports Agent_Lifecycle
begin

text \<open>
  The pull loop of an agent (\<open>controller/puller.go\<close>) and the revive of a session whose
  sandbox died (\<open>controller/revive.go\<close>): the batch append, the reconnect preflight and
  death detection, the drain, the budgeted and cooldown-paced attempts of the revive ledger,
  the hold for the replacement daemon, the completion on its first pull, and the re-arm verb
  \<open>Resume\<close>.

  A loop that may wait for ever is a \<open>partial_function (option)\<close> with the value \<open>None\<close> when
  it does not end; the pull loop itself is given by one turn of it, \<open>puller_step\<close>.
\<close>

section \<open>The ledger on the durable log\<close>

definition reviveLedgerOf :: "'s deps \<Rightarrow> string \<Rightarrow> 's AgentManager \<Rightarrow> reviveLedger \<times> event list" where
  "reviveLedgerOf D aid st =
     (case snapshot D aid st of
        Inl e \<Rightarrow> (zero_ledger\<lparr>used := 2 ^ 30\<rparr>, [])
      | Inr evs \<Rightarrow> (reviveLedgerFromEvents evs, evs))"

definition recordDaemonBoot :: "'s deps \<Rightarrow> string \<Rightarrow> DaemonStatus \<Rightarrow> 's AgentManager \<Rightarrow> 's AgentManager" where
  "recordDaemonBoot D aid ds st =
     fst (publish D aid daemonBootEventType
       [(''agent_id'', JStr aid), (''boot_id'', JStr (ds_BootID ds)), (''pi_running'', JBool (ds_PiRunning ds))] st)"

definition recordBootOnce :: "'s deps \<Rightarrow> string \<Rightarrow> DaemonStatus \<Rightarrow> 's AgentManager \<Rightarrow> 's AgentManager" where
  "recordBootOnce D aid ds st =
     (if ds_BootID ds = [] then st
      else case snapshot D aid st of
        Inl e \<Rightarrow> st
      | Inr evs \<Rightarrow> if ds_BootID ds \<noteq> lastRecordedBootID evs then recordDaemonBoot D aid ds st else st)"

definition recordReviveConsumed :: "'s deps \<Rightarrow> string \<Rightarrow> int \<Rightarrow> 's AgentManager \<Rightarrow> 's AgentManager \<times> bool" where
  "recordReviveConsumed D aid attempt st =
     (case ask D o_time CNow st of (st, now) \<Rightarrow>
        case publish D aid reviveConsumedEventType
          [(''agent_id'', JStr aid), (''attempt'', JNum (of_int attempt)),
           (''at'', JStr (Format_RFC3339Nano now))] st of
          (st, ev) \<Rightarrow> (st, ev \<noteq> None))"

definition recordReviveAbandoned :: "'s deps \<Rightarrow> string \<Rightarrow> int \<Rightarrow> string \<Rightarrow> 's AgentManager \<Rightarrow> 's AgentManager" where
  "recordReviveAbandoned D aid attempt reason st =
     fst (publish D aid reviveAbandonedEventType
       [(''agent_id'', JStr aid), (''attempt'', JNum (of_int attempt)), (''reason'', JStr reason)] st)"

section \<open>Boot identities and flags\<close>

definition bootIDChanged :: "string \<Rightarrow> string \<Rightarrow> 's AgentManager \<Rightarrow> 's AgentManager \<times> bool" where
  "bootIDChanged aid bootID st =
     (let prior = a_bootID (objs st aid); st = upd_agent aid (\<lambda>a. a\<lparr>a_bootID := bootID\<rparr>) st in
      if prior = [] \<or> bootID = [] \<or> bootID = prior then (st, False) else (st, True))"

definition setBootID :: "string \<Rightarrow> string \<Rightarrow> 's AgentManager \<Rightarrow> 's AgentManager" where
  "setBootID aid bootID st = upd_agent aid (\<lambda>a. a\<lparr>a_bootID := bootID\<rparr>) st"

definition setDegraded :: "string \<Rightarrow> bool \<Rightarrow> 's AgentManager \<Rightarrow> 's AgentManager" where
  "setDegraded aid v st = upd_agent aid (\<lambda>a. a\<lparr>a_degraded := v\<rparr>) st"

definition armPendingRevive :: "string \<Rightarrow> 's AgentManager \<Rightarrow> 's AgentManager" where
  "armPendingRevive aid st = upd_agent aid (\<lambda>a. a\<lparr>a_pendingRevive := True\<rparr>) st"

section \<open>Pausing and spending\<close>

definition pauseSession :: "'s deps \<Rightarrow> string \<Rightarrow> string \<Rightarrow> 's AgentManager \<Rightarrow> 's AgentManager \<times> bool" where
  "pauseSession D aid reason st =
     (case transition D aid SessionPaused lifecyclePaused [(''reason'', JStr reason)] st of
        (st, Some e) \<Rightarrow> (st, False)
      | (st, None) \<Rightarrow> (fail D aid (''sandbox death: '' @ reason) st, True))"

text \<open>The cooldown is slept outside the lock; after it the ledger is read again.\<close>

partial_function (option) consumeReviveAttempt ::
    "'s deps \<Rightarrow> string \<Rightarrow> 's AgentManager \<Rightarrow> ('s AgentManager \<times> reviveLedger \<times> bool) option" where
  "consumeReviveAttempt D aid st =
     (let led = fst (reviveLedgerOf D aid st) in
      if remaining led (ReviveMax (d_cfg D)) \<le> 0 then Some (st, led, False)
      else
        (case ask D o_time CNow st of (st, now) \<Rightarrow>
           let d = cooldownRemaining led now (ReviveCooldown (d_cfg D)) in
           if d \<le> 0 then
             (case recordReviveConsumed D aid (used led + 1) st of (st, ok) \<Rightarrow> Some (st, led, ok))
           else
             (case ask D o_live (CSleep d) st of (st, awake) \<Rightarrow>
                if \<not> awake then Some (st, led, False) else consumeReviveAttempt D aid st)))"

definition revivePollInterval :: int where "revivePollInterval = 500000000"

definition defaultReviveWaitDeadline :: int where "defaultReviveWaitDeadline = 600 * second"

partial_function (option) replacement_loop ::
    "'s deps \<Rightarrow> string \<Rightarrow> go_time \<Rightarrow> 's AgentManager \<Rightarrow> ('s AgentManager \<times> DaemonStatus option) option" where
  "replacement_loop D aid deadline st =
     (case preflight D aid st of
        (st, Inr ds) \<Rightarrow> Some (st, Some ds)
      | (st, Inl e) \<Rightarrow>
          (case ask D o_time CNow (invalidateDaemon aid st) of (st, now) \<Rightarrow>
             if \<not> now < deadline then Some (st, None)
             else
               (case ask D o_live (CSleep revivePollInterval) st of (st, awake) \<Rightarrow>
                  if \<not> awake then Some (st, None) else replacement_loop D aid deadline st)))"

definition waitForReplacementDaemon ::
    "'s deps \<Rightarrow> string \<Rightarrow> 's AgentManager \<Rightarrow> ('s AgentManager \<times> DaemonStatus option) option" where
  "waitForReplacementDaemon D aid st =
     (case ask D o_time CNow st of (st, now) \<Rightarrow>
        replacement_loop D aid (now + defaultReviveWaitDeadline) st)"

definition hold_reason :: string where
  "hold_reason = ''replacement daemon not reachable within the hold deadline''"

text \<open>What follows a replacement daemon that answered.\<close>

definition replacement_up :: "'s deps \<Rightarrow> string \<Rightarrow> DaemonStatus \<Rightarrow> 's AgentManager \<Rightarrow> 's AgentManager" where
  "replacement_up D aid ds st = armPendingRevive aid (setBootID aid (ds_BootID ds) (recordBootOnce D aid ds st))"

text \<open>The second result says that the puller must stop.\<close>

definition pauseAndRevive :: "'s deps \<Rightarrow> string \<Rightarrow> 's AgentManager \<Rightarrow> ('s AgentManager \<times> bool) option" where
  "pauseAndRevive D aid st =
     (case pauseSession D aid ''sandbox death detected (new boot_id)'' st of
        (st, False) \<Rightarrow> Some (st, True)
      | (st, True) \<Rightarrow>
          (case consumeReviveAttempt D aid st of
             None \<Rightarrow> None
           | Some (st, led, False) \<Rightarrow> Some (st, True)
           | Some (st, led, True) \<Rightarrow>
               (case waitForReplacementDaemon D aid st of
                  None \<Rightarrow> None
                | Some (st, None) \<Rightarrow> Some (recordReviveAbandoned D aid (used led + 1) hold_reason st, True)
                | Some (st, Some ds) \<Rightarrow> Some (replacement_up D aid ds st, False))))"

text \<open>The second result says that the pull loop is started.\<close>

definition holdAndResumePuller :: "'s deps \<Rightarrow> string \<Rightarrow> 's AgentManager \<Rightarrow> ('s AgentManager \<times> bool) option" where
  "holdAndResumePuller D aid st =
     (let led = fst (reviveLedgerOf D aid st) in
      case waitForReplacementDaemon D aid st of
        None \<Rightarrow> None
      | Some (st, None) \<Rightarrow> Some (recordReviveAbandoned D aid (used led) hold_reason st, False)
      | Some (st, Some ds) \<Rightarrow> Some (replacement_up D aid ds st, True))"

definition reviveFromPaused :: "'s deps \<Rightarrow> string \<Rightarrow> 's AgentManager \<Rightarrow> ('s AgentManager \<times> bool) option" where
  "reviveFromPaused D aid st =
     (let led = fst (reviveLedgerOf D aid st) in
      if \<not> openAttempt led then
        (case consumeReviveAttempt D aid st of
           None \<Rightarrow> None
         | Some (st, _, False) \<Rightarrow> Some (st, False)
         | Some (st, _, True) \<Rightarrow> holdAndResumePuller D aid st)
      else holdAndResumePuller D aid st)"

section \<open>Completion and re-arm\<close>

definition completeRevive :: "'s deps \<Rightarrow> string \<Rightarrow> 's AgentManager \<Rightarrow> 's AgentManager" where
  "completeRevive D aid st =
     (let pending = a_pendingRevive (objs st aid);
          st = upd_agent aid (\<lambda>a. a\<lparr>a_pendingRevive := False\<rparr>) st in
      if pending \<and> a_fsm (objs st aid) = SessionPaused then
        (case transition D aid SessionRunning lifecycleRevived [] st of
           (st, Some e) \<Rightarrow> st
         | (st, None) \<Rightarrow>
             upd_agent aid (\<lambda>a. a\<lparr>a_status := StatusReady\<rparr>)
               (fst (transition D aid SessionIdle lifecycleSettled [(''revive_settled'', JBool True)] st)))
      else st)"

text \<open>The third result says that \<open>holdAndResumePuller\<close> is started.\<close>

definition Resume :: "'s deps \<Rightarrow> string \<Rightarrow> 's AgentManager \<Rightarrow> 's AgentManager \<times> mgr_error option \<times> bool" where
  "Resume D aid st =
     (if aid \<notin> set (agents st) then (st, Some (ErrUnknownAgent aid), False)
      else if a_fsm (objs st aid) \<noteq> SessionPaused then (st, Some (ErrNotReady aid (a_status (objs st aid))), False)
      else
        let led = fst (reviveLedgerOf D aid st) in
        if openAttempt led then (st, Some (ErrNotReady aid (a_status (objs st aid))), False)
        else
          (case publish D aid agentResumedEventType [(''agent_id'', JStr aid)] st of
             (st, None) \<Rightarrow> (st, Some (ErrLedger ''re-arm''), False)
           | (st, Some ev) \<Rightarrow>
               if a_pullTransport (objs st aid) then
                 (case recordReviveConsumed D aid (used led + 1) st of
                    (st, False) \<Rightarrow> (st, Some (ErrLedger ''revive attempt''), False)
                  | (st, True) \<Rightarrow> (upd_agent aid (\<lambda>a. a\<lparr>a_cancelled := False\<rparr>) st, None, True))
               else (st, None, False)))"

section \<open>The pull loop\<close>

definition daemonPullWait :: int where "daemonPullWait = 25 * second"

definition pullBackoffBase :: int where "pullBackoffBase = 1 * second"

definition pullBackoffCap :: int where "pullBackoffCap = 30 * second"

definition degradedFailureThreshold :: int where "degradedFailureThreshold = 2"

record puller =
  pl_backoff :: int
  pl_failures :: int
  pl_pendingDeath :: bool

definition new_puller :: puller where
  "new_puller = \<lparr>pl_backoff = pullBackoffBase, pl_failures = 0, pl_pendingDeath = False\<rparr>"

text \<open>The drain appends what is on the spool until a read returns nothing.\<close>

fun drain_batch :: "'s deps \<Rightarrow> string \<Rightarrow> (u64 \<times> raw) list \<Rightarrow> 's AgentManager \<Rightarrow> 's AgentManager \<times> bool" where
  "drain_batch D aid [] st = (st, True)"
| "drain_batch D aid ((i, r) # recs) st =
     (case publish_pulled D aid r i st of
        (st, Inl e) \<Rightarrow> (st, False)
      | (st, Inr _) \<Rightarrow> drain_batch D aid recs (onPiRecord D aid r st))"

partial_function (option) drain_loop ::
    "'s deps \<Rightarrow> string \<Rightarrow> string \<Rightarrow> 's AgentManager \<Rightarrow> ('s AgentManager \<times> bool) option" where
  "drain_loop D aid dc st =
     (case ask D o_records (CRecords dc (origin (a_hub (objs st aid))) 0) st of
        (st, Inl e) \<Rightarrow> Some (st, False)
      | (st, Inr recs) \<Rightarrow>
          if recs = [] then Some (st, True)
          else (case drain_batch D aid recs st of
                  (st, ok) \<Rightarrow> if \<not> ok then Some (st, False) else drain_loop D aid dc st))"

definition drainSpool :: "'s deps \<Rightarrow> string \<Rightarrow> 's AgentManager \<Rightarrow> ('s AgentManager \<times> bool) option" where
  "drainSpool D aid st =
     (case daemonFor D aid st of
        (st, Inl e) \<Rightarrow> Some (st, False)
      | (st, Inr dc) \<Rightarrow> drain_loop D aid dc st)"

text \<open>A batch of pulled records; a failed append ends the batch after a sleep, and the second
  result is false when the sleep was cancelled.\<close>

fun pull_batch :: "'s deps \<Rightarrow> string \<Rightarrow> int \<Rightarrow> (u64 \<times> raw) list \<Rightarrow> 's AgentManager \<Rightarrow> 's AgentManager \<times> bool" where
  "pull_batch D aid backoff [] st = (st, True)"
| "pull_batch D aid backoff ((i, r) # recs) st =
     (case publish_pulled D aid r i st of
        (st, Inl e) \<Rightarrow> ask D o_live (CSleep backoff) st
      | (st, Inr _) \<Rightarrow> pull_batch D aid backoff recs (onPiRecord D aid r st))"

text \<open>A failed resolution or pull: the streak, the degraded flag, the sleep and the doubled
  backoff.\<close>

definition pull_failed :: "'s deps \<Rightarrow> string \<Rightarrow> puller \<Rightarrow> 's AgentManager \<Rightarrow> 's AgentManager \<times> puller option" where
  "pull_failed D aid pl st =
     (let failures = pl_failures pl + 1;
          st = (if failures \<ge> degradedFailureThreshold then setDegraded aid True st else st)
      in case ask D o_live (CSleep (pl_backoff pl)) st of
           (st, False) \<Rightarrow> (st, None)
         | (st, True) \<Rightarrow>
             (st, Some (pl\<lparr>pl_failures := failures, pl_backoff := min (pl_backoff pl * 2) pullBackoffCap\<rparr>)))"

text \<open>One turn of the loop after a detected death.\<close>

definition death_step ::
    "'s deps \<Rightarrow> string \<Rightarrow> puller \<Rightarrow> 's AgentManager \<Rightarrow> ('s AgentManager \<times> puller option) option" where
  "death_step D aid pl st =
     (case ask D o_live (CSleep (pl_backoff pl)) st of
        (st, False) \<Rightarrow> Some (st, None)
      | (st, True) \<Rightarrow>
          (case preflight D aid st of
             (st, Inl e) \<Rightarrow> Some (st, Some pl)
           | (st, Inr ds) \<Rightarrow>
               (case drainSpool D aid st of
                  None \<Rightarrow> None
                | Some (st, False) \<Rightarrow> Some (st, Some pl)
                | Some (st, True) \<Rightarrow>
                    if a_fsm (objs st aid) = SessionRunning then
                      (case pauseAndRevive D aid st of
                         None \<Rightarrow> None
                       | Some (st, True) \<Rightarrow> Some (st, None)
                       | Some (st, False) \<Rightarrow>
                           Some (st, Some (pl\<lparr>pl_pendingDeath := False, pl_backoff := pullBackoffBase\<rparr>)))
                    else
                      Some (fail D aid ''daemon restarted (new boot_id) and pi not running''
                             (recordDaemonBoot D aid ds st), None))))"

text \<open>The reconnect preflight after a failed pull.\<close>

definition pull_reconnect :: "'s deps \<Rightarrow> string \<Rightarrow> puller \<Rightarrow> 's AgentManager \<Rightarrow> 's AgentManager \<times> puller" where
  "pull_reconnect D aid pl st =
     (case preflight D aid st of
        (st, Inl e) \<Rightarrow> (st, pl)
      | (st, Inr ds) \<Rightarrow>
          (case bootIDChanged aid (ds_BootID ds) st of
             (st, changed) \<Rightarrow>
               if changed \<and> \<not> ds_PiRunning ds
               then (st, pl\<lparr>pl_pendingDeath := True, pl_backoff := pullBackoffBase\<rparr>)
               else (st, pl)))"

definition pull_step :: "'s deps \<Rightarrow> string \<Rightarrow> puller \<Rightarrow> 's AgentManager \<Rightarrow> 's AgentManager \<times> puller option" where
  "pull_step D aid pl st =
     (case daemonFor D aid st of
        (st, res) \<Rightarrow>
          (case ask D o_live CCtx st of
             (st, False) \<Rightarrow> (st, None)
           | (st, True) \<Rightarrow>
               (case res of
                  Inl e \<Rightarrow> pull_failed D aid pl st
                | Inr dc \<Rightarrow>
                    (case ask D o_records (CRecords dc (origin (a_hub (objs st aid))) daemonPullWait) st of
                       (st, recs) \<Rightarrow>
                         (case ask D o_live CCtx st of
                            (st, False) \<Rightarrow> (st, None)
                          | (st, True) \<Rightarrow>
                              (case recs of
                                 Inl e \<Rightarrow>
                                   (case pull_failed D aid pl (invalidateDaemon aid st) of
                                      (st, None) \<Rightarrow> (st, None)
                                    | (st, Some pl) \<Rightarrow>
                                        (case pull_reconnect D aid pl st of (st, pl) \<Rightarrow> (st, Some pl)))
                               | Inr rs \<Rightarrow>
                                   (case pull_batch D aid pullBackoffBase rs (setDegraded aid False st) of
                                      (st, False) \<Rightarrow> (st, None)
                                    | (st, True) \<Rightarrow>
                                        (completeRevive D aid st,
                                         Some (pl\<lparr>pl_failures := 0, pl_backoff := pullBackoffBase\<rparr>)))))))))"

text \<open>One turn of the loop; the second result is \<open>None\<close> when the goroutine returns.\<close>

definition puller_step ::
    "'s deps \<Rightarrow> string \<Rightarrow> puller \<Rightarrow> 's AgentManager \<Rightarrow> ('s AgentManager \<times> puller option) option" where
  "puller_step D aid pl st =
     (if pl_pendingDeath pl then death_step D aid pl st else Some (pull_step D aid pl st))"

text \<open>The goroutine: the boot identity, then turns of the loop; the first argument is the number
  of turns run.\<close>

fun puller_turns ::
    "nat \<Rightarrow> 's deps \<Rightarrow> string \<Rightarrow> puller \<Rightarrow> 's AgentManager \<Rightarrow> ('s AgentManager \<times> puller option) option" where
  "puller_turns 0 D aid pl st = Some (st, Some pl)"
| "puller_turns (Suc n) D aid pl st =
     (case puller_step D aid pl st of
        Some (st, Some pl) \<Rightarrow> puller_turns n D aid pl st
      | r \<Rightarrow> r)"

definition runPuller :: "nat \<Rightarrow> 's deps \<Rightarrow> string \<Rightarrow> 's AgentManager \<Rightarrow> ('s AgentManager \<times> puller option) option" where
  "runPuller n D aid st = puller_turns n D aid new_puller (noteBootID D aid st)"

end
