(* ===== verification/Agent_Registry.thy ===== *)
theory Agent_Registry
  imports Agent_Revive
begin

text \<open>
  The registry (\<open>controller/registry.go\<close>): the views of live, replayed and gateway-only
  agents, the listing that joins the gateway's sandboxes with the agents in memory, and
  \<open>RebuildFromLog\<close>, which restores the agents from their logs at startup.
\<close>

section \<open>Views\<close>

definition SourceLive :: string where "SourceLive = ''live''"

definition SourceReplayed :: string where "SourceReplayed = ''replayed''"

definition SourceCR :: string where "SourceCR = ''cr''"

record AgentView =
  g_ID :: string
  g_Sandbox :: string
  g_Status :: agent_status
  g_Degraded :: bool
  g_Session :: "session_state option"
  g_Created :: "go_time option"
  g_Parent :: string
  g_Children :: "string list"
  g_Source :: string
  g_Assessment :: "assessment_view option"

definition liveChildIDs :: "string \<Rightarrow> 's AgentManager \<Rightarrow> string list" where
  "liveChildIDs parentID st =
     sort_Strings (filter (\<lambda>i. a_ParentID (objs st i) = parentID \<and> a_status (objs st i) \<noteq> StatusTerminated)
       (agents st))"

definition agentView :: "'s deps \<Rightarrow> agent \<Rightarrow> 's AgentManager \<Rightarrow> AgentView" where
  "agentView D a st =
     \<lparr>g_ID = a_ID a, g_Sandbox = a_Sandbox a, g_Status = a_status a, g_Degraded = a_degraded a,
      g_Session = Some (a_fsm a),
      g_Created = (if a_Created a = 0 then None else Some (a_Created a)),
      g_Parent = (case mgr_Get (a_ParentID a) st of
                    Some p \<Rightarrow> if a_status p \<noteq> StatusTerminated then a_ParentID a else []
                  | None \<Rightarrow> []),
      g_Children = liveChildIDs (a_ID a) st,
      g_Source = (if a_replayedOnly a then SourceReplayed else SourceLive),
      g_Assessment = (case SubscribeSnapshot (d_store D) (a_hub a) (store st) of
                        Inl e \<Rightarrow> None
                      | Inr evs \<Rightarrow> assessmentFromEvents evs)\<rparr>"

definition statusFromPhase :: "sandbox_phase \<Rightarrow> agent_status" where
  "statusFromPhase phase =
     (case phase of
        PhaseReady \<Rightarrow> StatusReady
      | PhaseError \<Rightarrow> StatusFailed
      | PhaseStopped \<Rightarrow> StatusCreating
      | PhaseOther \<Rightarrow> StatusCreating)"

definition crView :: "sandbox_info \<Rightarrow> AgentView" where
  "crView info =
     \<lparr>g_ID = label_of info LabelAgentID, g_Sandbox = si_Name info, g_Status = statusFromPhase (si_Phase info),
      g_Degraded = False, g_Session = None, g_Created = None, g_Parent = label_of info LabelParentAgentID,
      g_Children = [], g_Source = SourceCR, g_Assessment = None\<rparr>"

definition assessmentFor :: "'s deps \<Rightarrow> string \<Rightarrow> 's AgentManager \<Rightarrow> assessment_view option" where
  "assessmentFor D aid st =
     (case Replay (d_store D) aid 0 (store st) of Inl e \<Rightarrow> None | Inr evs \<Rightarrow> assessmentFromEvents evs)"

section \<open>Listing\<close>

definition managed_selector :: string where
  "managed_selector = LabelManagedBy @ ''='' @ ManagedByValue"

definition info_view :: "'s deps \<Rightarrow> 's AgentManager \<Rightarrow> sandbox_info \<Rightarrow> AgentView" where
  "info_view D st info =
     (case mgr_Get (label_of info LabelAgentID) st of
        Some a \<Rightarrow>
          let view = agentView D a st in if g_Sandbox view = [] then view\<lparr>g_Sandbox := si_Name info\<rparr> else view
      | None \<Rightarrow> (crView info)\<lparr>g_Assessment := assessmentFor D (label_of info LabelAgentID) st\<rparr>)"

definition view_less :: "AgentView \<Rightarrow> AgentView \<Rightarrow> bool" where
  "view_less v w =
     (case (g_Created v, g_Created w) of
        (Some s, Some t) \<Rightarrow> s < t
      | _ \<Rightarrow> g_ID v < g_ID w)"

definition mgr_List :: "'s deps \<Rightarrow> 's AgentManager \<Rightarrow> 's AgentManager \<times> (mgr_error + AgentView list)" where
  "mgr_List D st =
     (case ask D o_sandboxes (CListSandboxes managed_selector) st of
        (st, Inl e) \<Rightarrow> (st, Inl (ErrOutside e))
      | (st, Inr infos) \<Rightarrow> (st, Inr (sort_Slice view_less (map (info_view D st) (filter owned infos)))))"

definition mgr_ListProviders :: "'s deps \<Rightarrow> 's AgentManager \<Rightarrow> 's AgentManager \<times> (mgr_error + string list)" where
  "mgr_ListProviders D st =
     (case ask D o_names CListProviders st of
        (st, Inl e) \<Rightarrow> (st, Inl (ErrOutside e))
      | (st, Inr ns) \<Rightarrow> (st, Inr ns))"

text \<open>The first owned sandbox that carries the agent's id.\<close>

definition find_info :: "string \<Rightarrow> sandbox_info list \<Rightarrow> sandbox_info option" where
  "find_info aid infos = find (\<lambda>info. owned info \<and> label_of info LabelAgentID = aid) infos"

definition crSandboxFor :: "'s deps \<Rightarrow> string \<Rightarrow> 's AgentManager \<Rightarrow> 's AgentManager \<times> string" where
  "crSandboxFor D aid st =
     (case ask D o_sandboxes (CListSandboxes managed_selector) st of
        (st, Inl e) \<Rightarrow> (st, [])
      | (st, Inr infos) \<Rightarrow> (st, case find_info aid infos of None \<Rightarrow> [] | Some info \<Rightarrow> si_Name info))"

definition GetView :: "'s deps \<Rightarrow> string \<Rightarrow> 's AgentManager \<Rightarrow> 's AgentManager \<times> (mgr_error + AgentView)" where
  "GetView D aid st =
     (case mgr_Get aid st of
        Some a \<Rightarrow>
          let view = agentView D a st in
          if g_Sandbox view = []
          then (case crSandboxFor D aid st of (st, name) \<Rightarrow> (st, Inr (view\<lparr>g_Sandbox := name\<rparr>)))
          else (st, Inr view)
      | None \<Rightarrow>
          (case ask D o_sandboxes (CListSandboxes managed_selector) st of
             (st, Inl e) \<Rightarrow> (st, Inl (ErrOutside e))
           | (st, Inr infos) \<Rightarrow>
               (case find_info aid infos of
                  None \<Rightarrow> (st, Inl (ErrUnknownAgent aid))
                | Some info \<Rightarrow> (st, Inr ((crView info)\<lparr>g_Assessment := assessmentFor D aid st\<rparr>)))))"

section \<open>Replay at startup\<close>

text \<open>The goroutines a replayed agent is given.\<close>

datatype goroutine = GoPuller string | GoRevive string

definition replayed_agent :: "string \<Rightarrow> event_hub \<Rightarrow> event list \<Rightarrow> agent" where
  "replayed_agent aid h evs =
     (let i = replayProvisionInfo evs in
      \<lparr>a_ID = aid, a_Sandbox = i_sandbox i, a_Created = (case i_created i of None \<Rightarrow> 0 | Some t \<Rightarrow> t),
       a_ParentID = i_parent i, a_resolved = i_resolved i, a_status = ReplayAgentStatus evs, a_piSeq = 0,
       a_replayedOnly = True, a_bootID = [], a_degraded = False, a_pendingRevive = False, a_hub = h,
       a_fsm = ReplaySession evs, a_stdin = None, a_stdinClosed = False, a_daemon = None,
       a_pullTransport = False, a_cmdSeq = 0, a_cancelled = False\<rparr>)"

definition rebuild_agent ::
    "'s deps \<Rightarrow> string \<Rightarrow> 's AgentManager \<Rightarrow> 's AgentManager \<times> mgr_error option \<times> goroutine list" where
  "rebuild_agent D aid st =
     (if aid \<in> set (agents st) then (st, None, [])
      else
        (case NewEventHub (d_store D) aid (store st) of
           Inl e \<Rightarrow> (st, Some (ErrStore e), [])
         | Inr h \<Rightarrow>
             (case SubscribeSnapshot (d_store D) h (store st) of
                Inl e \<Rightarrow> (st, Some (ErrStore e), [])
              | Inr evs \<Rightarrow>
                  let state = ReplaySession evs in
                  if state = SessionTerminated then (st, None, [])
                  else
                    let st = upd_agent aid (\<lambda>_. replayed_agent aid h evs) (st\<lparr>agents := agents st @ [aid]\<rparr>);
                        pull = (Transport (d_cfg D) = TransportPull);
                        st = (if pull then upd_agent aid (\<lambda>a. a\<lparr>a_pullTransport := True\<rparr>) st else st);
                        go = (if \<not> pull then []
                              else if state = SessionPaused then [GoRevive aid] else [GoPuller aid])
                    in (if state = SessionRunning \<and> ReplayAgentStatus evs = StatusWorking then Arm D aid st else st,
                        None, go))))"

fun rebuild_loop ::
    "'s deps \<Rightarrow> string list \<Rightarrow> goroutine list \<Rightarrow> 's AgentManager \<Rightarrow>
     's AgentManager \<times> mgr_error option \<times> goroutine list" where
  "rebuild_loop D [] gos st = (st, None, gos)"
| "rebuild_loop D (aid # ids) gos st =
     (case rebuild_agent D aid st of
        (st, Some e, go) \<Rightarrow> (st, Some e, gos)
      | (st, None, go) \<Rightarrow> rebuild_loop D ids (gos @ go) st)"

definition RebuildFromLog :: "'s deps \<Rightarrow> 's AgentManager \<Rightarrow> 's AgentManager \<times> mgr_error option \<times> goroutine list" where
  "RebuildFromLog D st =
     (case Agents (d_store D) (store st) of
        Inl e \<Rightarrow> (st, Some (ErrStore e), [])
      | Inr ids \<Rightarrow> rebuild_loop D ids [] st)"

end
