(* ===== verification/Agent_Wait.thy ===== *)
theory Agent_Wait
  imports Agent_Registry
begin

text \<open>
  The blocking wait (\<open>controller/wait.go\<close>): the baseline snapshot, the immediate returns,
  the subscription, the replayed events, the select over the live channel, the timeout and
  the caller's context, the coalescing window and the snapshot that is returned.

  \<open>Wait\<close> runs up to the select; one receive or expiry there is \<open>wait_select\<close>, and any
  other operations may run in between.  The events a wait receives are taken off its channel
  in the hub.  A channel is never closed by the hub, so the receive from a closed channel does
  not occur.
\<close>

record WaitResult =
  wr_AgentID :: string
  wr_Changed :: "string list"
  wr_State :: session_state
  wr_Assessment :: "assessment_view option"

datatype wait_outcome =
    WaitError mgr_error
  | WaitCancelled
  | WaitReturned WaitResult
  | WaitBlocked nat wake_state

definition waitSnapshot ::
    "'s deps \<Rightarrow> string \<Rightarrow> string \<Rightarrow> (string \<Rightarrow> bool) \<Rightarrow> 's AgentManager \<Rightarrow> wait_outcome" where
  "waitSnapshot D aid kind changed st =
     (let changed = (if kind \<noteq> [] then changed(kind := True) else changed) in
      case mgr_Get aid st of
        None \<Rightarrow> WaitReturned \<lparr>wr_AgentID = aid, wr_Changed = finalizeChanged changed,
                              wr_State = SessionTerminated, wr_Assessment = None\<rparr>
      | Some a \<Rightarrow>
          (case snapshot D aid st of
             Inl e \<Rightarrow> WaitError (ErrStore e)
           | Inr evs \<Rightarrow> WaitReturned \<lparr>wr_AgentID = aid, wr_Changed = finalizeChanged changed,
                                       wr_State = a_fsm a, wr_Assessment = assessmentFromEvents evs\<rparr>))"

definition with_hub :: "string \<Rightarrow> (event_hub \<Rightarrow> event_hub) \<Rightarrow> 's AgentManager \<Rightarrow> 's AgentManager" where
  "with_hub aid f st = upd_agent aid (\<lambda>a. a\<lparr>a_hub := f (a_hub a)\<rparr>) st"

text \<open>The coalescing window: the events that arrive in it, \<open>n\<close> at most, are taken off the
  channel.\<close>

fun waitDrain :: "nat \<Rightarrow> string \<Rightarrow> nat \<Rightarrow> wake_state \<Rightarrow> 's AgentManager \<Rightarrow> 's AgentManager \<times> wake_state" where
  "waitDrain 0 aid sub cl st = (st, cl)"
| "waitDrain (Suc n) aid sub cl st =
     (case chan_recv sub (a_hub (objs st aid)) of
        (h, None) \<Rightarrow> (st, cl)
      | (h, Some ev) \<Rightarrow> waitDrain n aid sub (fst (wake_event ev cl)) (with_hub aid (\<lambda>_. h) st))"

text \<open>The return after a wake: the window, the snapshot, the deferred unsubscribe.\<close>

definition wait_wake ::
    "'s deps \<Rightarrow> string \<Rightarrow> nat \<Rightarrow> nat \<Rightarrow> wake_state \<Rightarrow> 's AgentManager \<Rightarrow> 's AgentManager \<times> wait_outcome" where
  "wait_wake D aid sub n cl st =
     (case waitDrain n aid sub cl st of (st, (changed, _)) \<Rightarrow>
        (with_hub aid (Unsubscribe sub) st, waitSnapshot D aid [] changed st))"

definition Wait :: "'s deps \<Rightarrow> string \<Rightarrow> nat \<Rightarrow> 's AgentManager \<Rightarrow> 's AgentManager \<times> wait_outcome" where
  "Wait D aid n st =
     (case mgr_Get aid st of
        None \<Rightarrow> (st, WaitError (ErrUnknownAgent aid))
      | Some a \<Rightarrow>
          (case snapshot D aid st of
             Inl e \<Rightarrow> (st, WaitError (ErrStore e))
           | Inr evs \<Rightarrow>
               let base = assessmentFromEvents evs;
                   lastVerdict = (case base of None \<Rightarrow> [] | Some v \<Rightarrow> v_Verdict v) in
               if a_fsm a = SessionIdle \<or> a_status a = StatusFailed then
                 (st, WaitReturned \<lparr>wr_AgentID = aid, wr_Changed = [waitChangedState], wr_State = a_fsm a,
                                    wr_Assessment = base\<rparr>)
               else
                 let after = (if evs = [] then 0 else Seq (last evs)) in
                 (case Subscribe (d_store D) after (a_hub a) (store st) of
                    (h, Inl e) \<Rightarrow> (with_hub aid (\<lambda>_. h) st, WaitError (ErrStore e))
                  | (h, Inr (replay, sub)) \<Rightarrow>
                      let st = with_hub aid (\<lambda>_. h) st in
                      (case consumeWakeEvents replay (\<lambda>_. False, lastVerdict) False of
                         (cl, True) \<Rightarrow> wait_wake D aid sub n cl st
                       | (cl, False) \<Rightarrow> (st, WaitBlocked sub cl)))))"

text \<open>What the select chooses: the context's end, the timer, or an event on the channel, with the
  number of events that arrive in the window after it.\<close>

datatype wait_choice = SelCtx | SelTimeout | SelEvent nat

definition wait_select ::
    "'s deps \<Rightarrow> string \<Rightarrow> nat \<Rightarrow> wake_state \<Rightarrow> wait_choice \<Rightarrow> 's AgentManager \<Rightarrow> 's AgentManager \<times> wait_outcome" where
  "wait_select D aid sub cl choice st =
     (case choice of
        SelCtx \<Rightarrow> (with_hub aid (Unsubscribe sub) st, WaitCancelled)
      | SelTimeout \<Rightarrow> (with_hub aid (Unsubscribe sub) st, waitSnapshot D aid waitChangedTimeout (fst cl) st)
      | SelEvent n \<Rightarrow>
          (case chan_recv sub (a_hub (objs st aid)) of
             (h, None) \<Rightarrow> (st, WaitBlocked sub cl)
           | (h, Some ev) \<Rightarrow>
               let st = with_hub aid (\<lambda>_. h) st in
               (case wake_event ev cl of
                  (cl, False) \<Rightarrow> (st, WaitBlocked sub cl)
                | (cl, True) \<Rightarrow> wait_wake D aid sub n cl st)))"

end
