(* ===== verification/Controller_Invariants.thy ===== *)
theory Controller_Invariants
  imports Agent_Wait
begin

text \<open>
  What every operation of the controller keeps: the registry and its objects agree, each armed
  timer belongs to a registered agent with a turn in flight, each agent has one running timer at
  most, and an entry keeps its agent and, once disarmed, stays disarmed (the facts \<open>X\<close> below).  The operations are collected in \<open>mgr_op\<close>; a run is any sequence of them.
\<close>

section \<open>Well-formed timers\<close>

text \<open>What is remembered of an entry: its agent, and whether it has been disarmed.\<close>

type_synonym entry_facts = "(nat \<times> string \<times> bool) set"

definition monitor_wf :: "entry_facts \<Rightarrow> Monitor \<Rightarrow> bool" where
  "monitor_wf X mo \<longleftrightarrow>
     (\<forall>aid i. mo_agents mo aid = Some i \<longrightarrow>
        i < length (mo_entries mo) \<and> e_gen (mo_entries mo ! i) = 0 \<and> e_hub (mo_entries mo ! i) = aid) \<and>
     (\<forall>i < length (mo_entries mo).
        (e_stopped (mo_entries mo ! i) \<longleftrightarrow> e_gen (mo_entries mo ! i) \<noteq> 0) \<and>
        (\<not> e_stopped (mo_entries mo ! i) \<longrightarrow> mo_agents mo (e_hub (mo_entries mo ! i)) = Some i)) \<and>
     (\<forall>x \<in> X. fst x < length (mo_entries mo) \<and> e_hub (mo_entries mo ! fst x) = fst (snd x) \<and>
        (snd (snd x) \<longrightarrow> e_gen (mo_entries mo ! fst x) \<noteq> 0))"

lemma monitor_wf_new: "monitor_wf {} (NewMonitor n)"
  by (simp add: monitor_wf_def NewMonitor_def)

lemma monitor_wf_arm:
  assumes wf: "monitor_wf X mo" and none: "mo_agents mo aid = None"
  shows "monitor_wf X (arm_entry aid mo)"
proof -
  let ?n = "length (mo_entries mo)"
  have es: "mo_entries (arm_entry aid mo) ! j = mo_entries mo ! j" if "j < ?n" for j
    using that by (simp add: arm_entry_def nth_append)
  have new: "e_gen (mo_entries (arm_entry aid mo) ! ?n) = 0" "\<not> e_stopped (mo_entries (arm_entry aid mo) ! ?n)"
    "e_hub (mo_entries (arm_entry aid mo) ! ?n) = aid"
    by (simp_all add: arm_entry_def)
  have len: "length (mo_entries (arm_entry aid mo)) = Suc ?n"
    and ags: "mo_agents (arm_entry aid mo) = (mo_agents mo)(aid \<mapsto> ?n)"
    by (simp_all add: arm_entry_def)
  show ?thesis unfolding monitor_wf_def len ags
  proof (intro conjI allI impI ballI)
    fix x assume "x \<in> X"
    then have "fst x < ?n \<and> e_hub (mo_entries mo ! fst x) = fst (snd x) \<and>
        (snd (snd x) \<longrightarrow> e_gen (mo_entries mo ! fst x) \<noteq> 0)"
      using wf by (simp add: monitor_wf_def)
    then show "fst x < Suc ?n" "e_hub (mo_entries (arm_entry aid mo) ! fst x) = fst (snd x)"
      "snd (snd x) \<Longrightarrow> e_gen (mo_entries (arm_entry aid mo) ! fst x) \<noteq> 0"
      using es by auto
  next
    fix a i assume i: "((mo_agents mo)(aid \<mapsto> ?n)) a = Some i"
    show "i < Suc ?n" "e_gen (mo_entries (arm_entry aid mo) ! i) = 0" "e_hub (mo_entries (arm_entry aid mo) ! i) = a"
      using wf i new es by (cases "a = aid"; force simp: monitor_wf_def)+
  next
    fix i assume "i < Suc ?n"
    then consider "i < ?n" | "i = ?n" by linarith
    then show "e_stopped (mo_entries (arm_entry aid mo) ! i) = (e_gen (mo_entries (arm_entry aid mo) ! i) \<noteq> 0)"
      using wf new es by cases (auto simp: monitor_wf_def)
    assume "\<not> e_stopped (mo_entries (arm_entry aid mo) ! i)"
    with \<open>i < Suc ?n\<close> show "((mo_agents mo)(aid \<mapsto> ?n)) (e_hub (mo_entries (arm_entry aid mo) ! i)) = Some i"
      using wf new es none by (cases "i = ?n") (auto simp: monitor_wf_def less_Suc_eq)
  qed
qed

lemma monitor_wf_upd:
  assumes "monitor_wf X mo" "\<And>e. e_gen (f e) = e_gen e \<and> e_stopped (f e) = e_stopped e \<and> e_hub (f e) = e_hub e"
  shows "monitor_wf X (upd_entry i f mo)"
proof -
  let ?es = "(mo_entries mo)[i := f (mo_entries mo ! i)]"
  have nth: "?es ! j = (if i = j \<and> i < length (mo_entries mo) then f (mo_entries mo ! j) else mo_entries mo ! j)" for j
    by (cases "i < length (mo_entries mo)") (auto simp: list_update_beyond)
  have "e_gen (?es ! j) = e_gen (mo_entries mo ! j)" "e_stopped (?es ! j) = e_stopped (mo_entries mo ! j)"
    "e_hub (?es ! j) = e_hub (mo_entries mo ! j)" for j
    using assms(2) [of "mo_entries mo ! j"] unfolding nth by simp_all
  moreover have "mo_entries (upd_entry i f mo) = ?es" "mo_agents (upd_entry i f mo) = mo_agents mo"
    by (simp_all add: upd_entry_def)
  ultimately show ?thesis using assms(1) unfolding monitor_wf_def by simp
qed

lemma monitor_wf_armed:
  "monitor_wf X mo \<Longrightarrow> mo_agents mo a = Some i \<Longrightarrow>
     i < length (mo_entries mo) \<and> e_gen (mo_entries mo ! i) = 0 \<and> e_hub (mo_entries mo ! i) = a"
  unfolding monitor_wf_def by blast

lemma monitor_wf_inj: "monitor_wf X mo \<Longrightarrow> mo_agents mo a = Some i \<Longrightarrow> mo_agents mo b = Some i \<Longrightarrow> a = b"
  using monitor_wf_armed [of X mo a i] monitor_wf_armed [of X mo b i] by simp

lemma monitor_wf_disarm: "monitor_wf X mo \<Longrightarrow> monitor_wf X (fst (disarm aid mo))"
proof (cases "mo_agents mo aid")
  case (Some i)
  assume wf: "monitor_wf X mo"
  have i: "i < length (mo_entries mo)" "e_hub (mo_entries mo ! i) = aid" "e_gen (mo_entries mo ! i) = 0"
    using monitor_wf_armed [OF wf Some] by simp_all
  have "a = aid" if "mo_agents mo a = Some i" for a
    using monitor_wf_inj [OF wf that Some] .
  moreover have "e_hub (mo_entries mo ! j) \<noteq> aid" if "j < length (mo_entries mo)" "j \<noteq> i" "\<not> e_stopped (mo_entries mo ! j)" for j
    using wf Some that unfolding monitor_wf_def by fastforce
  moreover have es: "mo_entries (fst (disarm aid mo)) ! j =
      (if j = i then (mo_entries mo ! i)\<lparr>e_gen := 1, e_stopped := True\<rparr> else mo_entries mo ! j)" for j
    using Some i by (simp add: disarm_def upd_entry_def)
  moreover have "length (mo_entries (fst (disarm aid mo))) = length (mo_entries mo)"
    "mo_agents (fst (disarm aid mo)) = (mo_agents mo)(aid := None)"
    using Some by (simp_all add: disarm_def upd_entry_def)
  ultimately show ?thesis
    using wf unfolding monitor_wf_def by (simp split: if_split) blast
qed (simp add: disarm_def)

lemma disarm_agents [simp]: "mo_agents (fst (disarm aid mo)) = (mo_agents mo)(aid := None)"
  by (auto simp: disarm_def upd_entry_def split: option.split)

section \<open>The part of the state that matters\<close>

text \<open>The registry, the timers, and of each object the id, the status and the session state.\<close>

type_synonym mgr_core = "string list \<times> Monitor option \<times> (string \<Rightarrow> string \<times> agent_status \<times> session_state)"

definition core :: "'s AgentManager \<Rightarrow> mgr_core" where
  "core st = (agents st, monitor st, \<lambda>i. (a_ID (objs st i), a_status (objs st i), a_fsm (objs st i)))"

definition core_ok :: "entry_facts \<Rightarrow> mgr_core \<Rightarrow> bool" where
  "core_ok X c \<longleftrightarrow>
     (case c of (ags, mon, ob) \<Rightarrow>
        distinct ags \<and>
        (\<forall>i \<in> set ags. fst (ob i) = i \<and> fst (snd (ob i)) \<noteq> StatusTerminated) \<and>
        (\<forall>i. fst (snd (ob i)) = StatusWorking \<longrightarrow> i \<in> set ags \<and> snd (snd (ob i)) \<noteq> SessionPaused) \<and>
        (case mon of
           None \<Rightarrow> X = {}
         | Some mo \<Rightarrow>
             monitor_wf X mo \<and> (\<forall>i. mo_agents mo i \<noteq> None \<longrightarrow> fst (snd (ob i)) = StatusWorking)))"

definition manager_ok :: "entry_facts \<Rightarrow> 's AgentManager \<Rightarrow> bool" where
  "manager_ok X st = core_ok X (core st)"

text \<open>How the operations change it: the session state of an agent, and a new status together
  with a disarmed timer.\<close>

definition set_fsm :: "string \<Rightarrow> session_state \<Rightarrow> mgr_core \<Rightarrow> mgr_core" where
  "set_fsm aid q c = (case c of (ags, mon, ob) \<Rightarrow> (ags, mon, ob(aid := (fst (ob aid), fst (snd (ob aid)), q))))"

definition leave :: "string \<Rightarrow> agent_status \<Rightarrow> mgr_core \<Rightarrow> mgr_core" where
  "leave aid x c =
     (case c of (ags, mon, ob) \<Rightarrow>
        (ags, map_option (\<lambda>mo. fst (disarm aid mo)) mon, ob(aid := (fst (ob aid), x, snd (snd (ob aid))))))"

lemma core_ok_set_fsm:
  "core_ok X c \<Longrightarrow> q \<noteq> SessionPaused \<or> fst (snd (snd (snd c) aid)) \<noteq> StatusWorking \<Longrightarrow> core_ok X (set_fsm aid q c)"
  by (cases c) (auto simp: core_ok_def set_fsm_def split: option.splits)

lemma core_ok_leave:
  assumes "core_ok X c" "x \<noteq> StatusWorking" "x \<noteq> StatusTerminated"
  shows "core_ok X (leave aid x (set_fsm aid q c))" "core_ok X (leave aid x c)"
  using assms
  by (cases c; auto simp: core_ok_def set_fsm_def leave_def monitor_wf_disarm split: option.splits)+

section \<open>Operations that leave it alone\<close>

lemma core_ask [simp]: "core (fst (ask D f c st)) = core st"
  by (simp add: core_def ask_def Let_def)

lemma core_ask': "ask D f c st = (st', r) \<Longrightarrow> core st' = core st"
  using core_ask [of D f c st] by simp

lemma core_upd:
  "(\<And>a. a_ID (f a) = a_ID a \<and> a_status (f a) = a_status a \<and> a_fsm (f a) = a_fsm a) \<Longrightarrow>
     core (upd_agent aid f st) = core st"
  by (auto simp: core_def fun_eq_iff)

lemma core_store [simp]:
  "core (st\<lparr>store := s\<rparr>) = core st" "core (st\<lparr>skippedTicks := n\<rparr>) = core st" "core (st\<lparr>calls := cs\<rparr>) = core st"
  by (simp_all add: core_def)

lemma core_publish [simp]:
  "core (fst (publish D aid t flds st)) = core st" "core (publish_raw D aid r st) = core st"
  "core (fst (publish_pulled D aid r i st)) = core st"
  by (simp_all add: publish_def publish_raw_def publish_pulled_def core_upd split: prod.split)

lemma core_publish':
  "publish D aid t flds st = (st', ev) \<Longrightarrow> core st' = core st"
  "publish_pulled D aid r i st = (st', v) \<Longrightarrow> core st' = core st"
  using core_publish(1) [of D aid t flds st] core_publish(3) [of D aid r i st] by simp_all

lemma core_daemonFor [simp]: "core (fst (daemonFor D aid st)) = core st"
  by (auto simp: daemonFor_def core_upd ask_def Let_def split: option.split sum.split)

lemma core_daemonFor': "daemonFor D aid st = (st', r) \<Longrightarrow> core st' = core st"
  using core_daemonFor [of D aid st] by simp

lemma core_small [simp]:
  "core (invalidateDaemon aid st) = core st" "core (bump_cmdSeq aid st) = core st"
  "core (setBootID aid b st) = core st" "core (setDegraded aid v st) = core st"
  "core (armPendingRevive aid st) = core st" "core (with_hub aid f st) = core st"
  by (simp_all add: invalidateDaemon_def bump_cmdSeq_def setBootID_def setDegraded_def
      armPendingRevive_def with_hub_def core_upd)

lemmas core_dests = core_ask' core_publish' core_daemonFor'

lemma core_preflight: "preflight D aid st = (st', r) \<Longrightarrow> core st' = core st"
  by (auto simp: preflight_def split: prod.splits sum.splits dest!: core_dests)

lemma core_noteBootID [simp]: "core (noteBootID D aid st) = core st"
  by (auto simp: noteBootID_def core_upd split: prod.split sum.split dest!: core_preflight)

lemma core_messages:
  "post_message D dc ty m st = (st', e) \<Longrightarrow> core st' = core st"
  "new_command D ty p st = (st', cmd) \<Longrightarrow> core st' = core st"
  "randID D pre st = (st', i) \<Longrightarrow> core st' = core st"
  by (auto simp: post_message_def new_command_def randID_def split: prod.splits dest!: core_dests)

lemma core_exec_command: "exec_command aid pre ty m st = (st', ok) \<Longrightarrow> core st' = core st"
  "stdin_send aid l st = (st', ok) \<Longrightarrow> core st' = core st"
  by (auto simp: exec_command_def stdin_send_def Let_def core_upd split: option.splits if_splits)

lemma core_transition:
  "core (fst (transition D aid q t flds st)) = core st \<or>
   core (fst (transition D aid q t flds st)) = set_fsm aid q (core st)"
proof -
  obtain f h s e where tr: "Transition (d_store D) q t flds (a_fsm (objs st aid), a_hub (objs st aid), store st) = ((f, h, s), e)"
    by (metis prod_cases3 surj_pair)
  have "f = a_fsm (objs st aid) \<or> f = q"
    using tr by (auto simp: Transition_def split: if_splits prod.splits option.splits)
  then show ?thesis
    by (auto simp: transition_def tr core_def set_fsm_def fun_eq_iff)
qed

lemma core_transition_ok: "transition D aid q t flds st = (st', None) \<Longrightarrow> core st' = set_fsm aid q (core st)"
  by (auto simp: transition_def Transition_def core_def set_fsm_def fun_eq_iff split: prod.splits if_splits option.splits)

lemma core_transition_err: "transition D aid q t flds st = (st', Some e) \<Longrightarrow> core st' = core st"
  by (auto simp: transition_def Transition_def core_def fun_eq_iff split: prod.splits if_splits option.splits)

section \<open>The monitor's operations\<close>

lemma manager_ok_core: "manager_ok X st \<Longrightarrow> core st' = core st \<Longrightarrow> manager_ok X st'"
  by (simp add: manager_ok_def)

lemma core_monitor: "core (st\<lparr>monitor := mo\<rparr>) = (agents st, mo, snd (snd (core st)))"
  by (simp add: core_def)

lemma manager_ok_monitor:
  assumes "manager_ok X st" "monitor_wf X mo"
    and "\<And>i. mo_agents mo i \<noteq> None \<Longrightarrow> a_status (objs st i) = StatusWorking"
  shows "manager_ok X (st\<lparr>monitor := Some mo\<rparr>)"
  using assms by (auto simp: manager_ok_def core_ok_def core_def)

lemma manager_ok_armed:
  assumes "manager_ok X st" "monitor st = Some mo"
  shows "monitor_wf X mo" "mo_agents mo i \<noteq> None \<Longrightarrow> a_status (objs st i) = StatusWorking"
  using assms by (auto simp: manager_ok_def core_ok_def core_def)

lemma ask_sel:
  "ask D f c st = (st', r) \<Longrightarrow> objs st' = objs st \<and> agents st' = agents st \<and> monitor st' = monitor st"
  by (auto simp: ask_def Let_def)

lemma core_Disarm:
  "core (Disarm aid st) =
     (fst (core st), map_option (\<lambda>mo. fst (disarm aid mo)) (fst (snd (core st))), snd (snd (core st)))"
  by (simp add: Disarm_def core_def split: option.split)

lemma manager_ok_Disarm [intro]:
  assumes "manager_ok X st" shows "manager_ok X (Disarm aid st)"
proof (cases "monitor st")
  case (Some mo)
  with manager_ok_armed [OF assms Some] assms show ?thesis
    by (auto simp: Disarm_def intro!: manager_ok_monitor monitor_wf_disarm split: if_splits)
qed (use assms in \<open>simp add: Disarm_def\<close>)

lemma manager_ok_Arm:
  assumes ok: "manager_ok X st" and working: "a_status (objs st aid) = StatusWorking"
  shows "manager_ok X (Arm D aid st)"
proof (cases "\<exists>mo. monitor st = Some mo \<and> mo_agents mo aid = None")
  case True
  then obtain mo where mo: "monitor st = Some mo" "mo_agents mo aid = None" by blast
  obtain st' now where a: "ask D o_time CNow (st\<lparr>monitor := Some (arm_entry aid mo)\<rparr>) = (st', now)" by fastforce
  have "manager_ok X st'"
  proof (rule manager_ok_core)
    show "manager_ok X (st\<lparr>monitor := Some (arm_entry aid mo)\<rparr>)"
      using ok mo working manager_ok_armed [OF ok mo(1)]
      by (intro manager_ok_monitor monitor_wf_arm) (auto simp: arm_entry_def split: if_splits)
  qed (rule core_ask' [OF a])
  then have "manager_ok X (st'\<lparr>monitor := Some (upd_entry i f (arm_entry aid mo))\<rparr>)"
    if "\<And>e. e_gen (f e) = e_gen e \<and> e_stopped (f e) = e_stopped e \<and> e_hub (f e) = e_hub e" for i f
    using that mo working ask_sel [OF a] manager_ok_armed [OF ok mo(1)]
    by (intro manager_ok_monitor monitor_wf_upd monitor_wf_arm) (auto simp: arm_entry_def upd_entry_def split: if_splits)
  then show ?thesis using mo a by (simp add: Arm_def Let_def)
qed (use ok in \<open>auto simp: Arm_def split: option.split\<close>)

lemma manager_ok_NoteRecord [intro]:
  assumes ok: "manager_ok X st"
  shows "manager_ok X (NoteRecord D aid t st)"
proof (cases "\<exists>mo i. monitor st = Some mo \<and> mo_agents mo aid = Some i")
  case True
  then obtain mo i where mo: "monitor st = Some mo" "mo_agents mo aid = Some i" by blast
  obtain st' now where a: "ask D o_time CNow st = (st', now)" by fastforce
  have "manager_ok X st'" using ok core_ask' [OF a] by (rule manager_ok_core)
  then have "manager_ok X (st'\<lparr>monitor := Some (upd_entry i (\<lambda>e. e\<lparr>e_lastRecAt := now, e_lastRecTy := t\<rparr>) mo)\<rparr>)"
    using ask_sel [OF a] manager_ok_armed [OF ok mo(1)]
    by (intro manager_ok_monitor monitor_wf_upd) (auto simp: upd_entry_def)
  then show ?thesis using mo a by (simp add: NoteRecord_def)
qed (use ok in \<open>auto simp: NoteRecord_def split: option.split\<close>)

lemma NoteRecord_objs [simp]: "objs (NoteRecord D aid t st) = objs st" "agents (NoteRecord D aid t st) = agents st"
  by (auto simp: NoteRecord_def Let_def ask_def split: option.split)

lemma core_assess:
  "assess_pipeline D w tel b st = (st', r) \<Longrightarrow> core st' = core st" "core (publish_assessed D aid sv st) = core st"
  by (auto simp: assess_pipeline_def publish_assessed_def Let_def split: prod.splits sum.splits dest!: core_dests)

lemma core_tick_begin: "tick_begin D i st = (st', r) \<Longrightarrow> core st' = core st"
  by (auto simp: tick_begin_def Let_def split: option.splits sum.splits prod.splits dest!: core_dests core_assess(1))

lemma core_tick_end [simp]: "core (tick_end D i sv st) = core st"
  by (simp add: tick_end_def core_assess Let_def split: option.split)

lemma core_SettleAssess: "core (SettleAssess D aid st) = core (Disarm aid st)"
proof (cases "monitor st")
  case (Some mo)
  obtain mo' r where d: "disarm aid mo = (mo', r)" by fastforce
  then have "core (st\<lparr>monitor := Some mo'\<rparr>) = core (Disarm aid st)" using Some by (simp add: Disarm_def)
  moreover have "mo' = mo \<and> Disarm aid st = st" if "r = None"
    using d Some that by (auto simp: disarm_def Disarm_def split: option.splits)
  ultimately show ?thesis
    using Some d by (auto simp: SettleAssess_def Let_def core_assess split: option.splits sum.splits prod.splits
        dest!: core_dests core_assess(1))
qed (simp add: SettleAssess_def Disarm_def)

section \<open>The handlers\<close>

lemma core_status: "core (upd_agent aid (\<lambda>a. a\<lparr>a_status := x\<rparr>) st) =
   (agents st, monitor st, (snd (snd (core st)))(aid := (a_ID (objs st aid), x, a_fsm (objs st aid))))"
  by (auto simp: core_def fun_eq_iff)

lemma core_fail:
  "core (fail D aid reason st) =
     (if a_status (objs st aid) = StatusFailed \<or> a_status (objs st aid) = StatusTerminated then core st
      else leave aid StatusFailed (core st))"
  by (simp add: fail_def core_Disarm leave_def core_status) (simp add: core_def)

lemma manager_ok_fail [intro]: "manager_ok X st \<Longrightarrow> manager_ok X (fail D aid reason st)"
  by (simp add: manager_ok_def core_fail core_ok_leave)

lemma manager_ok_transition [intro]:
  "manager_ok X st \<Longrightarrow> q \<noteq> SessionPaused \<Longrightarrow> manager_ok X (fst (transition D aid q t flds st))"
  using core_transition [of D aid q t flds st] by (auto simp: manager_ok_def core_ok_set_fsm)

lemma manager_ok_onPiRecord [intro]:
  assumes ok: "manager_ok X st" shows "manager_ok X (onPiRecord D aid r st)"
proof (cases "unmarshal_str ''type'' r")
  case (Some t)
  let ?st = "NoteRecord D aid t st"
  have ok': "manager_ok X ?st" using ok ..
  have "core (SettleAssess D aid (upd_agent aid (\<lambda>a. a\<lparr>a_status := StatusReady\<rparr>) ?st)) =
      leave aid StatusReady (core ?st)"
    by (simp add: core_SettleAssess core_Disarm leave_def core_status) (simp add: core_def)
  then have "manager_ok X (SettleAssess D aid (upd_agent aid (\<lambda>a. a\<lparr>a_status := StatusReady\<rparr>) ?st))"
    using ok' by (simp add: manager_ok_def core_ok_leave)
  with ok' Some show ?thesis by (auto simp: onPiRecord_def Let_def)
qed (use ok in \<open>simp add: onPiRecord_def\<close>)

lemma core_eqD:
  "core st' = core st \<Longrightarrow> agents st' = agents st \<and> monitor st' = monitor st \<and>
     a_ID (objs st' i) = a_ID (objs st i) \<and> a_status (objs st' i) = a_status (objs st i) \<and>
     a_fsm (objs st' i) = a_fsm (objs st i)"
  by (auto simp: core_def fun_eq_iff)

lemma manager_ok_working:
  assumes "manager_ok X st" "aid \<in> set (agents st)" "a_fsm (objs st aid) \<noteq> SessionPaused"
  shows "manager_ok X (upd_agent aid (\<lambda>a. a\<lparr>a_status := StatusWorking\<rparr>) st)"
  using assms unfolding manager_ok_def core_status
  by (auto simp: core_ok_def core_def split: option.splits)

lemma manager_ok_turn_started:
  assumes ok: "manager_ok X st" "aid \<in> set (agents st)" "a_fsm (objs st aid) \<noteq> SessionPaused"
  shows "manager_ok X (turn_started D aid message st)"
proof -
  let ?st = "fst (transition D aid SessionRunning ''agent.turn_started'' [(''prompt'', JStr message)] st)"
  have "manager_ok X ?st" using ok(1) by auto
  moreover have "aid \<in> set (agents ?st)" "a_fsm (objs ?st aid) \<noteq> SessionPaused"
    using core_transition [of D aid SessionRunning "''agent.turn_started''" "[(''prompt'', JStr message)]" st] ok(2,3)
    by (auto simp: core_def set_fsm_def fun_eq_iff split: if_splits)
  ultimately have "manager_ok X (upd_agent aid (\<lambda>a. a\<lparr>a_status := StatusWorking\<rparr>) ?st)"
    by (rule manager_ok_working)
  then show ?thesis unfolding turn_started_def by (rule manager_ok_Arm) simp
qed

lemma prompt_gate_open: "prompt_gate aid a = None \<Longrightarrow> a_fsm a \<noteq> SessionPaused"
  by (auto simp: prompt_gate_def)

lemma manager_ok_turn_core:
  assumes "manager_ok X st" "aid \<in> set (agents st)" "prompt_gate aid (objs st aid) = None" "core st' = core st"
  shows "manager_ok X (turn_started D aid message st')"
  using assms core_eqD [OF assms(4)] prompt_gate_open [OF assms(3)]
  by (intro manager_ok_turn_started) (auto simp: manager_ok_def)

lemmas core_all_dests = core_dests core_preflight core_messages core_exec_command

lemma manager_ok_Prompt [intro]:
  assumes ok: "manager_ok X st" shows "manager_ok X (fst (Prompt D aid message st))"
proof (cases "aid \<in> set (agents st)")
  case True
  have "manager_ok X (fst (sendPrompt D aid message st))"
    using ok True
    by (auto simp: sendPrompt_def Let_def manager_ok_core [OF ok]
          intro!: manager_ok_turn_core [OF ok] split: option.splits prod.splits sum.splits bool.splits
          dest!: core_all_dests)
  with True show ?thesis by (simp add: Prompt_def)
qed (use ok in \<open>simp add: Prompt_def\<close>)

lemma core_Steer: "core (fst (Steer D aid message st)) = core st"
  by (auto simp: Steer_def sendSteer_def Let_def split: option.splits prod.splits sum.splits bool.splits
      dest!: core_all_dests)

lemma core_Abort: "core (fst (Abort D aid st)) = core st"
  by (auto simp: Abort_def Let_def split: option.splits prod.splits sum.splits bool.splits dest!: core_all_dests)

section \<open>Pumps and deletion\<close>

lemma manager_ok_upd:
  "manager_ok X st \<Longrightarrow> (\<And>a. a_ID (f a) = a_ID a \<and> a_status (f a) = a_status a \<and> a_fsm (f a) = a_fsm a) \<Longrightarrow>
     manager_ok X (upd_agent aid f st)"
  by (simp add: manager_ok_def core_upd)

lemma manager_ok_publish_raw [intro]: "manager_ok X st \<Longrightarrow> manager_ok X (publish_raw D aid r st)"
  by (simp add: manager_ok_def)

lemma manager_ok_stdout_line: "manager_ok X st \<Longrightarrow> manager_ok X (stdout_line D aid line st)"
  by (auto simp: stdout_line_def Let_def)

lemma manager_ok_stdout_lines:
  "manager_ok X st \<Longrightarrow> manager_ok X (foldl (\<lambda>st line. stdout_line D aid line st) st lines)"
  by (induction lines arbitrary: st) (simp_all add: manager_ok_stdout_line)

lemma manager_ok_stdoutPump [intro]: "manager_ok X st \<Longrightarrow> manager_ok X (fst (stdoutPump D aid ev st))"
  by (cases ev) (auto simp: stdoutPump_def Let_def manager_ok_stdout_lines intro!: manager_ok_fail manager_ok_upd)

lemma manager_ok_phasePoll [intro]: "manager_ok X st \<Longrightarrow> manager_ok X (fst (phasePoll D aid st))"
  using manager_ok_core [of X st]
  by (auto simp: phasePoll_def split: prod.split sum.split dest!: core_ask')

definition remove_core :: "string \<Rightarrow> mgr_core \<Rightarrow> mgr_core" where
  "remove_core aid c =
     (case leave aid StatusTerminated c of (ags, mon, ob) \<Rightarrow> (filter (\<lambda>i. i \<noteq> aid) ags, mon, ob))"

lemma core_ok_remove: "core_ok X c \<Longrightarrow> core_ok X (remove_core aid (set_fsm aid q c))" "core_ok X c \<Longrightarrow> core_ok X (remove_core aid c)"
  by (cases c; auto simp: core_ok_def remove_core_def set_fsm_def leave_def monitor_wf_disarm split: option.splits)+

lemma core_deleteOne:
  assumes "aid \<in> set (agents st)"
  shows "core (fst (deleteOne D aid st)) = remove_core aid (core st) \<or>
    core (fst (deleteOne D aid st)) = remove_core aid (set_fsm aid SessionTerminated (core st))"
proof -
  let ?f = "\<lambda>a. a\<lparr>a_cancelled := True, a_status := StatusTerminated, a_stdinClosed := (a_stdin a \<noteq> None)\<rparr>"
  define st1 where "st1 = upd_agent aid ?f (st\<lparr>agents := filter (\<lambda>i. i \<noteq> aid) (agents st)\<rparr>)"
  obtain ags mon ob where c: "core st = (ags, mon, ob)" by (metis prod_cases3)
  then have c1: "core st1 = (filter (\<lambda>i. i \<noteq> aid) ags, mon, ob(aid := (fst (ob aid), StatusTerminated, snd (snd (ob aid)))))"
    by (force simp: st1_def core_def)
  have res: "core (fst (deleteOne D aid st)) =
      core (Disarm aid (fst (transition D aid SessionTerminated ''agent.terminated'' [] st1)))"
    using assms
    by (auto simp: deleteOne_def Let_def st1_def core_upd split: prod.splits option.splits dest!: core_ask')
  show ?thesis
    using core_transition [of D aid SessionTerminated "''agent.terminated''" "[]" st1]
    unfolding res core_Disarm
    by (elim disjE) (simp_all add: c c1 remove_core_def set_fsm_def leave_def)
qed

lemma manager_ok_deleteOne [intro]: "manager_ok X st \<Longrightarrow> manager_ok X (fst (deleteOne D aid st))"
proof (cases "aid \<in> set (agents st)")
  case True
  assume "manager_ok X st"
  with core_deleteOne [OF True, of D] show ?thesis by (auto simp: manager_ok_def core_ok_remove)
qed (simp add: deleteOne_def)

lemma core_delete_sandboxes [simp]: "core (delete_sandboxes D infos st) = core st"
  by (induction infos arbitrary: st) auto

lemma core_delete_cr_children [simp]: "core (delete_cr_children D aid st) = core st"
  by (auto simp: delete_cr_children_def split: prod.split sum.split dest!: core_ask')

lemma manager_ok_cascade:
  "manager_ok X st \<Longrightarrow> deleteCascade n D aid vis st = Some (vis', st', e) \<Longrightarrow> manager_ok X st'"
  "manager_ok X st \<Longrightarrow> deleteChildren n D cs fe vis st = Some (vis', st', e) \<Longrightarrow> manager_ok X st'"
proof (induction n D aid vis st and n D cs fe vis st arbitrary: vis' st' e and vis' st' e
    rule: deleteCascade_deleteChildren.induct)
  case (2 n D aid vis st)
  show ?case
  proof (cases "aid \<in> vis")
    case False
    with "2.prems" obtain v1 st1 e1 where
      r: "deleteChildren n D (children_of st aid) None (insert aid vis) st = Some (v1, st1, e1)"
      and st': "st' = fst (deleteOne D aid (delete_cr_children D aid st1))"
      by (auto split: option.splits prod.splits)
    have "manager_ok X st1" using "2.IH" [OF False "2.prems"(1) r] .
    then have "manager_ok X (delete_cr_children D aid st1)" by (simp add: manager_ok_def)
    then show ?thesis unfolding st' ..
  qed (use "2.prems" in simp)
next
  case (4 n D c cs fe vis st)
  then obtain v1 st1 e1 where r: "deleteCascade n D c vis st = Some (v1, st1, e1)"
    by (auto split: option.splits)
  have rest: "deleteChildren n D cs (if fe = None then e1 else fe) v1 st1 = Some (vis', st', e)"
    using "4.prems"(2) r by simp
  show ?case by (rule "4.IH"(2) [OF r refl refl "4.IH"(1) [OF "4.prems"(1) r] rest])
qed simp_all

lemma manager_ok_Delete: "manager_ok X st \<Longrightarrow> Delete D aid st = Some (st', e) \<Longrightarrow> manager_ok X st'"
  unfolding Delete_def by (force dest: manager_ok_cascade(1) simp del: deleteCascade.simps)

section \<open>Creation\<close>

lemma core_rollback [simp]: "core (rollbackSandbox D name st) = core st"
  by (simp add: rollbackSandbox_def)

lemma core_startPi: "startPi D aid m st = (st', e) \<Longrightarrow> core st' = core st"
  by (auto simp: startPi_def core_upd split: prod.splits option.splits dest!: core_ask')

lemma core_checkSpawnCaps: "checkSpawnCaps D pid par st = (st', e) \<Longrightarrow> core st' = core st"
  by (auto simp: checkSpawnCaps_def childCount_def split: option.splits if_splits prod.splits sum.splits dest!: core_ask')

lemma core_waitReady:
  assumes "waitReady D name dl st = Some r" shows "core (fst r) = core st"
  apply (rule waitReady.raw_induct [OF _ assms, where P = "\<lambda>D name dl st r. core (fst r) = core st"])
  subgoal premises prems
    using prems(2) by (auto split: prod.splits sum.splits if_splits dest!: core_ask' prems(1))
  done

text \<open>An object that is not registered may be replaced by a new one with any status but
  \<open>StatusWorking\<close>, and registered when it is not terminated.\<close>

lemma manager_ok_object:
  assumes "manager_ok X st" "aid \<notin> set (agents st)" "a_status a \<noteq> StatusWorking"
  shows "manager_ok X (upd_agent aid (\<lambda>_. a) st)"
  using assms by (auto simp: manager_ok_def core_ok_def core_def split: option.splits)

lemma manager_ok_register:
  assumes "manager_ok X st" "aid \<notin> set (agents st)" "a_ID (objs st aid) = aid" "a_status (objs st aid) \<noteq> StatusTerminated"
  shows "manager_ok X (st\<lparr>agents := agents st @ [aid]\<rparr>)"
  using assms by (auto simp: manager_ok_def core_ok_def core_def split: option.splits)

lemma manager_ok_status:
  assumes "manager_ok X st" "a_status (objs st aid) \<noteq> StatusWorking" "x \<noteq> StatusWorking" "x \<noteq> StatusTerminated"
  shows "manager_ok X (upd_agent aid (\<lambda>a. a\<lparr>a_status := x\<rparr>) st)"
  using assms unfolding manager_ok_def core_status
  by (auto simp: core_ok_def core_def split: option.splits)

lemma manager_ok_unregister:
  assumes "manager_ok X st" "a_status (objs st aid) \<noteq> StatusWorking" "a_ID a = aid" "a_status a = StatusTerminated"
  shows "manager_ok X ((upd_agent aid (\<lambda>_. a) st)\<lparr>agents := filter (\<lambda>i. i \<noteq> aid) (agents st)\<rparr>)"
  using assms by (auto simp: manager_ok_def core_ok_def core_def split: option.splits)

text \<open>An agent under creation.\<close>

definition creating :: "entry_facts \<Rightarrow> string \<Rightarrow> 's AgentManager \<Rightarrow> bool" where
  "creating X aid st \<longleftrightarrow> manager_ok X st \<and> aid \<notin> set (agents st) \<and> a_ID (objs st aid) = aid \<and> a_status (objs st aid) = StatusCreating"

lemma creating_core: "creating X aid st \<Longrightarrow> core st' = core st \<Longrightarrow> creating X aid st'"
  using core_eqD [of st' st aid] by (auto simp: creating_def manager_ok_def)

lemma creating_ok: "creating X aid st \<Longrightarrow> manager_ok X st"
  by (simp add: creating_def)

lemma manager_ok_Create_start:
  assumes cr: "creating X aid st"
  shows "manager_ok X (fst (Create_start D aid st))"
proof -
  let ?t = "if Transport (d_cfg D) = TransportPull
            then (noteBootID D aid (upd_agent aid (\<lambda>a. a\<lparr>a_pullTransport := True\<rparr>) st), None)
            else startPi D aid (r_Model (a_resolved (objs st aid))) st"
  obtain st1 e1 where t: "?t = (st1, e1)" by fastforce
  have c1: "core st1 = core st"
    using t by (auto simp: core_upd split: if_splits dest!: core_startPi)
  have cr1: "creating X aid st1" using creating_core [OF cr c1] .
  show ?thesis
  proof (cases e1)
    case (Some e)
    then show ?thesis using t cr1 by (simp add: Create_start_def Let_def manager_ok_def creating_def)
  next
    case None
    let ?r = "st1\<lparr>agents := agents st1 @ [aid]\<rparr>"
    have r: "manager_ok X ?r" using cr1 by (intro manager_ok_register) (auto simp: creating_def)
    obtain st2 e2 where tr: "transition D aid SessionReady ''agent.started'' [] ?r = (st2, e2)" by fastforce
    have ok2: "manager_ok X st2" using manager_ok_transition [OF r, of SessionReady D aid "''agent.started''" "[]"] tr by simp
    have s2: "a_status (objs st2 aid) = StatusCreating" "a_ID (objs st2 aid) = aid"
      using core_transition [of D aid SessionReady "''agent.started''" "[]" ?r] tr cr1
      by (auto simp: creating_def core_def set_fsm_def fun_eq_iff split: if_splits)
    show ?thesis
    proof (cases e2)
      case (Some e)
      let ?f = "\<lambda>a. a\<lparr>a_cancelled := True, a_status := StatusTerminated,
                 a_stdinClosed := (a_stdin a \<noteq> None), a_hub := hub_Close (a_hub a)\<rparr>"
      have "manager_ok X ((upd_agent aid (\<lambda>_. ?f (objs st2 aid)) st2)\<lparr>agents := filter (\<lambda>i. i \<noteq> aid) (agents st2)\<rparr>)"
        using ok2 s2 by (intro manager_ok_unregister) auto
      then have "manager_ok X ((upd_agent aid ?f st2)\<lparr>agents := filter (\<lambda>i. i \<noteq> aid) (agents st2)\<rparr>)"
        by (simp add: upd_agent_def)
      then show ?thesis using t None tr Some by (simp add: Create_start_def Let_def manager_ok_def)
    next
      case ok: None
      have "manager_ok X (upd_agent aid (\<lambda>a. a\<lparr>a_status := StatusReady\<rparr>) st2)"
        using ok2 s2 by (intro manager_ok_status) auto
      then show ?thesis using t None tr ok by (simp add: Create_start_def Let_def)
    qed
  qed
qed

lemma manager_ok_or_rollback:
  assumes "creating X aid st" "\<And>st'. creating X aid st' \<Longrightarrow> manager_ok X (fst (k st'))"
  shows "manager_ok X (fst (or_rollback D name c k st))"
  using assms creating_core [OF assms(1)]
  by (auto simp: or_rollback_def manager_ok_core [OF creating_ok [OF assms(1)]] split: prod.splits option.splits dest!: core_ask')

lemma manager_ok_Create_provision:
  "creating X aid st \<Longrightarrow> manager_ok X (fst (Create_provision D aid par st))"
  unfolding Create_provision_def Let_def
  by (auto intro!: manager_ok_or_rollback manager_ok_Create_start intro: creating_core)

text \<open>The id drawn by a create, or after any further calls, is not that of a registered
  agent.\<close>

definition fresh_ids :: "'s deps \<Rightarrow> 's AgentManager \<Rightarrow> bool" where
  "fresh_ids D st \<longleftrightarrow> (\<forall>cs. ''agent-'' @ o_rand (d_out D) (calls st @ cs) \<notin> set (agents st))"

lemma randID_fresh: "fresh_ids D st \<Longrightarrow> randID D ''agent'' st = (st', aid) \<Longrightarrow> aid \<notin> set (agents st)"
  by (auto simp: randID_def fresh_ids_def ask_def Let_def)

lemma calls_checkSpawnCaps: "checkSpawnCaps D pid par st = (st', e) \<Longrightarrow> \<exists>cs. calls st' = calls st @ cs"
  by (auto simp: checkSpawnCaps_def childCount_def ask_def Let_def split: option.splits if_splits sum.splits)

lemma fresh_ids_caps:
  assumes "checkSpawnCaps D pid par st = (st', e)" "fresh_ids D st"
  shows "fresh_ids D st'"
  using calls_checkSpawnCaps [OF assms(1)] core_eqD [OF core_checkSpawnCaps [OF assms(1)]] assms(2)
  by (auto simp: fresh_ids_def)

lemma creating_new:
  assumes "manager_ok X st" "aid \<notin> set (agents st)"
  shows "creating X aid (upd_agent aid (\<lambda>_. new_agent aid t pid res h) st)"
  using assms by (auto simp: creating_def new_agent_def intro!: manager_ok_object)

lemma manager_ok_provisioned:
  "Create_provision D aid par st = (st', r) \<Longrightarrow> creating X aid st0 \<Longrightarrow> core st = core st0 \<Longrightarrow> manager_ok X st'"
  using manager_ok_Create_provision [OF creating_core [of X aid st0 st], of D par] by auto

lemma manager_ok_Create:
  assumes ok: "manager_ok X st" "fresh_ids D st" and res: "Create D mp st = Some (st', r)"
  shows "manager_ok X st'"
proof -
  define profile where "profile = (case mp of None \<Rightarrow> empty_profile | Some p \<Rightarrow> p)"
  note create = Create_def Let_def profile_def [symmetric]
  show ?thesis
  proof (cases "resolveParent (p_ParentID profile) st")
    case (Inl e)
    with res ok show ?thesis by (simp add: create)
  next
    case par: (Inr parent)
    obtain st1 e1 where caps: "checkSpawnCaps D (p_ParentID profile) parent st = (st1, e1)" by fastforce
    have c1: "core st1 = core st" using core_checkSpawnCaps [OF caps] .
    have ok1: "manager_ok X st1" "fresh_ids D st1" using ok c1 fresh_ids_caps [OF caps] by (auto simp: manager_ok_def)
    obtain st2 aid where rid: "randID D ''agent'' st1 = (st2, aid)" by fastforce
    have ok2: "manager_ok X st2" using ok1 core_messages(3) [OF rid] by (auto simp: manager_ok_def)
    have new2: "aid \<notin> set (agents st2)"
      using randID_fresh [OF ok1(2) rid] core_eqD [OF core_messages(3) [OF rid]] by simp
    obtain st3 now where t3: "ask D o_time CNow st2 = (st3, now)" by fastforce
    have ok3: "manager_ok X st3" "aid \<notin> set (agents st3)"
      using ok2 new2 core_ask' [OF t3] core_eqD [OF core_ask' [OF t3]] by (auto simp: manager_ok_def)
    note cr = creating_new [OF ok3]
    show ?thesis
      using res ok1 ok2 ok3
      by (auto simp: create par caps rid t3 split: option.splits sum.splits prod.splits if_splits
          dest!: core_ask' core_waitReady
                    intro: manager_ok_provisioned [OF _ cr] creating_ok [OF creating_core [OF cr]])
  qed
qed

section \<open>Revive and pull\<close>

lemma core_recordDaemonBoot [simp]: "core (recordDaemonBoot D aid ds st) = core st"
  by (simp add: recordDaemonBoot_def)

lemma core_records [simp]:
  "core (recordBootOnce D aid ds st) = core st" "core (recordReviveAbandoned D aid n reason st) = core st"
  "core (replacement_up D aid ds st) = core st"
  by (auto simp: recordBootOnce_def recordReviveAbandoned_def replacement_up_def split: sum.split)

lemma core_recordReviveConsumed: "recordReviveConsumed D aid n st = (st', ok) \<Longrightarrow> core st' = core st"
  by (auto simp: recordReviveConsumed_def split: prod.splits dest!: core_dests)

lemma core_consume:
  assumes "consumeReviveAttempt D aid st = Some r" shows "core (fst r) = core st"
  apply (rule consumeReviveAttempt.raw_induct [OF _ assms, where P = "\<lambda>D aid st r. core (fst r) = core st"])
  subgoal premises prems
    using prems(2)
    by (auto simp: Let_def split: prod.splits if_splits dest!: core_ask' core_recordReviveConsumed prems(1))
  done

lemma core_replacement_loop:
  assumes "replacement_loop D aid dl st = Some r" shows "core (fst r) = core st"
  apply (rule replacement_loop.raw_induct [OF _ assms, where P = "\<lambda>D aid dl st r. core (fst r) = core st"])
  subgoal premises prems
    using prems(2) by (auto split: prod.splits sum.splits if_splits dest!: core_ask' core_preflight prems(1))
  done

lemma core_waitForReplacement: "waitForReplacementDaemon D aid st = Some r \<Longrightarrow> core (fst r) = core st"
  by (auto simp: waitForReplacementDaemon_def split: prod.splits dest!: core_ask' core_replacement_loop)

lemmas core_revive_dests = core_ask' core_preflight core_consume core_waitForReplacement

lemma transition_sel:
  "a_status (objs (fst (transition D aid q t flds st)) i) = a_status (objs st i)"
  "agents (fst (transition D aid q t flds st)) = agents st"
  by (simp_all add: transition_def split: prod.split)

lemma manager_ok_pauseSession:
  assumes "manager_ok X st" "pauseSession D aid reason st = (st', ok)"
  shows "manager_ok X st'"
proof (cases "transition D aid SessionPaused lifecyclePaused [(''reason'', JStr reason)] st")
  case (Pair st1 e)
  show ?thesis
  proof (cases e)
    case None
    have c: "core st1 = set_fsm aid SessionPaused (core st)" using Pair None core_transition_ok by metis
    have "st' = fail D aid (''sandbox death: '' @ reason) st1" using assms(2) Pair None by (simp add: pauseSession_def)
    moreover have "a_status (objs st1 aid) = a_status (objs st aid)"
      using transition_sel(1) Pair by (metis fst_conv)
    ultimately show ?thesis
      using assms(1) unfolding manager_ok_def
      by (auto simp: core_fail c core_ok_leave core_ok_set_fsm) (auto simp: core_def intro: core_ok_set_fsm)
  next
    case (Some e')
    then show ?thesis using assms Pair core_transition_err [of D aid _ _ _ st st1 e']
      by (auto simp: pauseSession_def manager_ok_def)
  qed
qed

lemma manager_ok_pauseAndRevive:
  "manager_ok X st \<Longrightarrow> pauseAndRevive D aid st = Some (st', stop) \<Longrightarrow> manager_ok X st'"
  by (auto simp: pauseAndRevive_def manager_ok_def split: prod.splits bool.splits option.splits
      dest!: core_revive_dests dest: manager_ok_pauseSession [unfolded manager_ok_def])

lemma core_hold: "holdAndResumePuller D aid st = Some (st', b) \<Longrightarrow> core st' = core st"
  by (auto simp: holdAndResumePuller_def Let_def split: option.splits dest!: core_revive_dests)

lemma core_reviveFromPaused: "reviveFromPaused D aid st = Some (st', b) \<Longrightarrow> core st' = core st"
  by (auto simp: reviveFromPaused_def Let_def split: option.splits if_splits bool.splits dest!: core_revive_dests core_hold)

lemma core_Resume: "core (fst (Resume D aid st)) = core st"
  by (auto simp: Resume_def Let_def core_upd split: prod.splits option.splits bool.splits
      dest!: core_dests core_recordReviveConsumed)

lemma manager_ok_completeRevive [intro]:
  assumes ok: "manager_ok X st" shows "manager_ok X (completeRevive D aid st)"
proof -
  let ?st = "upd_agent aid (\<lambda>a. a\<lparr>a_pendingRevive := False\<rparr>) st"
  have ok1: "manager_ok X ?st" using ok by (simp add: manager_ok_def core_upd)
  show ?thesis
  proof (cases "a_pendingRevive (objs st aid) \<and> a_fsm (objs st aid) = SessionPaused")
    case True
    then have nw: "a_status (objs st aid) \<noteq> StatusWorking"
      using ok by (auto simp: manager_ok_def core_ok_def core_def)
    obtain st1 e1 where t1: "transition D aid SessionRunning lifecycleRevived [] ?st = (st1, e1)" by fastforce
    have ok2: "manager_ok X st1"
      using manager_ok_transition [OF ok1, of SessionRunning D aid lifecycleRevived "[]"] t1 by simp
    let ?st2 = "fst (transition D aid SessionIdle lifecycleSettled [(''revive_settled'', JBool True)] st1)"
    have ok3: "manager_ok X ?st2" using ok2 by auto
    have "a_status (objs ?st2 aid) \<noteq> StatusWorking"
      using nw transition_sel(1) [of D aid SessionRunning lifecycleRevived "[]" ?st aid] t1
      by (simp add: transition_sel)
    with ok3 have "manager_ok X (upd_agent aid (\<lambda>a. a\<lparr>a_status := StatusReady\<rparr>) ?st2)"
      by (intro manager_ok_status) auto
    with ok2 t1 True show ?thesis by (simp add: completeRevive_def Let_def split: option.split)
  qed (use ok1 in \<open>auto simp: completeRevive_def Let_def\<close>)
qed

lemma manager_ok_ask [simp]: "manager_ok X (fst (ask D f c st)) = manager_ok X st"
  by (simp add: manager_ok_def)

lemma manager_ok_drain_batch: "manager_ok X st \<Longrightarrow> manager_ok X (fst (drain_batch D aid recs st))"
proof (induction D aid recs st rule: drain_batch.induct)
  case (2 D aid i r recs st)
  obtain st1 v where p: "publish_pulled D aid r i st = (st1, v)" by fastforce
  then have "manager_ok X st1" using "2.prems" core_publish'(2) [OF p] by (simp add: manager_ok_def)
  with "2.IH" p show ?case by (auto split: sum.split)
qed simp

lemma manager_ok_pull_batch: "manager_ok X st \<Longrightarrow> manager_ok X (fst (pull_batch D aid b recs st))"
proof (induction D aid b recs st rule: pull_batch.induct)
  case (2 D aid b i r recs st)
  obtain st1 v where p: "publish_pulled D aid r i st = (st1, v)" by fastforce
  then have "manager_ok X st1" using "2.prems" core_publish'(2) [OF p] by (simp add: manager_ok_def)
  with "2.IH" p show ?case by (auto split: sum.split)
qed simp

lemma manager_ok_drain_loop:
  assumes "drain_loop D aid dc st = Some r" shows "manager_ok X st \<longrightarrow> manager_ok X (fst r)"
  apply (rule drain_loop.raw_induct [OF _ assms, where P = "\<lambda>D aid dc st r. manager_ok X st \<longrightarrow> manager_ok X (fst r)"])
  subgoal premises prems for dl D aid dc st r
  proof
    assume ok: "manager_ok X st"
    obtain st1 v where a: "ask D o_records (CRecords dc (origin (a_hub (objs st aid))) 0) st = (st1, v)" by fastforce
    have ok1: "manager_ok X st1" using ok core_ask' [OF a] by (simp add: manager_ok_def)
    show "manager_ok X (fst r)"
      using prems(2) a ok1 manager_ok_drain_batch [OF ok1, of D aid]
      by (auto split: sum.splits if_splits prod.splits dest!: prems(1)) (metis fst_conv)+
  qed
  done

lemma manager_ok_drainSpool: "manager_ok X st \<Longrightarrow> drainSpool D aid st = Some (st', ok) \<Longrightarrow> manager_ok X st'"
  by (auto simp: drainSpool_def manager_ok_def split: prod.splits sum.splits dest!: core_daemonFor'
      dest: manager_ok_drain_loop [unfolded manager_ok_def])

lemma manager_ok_death_step:
  assumes ok: "manager_ok X st" and res: "death_step D aid pl st = Some (st', pl')"
  shows "manager_ok X st'"
proof -
  obtain st1 b where a: "ask D o_live (CSleep (pl_backoff pl)) st = (st1, b)" by fastforce
  have ok1: "manager_ok X st1" using ok core_ask' [OF a] by (simp add: manager_ok_def)
  obtain st2 r where p: "preflight D aid st1 = (st2, r)" by fastforce
  have ok2: "manager_ok X st2" using ok1 core_preflight [OF p] by (simp add: manager_ok_def)
  have boot: "manager_ok X (recordDaemonBoot D aid ds s)" if "manager_ok X s" for ds and s :: "'a AgentManager"
    using that by (simp add: manager_ok_def)
  show ?thesis
    using res a p ok1 ok2 manager_ok_drainSpool [OF ok2, of D aid] boot
    by (fastforce simp: death_step_def split: bool.splits sum.splits option.splits if_splits
        dest: manager_ok_pauseAndRevive)
qed

lemma core_pull_failed: "pull_failed D aid pl st = (st', r) \<Longrightarrow> core st' = core st"
  by (auto simp: pull_failed_def Let_def split: prod.splits bool.splits if_splits dest!: core_ask')

lemma core_pull_failed_fst [simp]: "core (fst (pull_failed D aid pl st)) = core st"
  using core_pull_failed [of D aid pl st] by (cases "pull_failed D aid pl st") simp

lemma core_pull_reconnect: "pull_reconnect D aid pl st = (st', r) \<Longrightarrow> core st' = core st"
  by (auto simp: pull_reconnect_def bootIDChanged_def Let_def core_upd split: prod.splits sum.splits if_splits
      dest!: core_preflight)

lemma manager_ok_pull_step:
  assumes ok: "manager_ok X st"
  shows "manager_ok X (fst (pull_step D aid pl st))"
proof -
  have batch: "manager_ok X st'"
    if "pull_batch D aid b rs (setDegraded aid False s) = (st', ok')" "core s = core st" for b rs s st' ok'
    using manager_ok_pull_batch [of X "setDegraded aid False s" D aid b rs] that ok by (simp add: manager_ok_def)
  show ?thesis
    unfolding pull_step_def
    by (auto split: prod.splits bool.splits sum.splits option.splits
        dest!: core_daemonFor' core_ask' core_pull_failed core_pull_reconnect
        intro: manager_ok_core [OF ok] dest: batch intro!: manager_ok_completeRevive)
qed

lemma manager_ok_puller_step:
  "manager_ok X st \<Longrightarrow> puller_step D aid pl st = Some (st', pl') \<Longrightarrow> manager_ok X st'"
  using manager_ok_pull_step [of X st D aid pl]
  by (auto simp: puller_step_def split: if_splits dest: manager_ok_death_step)

section \<open>Registry\<close>

text \<open>The two projections of the same log fit together.\<close>

lemma replay_terminated: "ReplayAgentStatus evs = StatusTerminated \<Longrightarrow> ReplaySession evs = SessionTerminated"
proof (induction evs rule: rev_induct)
  case (snoc ev evs)
  have "session_apply q lifecycleTerminated = SessionTerminated" for q
    by (cases q) (simp_all add: session_apply_def lifecycle_defs sessionEventType_def)
  with snoc show ?case by (auto simp: status_apply_def split: if_splits)
qed simp

lemma session_apply_other:
  assumes "sessionEventType t = None \<or> sessionEventType t = Some SessionReviving"
  shows "session_apply q t = q"
  using assms by (cases q) (auto simp: session_apply_def)

lemma replay_working: "ReplayAgentStatus evs = StatusWorking \<Longrightarrow> ReplaySession evs \<noteq> SessionPaused"
proof (induction evs rule: rev_induct)
  case (snoc ev evs)
  show ?case
  proof (cases "Type ev = lifecycleTurnStarted")
    case True
    then show ?thesis
      by (cases "ReplaySession evs") (simp_all add: session_apply_def lifecycle_defs sessionEventType_def)
  next
    case False
    then have prior: "ReplayAgentStatus evs = StatusWorking"
      and t: "Type ev \<notin> {lifecycleProvisioned, lifecycleStarted, lifecycleSettled, lifecycleFailed,
        lifecyclePaused, lifecycleRevived, lifecycleTerminated}"
      using snoc.prems by (auto simp: status_apply_def split: if_splits)
    have "sessionEventType (Type ev) = None \<or> sessionEventType (Type ev) = Some SessionReviving"
      using t False by (auto simp: sessionEventType_def lifecycle_defs)
    with snoc.IH [OF prior] show ?thesis by (simp add: session_apply_other)
  qed
qed simp

lemma replayed_agent_sel [simp]:
  "a_ID (replayed_agent aid h evs) = aid" "a_status (replayed_agent aid h evs) = ReplayAgentStatus evs"
  "a_fsm (replayed_agent aid h evs) = ReplaySession evs"
  by (simp_all add: replayed_agent_def Let_def)

lemma manager_ok_replayed:
  assumes "manager_ok X st" "aid \<notin> set (agents st)" "ReplaySession evs \<noteq> SessionTerminated"
  shows "manager_ok X (upd_agent aid (\<lambda>_. replayed_agent aid h evs) (st\<lparr>agents := agents st @ [aid]\<rparr>))"
  using assms replay_terminated [of evs] replay_working [of evs]
  by (auto simp: manager_ok_def core_ok_def core_def split: option.splits)

lemma manager_ok_set_pull: "manager_ok X st \<Longrightarrow> manager_ok X (upd_agent aid (\<lambda>a. a\<lparr>a_pullTransport := b\<rparr>) st)"
  by (rule manager_ok_upd) simp_all

lemma manager_ok_rebuild_agent:
  assumes ok: "manager_ok X st" and res: "rebuild_agent D aid st = (st', e, go)"
  shows "manager_ok X st'"
  using assms
  by (auto simp: rebuild_agent_def Let_def split: sum.splits if_splits
      intro!: manager_ok_Arm manager_ok_set_pull manager_ok_replayed)

lemma manager_ok_rebuild_loop:
  "manager_ok X st \<Longrightarrow> rebuild_loop D ids gos st = (st', e, go) \<Longrightarrow> manager_ok X st'"
  by (induction D ids gos st rule: rebuild_loop.induct)
    (auto split: prod.splits option.splits dest: manager_ok_rebuild_agent)

lemma manager_ok_Rebuild: "manager_ok X st \<Longrightarrow> RebuildFromLog D st = (st', e, go) \<Longrightarrow> manager_ok X st'"
  by (auto simp: RebuildFromLog_def split: sum.splits dest: manager_ok_rebuild_loop)

section \<open>Waits\<close>

lemma core_waitDrain: "waitDrain n aid sub cl st = (st', cl') \<Longrightarrow> core st' = core st"
  by (induction n aid sub cl st rule: waitDrain.induct) (auto split: prod.splits option.splits)

lemma core_wait_wake: "core (fst (wait_wake D aid sub n cl st)) = core st"
  by (auto simp: wait_wake_def split: prod.splits dest!: core_waitDrain)

lemma core_Wait: "core (fst (Wait D aid n st)) = core st"
  by (auto simp: Wait_def Let_def core_wait_wake split: option.splits sum.splits prod.splits bool.splits)

lemma core_wait_select: "core (fst (wait_select D aid sub cl choice st)) = core st"
  by (auto simp: wait_select_def Let_def core_wait_wake split: wait_choice.splits option.splits prod.splits bool.splits)

section \<open>Runs of the controller\<close>

text \<open>What can happen to a manager: the verbs of its callers, the goroutines of its agents, the
  two halves of a tick and the waits.  The mode of a long-running goroutine, its \<open>puller\<close> or
  what a wait has seen, is part of the operation, so that every interleaving is a sequence of
  operations.\<close>

datatype mgr_op =
    MCreate "create_profile option"
  | MPrompt string string
  | MSteer string string
  | MAbort string
  | MDelete string
  | MExec string exec_event
  | MPhase string
  | MPull string puller
  | MRevive string
  | MHold string
  | MResume string
  | MRebuild
  | MTickBegin nat
  | MTickEnd nat "string \<times> Verdict"
  | MWait string nat
  | MSelect string nat wake_state wait_choice

text \<open>The state after an operation; one that never returns is no step of the run.\<close>

definition mgr_step :: "'s deps \<Rightarrow> mgr_op \<Rightarrow> 's AgentManager \<Rightarrow> 's AgentManager" where
  "mgr_step D op st =
     (case op of
        MCreate mp \<Rightarrow> (case Create D mp st of None \<Rightarrow> st | Some r \<Rightarrow> fst r)
      | MPrompt aid m \<Rightarrow> fst (Prompt D aid m st)
      | MSteer aid m \<Rightarrow> fst (Steer D aid m st)
      | MAbort aid \<Rightarrow> fst (Abort D aid st)
      | MDelete aid \<Rightarrow> (case Delete D aid st of None \<Rightarrow> st | Some r \<Rightarrow> fst r)
      | MExec aid ev \<Rightarrow> fst (stdoutPump D aid ev st)
      | MPhase aid \<Rightarrow> fst (phasePoll D aid st)
      | MPull aid pl \<Rightarrow> (case puller_step D aid pl st of None \<Rightarrow> st | Some r \<Rightarrow> fst r)
      | MRevive aid \<Rightarrow> (case reviveFromPaused D aid st of None \<Rightarrow> st | Some r \<Rightarrow> fst r)
      | MHold aid \<Rightarrow> (case holdAndResumePuller D aid st of None \<Rightarrow> st | Some r \<Rightarrow> fst r)
      | MResume aid \<Rightarrow> fst (Resume D aid st)
      | MRebuild \<Rightarrow> fst (RebuildFromLog D st)
      | MTickBegin i \<Rightarrow> fst (tick_begin D i st)
      | MTickEnd i sv \<Rightarrow> tick_end D i sv st
      | MWait aid n \<Rightarrow> fst (Wait D aid n st)
      | MSelect aid sub cl ch \<Rightarrow> fst (wait_select D aid sub cl ch st))"

fun mgr_run :: "'s deps \<Rightarrow> mgr_op list \<Rightarrow> 's AgentManager \<Rightarrow> 's AgentManager" where
  "mgr_run D [] st = st"
| "mgr_run D (op # ops) st = mgr_run D ops (mgr_step D op st)"

text \<open>The random source does not repeat the id of a registered agent.\<close>

fun run_fresh :: "'s deps \<Rightarrow> mgr_op list \<Rightarrow> 's AgentManager \<Rightarrow> bool" where
  "run_fresh D [] st = True"
| "run_fresh D (op # ops) st =
     ((case op of MCreate _ \<Rightarrow> fresh_ids D st | _ \<Rightarrow> True) \<and> run_fresh D ops (mgr_step D op st))"

lemma manager_ok_step:
  assumes ok: "manager_ok X st" and fr: "case op of MCreate _ \<Rightarrow> fresh_ids D st | _ \<Rightarrow> True"
  shows "manager_ok X (mgr_step D op st)"
proof (cases op)
  case (MCreate mp)
  then show ?thesis using ok fr by (auto simp: mgr_step_def split: option.split dest: manager_ok_Create)
next
  case (MDelete aid)
  then show ?thesis using ok by (auto simp: mgr_step_def split: option.split dest: manager_ok_Delete)
next
  case (MPull aid pl)
  then show ?thesis using ok by (auto simp: mgr_step_def split: option.split dest: manager_ok_puller_step)
next
  case (MRevive aid)
  then show ?thesis using ok
    by (auto simp: mgr_step_def split: option.split dest!: core_reviveFromPaused intro: manager_ok_core)
next
  case (MHold aid)
  then show ?thesis using ok by (auto simp: mgr_step_def split: option.split dest!: core_hold intro: manager_ok_core)
next
  case MRebuild
  obtain s e go where "RebuildFromLog D st = (s, e, go)" by (cases "RebuildFromLog D st") auto
  then show ?thesis using ok MRebuild by (auto simp: mgr_step_def dest: manager_ok_Rebuild)
next
  case (MTickBegin i)
  obtain s r where "tick_begin D i st = (s, r)" by (cases "tick_begin D i st") auto
  then show ?thesis using ok MTickBegin by (auto simp: mgr_step_def dest!: core_tick_begin intro: manager_ok_core)
qed (use ok in \<open>auto simp: mgr_step_def intro: manager_ok_core core_Steer core_Abort core_Resume core_Wait
       core_wait_select core_tick_end\<close>)

lemma manager_ok_run: "manager_ok X st \<Longrightarrow> run_fresh D ops st \<Longrightarrow> manager_ok X (mgr_run D ops st)"
  by (induction D ops st rule: mgr_run.induct) (auto intro: manager_ok_step)

end
