(* ===== verification/Controller_Runs.thy ===== *)
theory Controller_Runs
  imports Controller_Invariants
begin

text \<open>
  The properties of whole runs of the controller, from its start (\<open>NewAgentManager\<close> of
  \<open>controller/agent.go\<close>), and concrete runs that show their hypotheses can hold.
\<close>

text \<open>No object: what the controller has for an id it has not created.\<close>

definition no_agent :: agent where
  "no_agent = \<lparr>a_ID = [], a_Sandbox = [], a_Created = 0, a_ParentID = [],
     a_resolved = \<lparr>r_Name = [], r_Image = [], r_Resources = \<lparr>CPU = [], Memory = []\<rparr>, r_Provider = [], r_Model = []\<rparr>,
     a_status = StatusCreating, a_piSeq = 0, a_replayedOnly = False, a_bootID = [], a_degraded = False,
     a_pendingRevive = False,
     a_hub = \<lparr>agentID = [], nextSeq = 0, origin = 0, subscribers = [], nextSub = 0, closed = False\<rparr>,
     a_fsm = SessionProvision, a_stdin = None, a_stdinClosed = False, a_daemon = None,
     a_pullTransport = False, a_cmdSeq = 0, a_cancelled = False\<rparr>"

definition NewAgentManager :: "'s \<Rightarrow> Monitor option \<Rightarrow> 's AgentManager" where
  "NewAgentManager s mo =
     \<lparr>agents = [], objs = (\<lambda>_. no_agent), store = s, monitor = mo, skippedTicks = 0, calls = []\<rparr>"


lemma manager_ok_new: "mo = None \<or> mo = Some (NewMonitor n) \<Longrightarrow> manager_ok {} (NewAgentManager s mo)"
  by (auto simp: manager_ok_def core_ok_def core_def NewAgentManager_def no_agent_def monitor_wf_new)
    (simp add: NewMonitor_def)

lemma mgr_run_append: "mgr_run D (ops @ ops') st = mgr_run D ops' (mgr_run D ops st)"
  by (induction D ops st rule: mgr_run.induct) auto

lemma run_fresh_append: "run_fresh D (ops @ ops') st \<longleftrightarrow> run_fresh D ops st \<and> run_fresh D ops' (mgr_run D ops st)"
  by (induction D ops st rule: mgr_run.induct) auto

text \<open>Entries already there and their agents are facts a state starts with; the entries of an
  agent without a turn are disarmed.\<close>

lemma manager_ok_entry:
  assumes "manager_ok X st" "(i, aid, b) \<in> X"
  obtains mo where "monitor st = Some mo" "i < length (mo_entries mo)" "e_hub (mo_entries mo ! i) = aid"
    "b \<Longrightarrow> e_gen (mo_entries mo ! i) \<noteq> 0"
    "e_gen (mo_entries mo ! i) = 0 \<Longrightarrow> a_status (objs st aid) = StatusWorking"
proof (cases "monitor st")
  case None
  then show ?thesis using assms by (simp add: manager_ok_def core_ok_def core_def)
next
  case (Some mo)
  then have wf: "monitor_wf X mo" and w: "\<And>a. mo_agents mo a \<noteq> None \<Longrightarrow> a_status (objs st a) = StatusWorking"
    using assms(1) by (auto simp: manager_ok_def core_ok_def core_def)
  have e: "i < length (mo_entries mo)" "e_hub (mo_entries mo ! i) = aid" "b \<Longrightarrow> e_gen (mo_entries mo ! i) \<noteq> 0"
    using wf assms(2) by (auto simp: monitor_wf_def dest: bspec)
  show ?thesis
  proof (rule that [OF Some e])
    assume "e_gen (mo_entries mo ! i) = 0"
    then have "mo_agents mo aid = Some i" using wf e by (auto simp: monitor_wf_def)
    then show "a_status (objs st aid) = StatusWorking" using w by simp
  qed
qed

lemma manager_ok_known:
  assumes "manager_ok {} st" "monitor st = Some mo" "mo_agents mo aid = Some i"
  shows "manager_ok {(i, aid, False)} st"
  using assms by (auto simp: manager_ok_def core_ok_def core_def monitor_wf_def)

lemma manager_ok_disarmed:
  assumes "manager_ok {(i, aid, False)} st" "a_status (objs st aid) \<noteq> StatusWorking"
  shows "manager_ok {(i, aid, True)} st"
proof -
  obtain mo where "monitor st = Some mo" "i < length (mo_entries mo)" "e_hub (mo_entries mo ! i) = aid"
    "e_gen (mo_entries mo ! i) = 0 \<Longrightarrow> a_status (objs st aid) = StatusWorking"
    using manager_ok_entry [OF assms(1)] by blast
  then show ?thesis using assms by (auto simp: manager_ok_def core_ok_def core_def monitor_wf_def)
qed



section \<open>Concrete runs\<close>

definition demo_out :: outside where
  "demo_out =
     \<lparr>o_time = (\<lambda>cs. second * int (length cs)), o_rand = (\<lambda>cs. replicate (length cs) (CHR ''0'')),
      o_str = (\<lambda>_. Inr ''http://10.0.0.1:8080''), o_err = (\<lambda>_. None), o_phase = (\<lambda>_. Inr PhaseReady),
      o_sandboxes = (\<lambda>_. Inr []), o_names = (\<lambda>_. Inr []),
      o_status = (\<lambda>_. Inr \<lparr>ds_AgentID = [], ds_BootID = ''b1'', ds_PiRunning = True\<rparr>),
      o_records = (\<lambda>_. Inr []), o_verdict = (\<lambda>_. Inl ''no model''), o_live = (\<lambda>_. True)\<rparr>"

definition demo_deps :: "mem_db deps" where
  "demo_deps =
     \<lparr>d_store = BoltEventStore mem_bolt, d_out = demo_out, d_cfg = (DefaultConfig demo_env)\<lparr>Transport := TransportPull\<rparr>,
      d_text = (\<lambda>_. []), d_json = (\<lambda>s. RawBad s), d_resolver = True\<rparr>"

definition log_entry :: "nat \<Rightarrow> string \<Rightarrow> (string \<times> json) list \<Rightarrow> string \<times> bval" where
  "log_entry n t flds =
     (seqKey (of_nat n), BJson (JObj [(''seq'', JNum (of_nat n)), (''type'', JStr t), (''data'', JObj flds)]))"

definition demo_log :: mem_db where
  "demo_log = mem_empty\<lparr>mdata := [(''a1'',
     [log_entry 1 ''agent.provisioned'' [(''sandbox'', JStr ''s1'')],
      log_entry 2 ''agent.started'' [],
      log_entry 3 ''agent.turn_started'' [(''prompt'', JStr ''go'')]])]\<rparr>"

definition demo_events :: "event list" where
  "demo_events =
     [\<lparr>Seq = 1, Type = ''agent.provisioned'', Data = RawDoc (JObj [(''sandbox'', JStr ''s1'')])\<rparr>,
      \<lparr>Seq = 2, Type = ''agent.started'', Data = RawDoc (JObj [])\<rparr>,
      \<lparr>Seq = 3, Type = ''agent.turn_started'', Data = RawDoc (JObj [(''prompt'', JStr ''go'')])\<rparr>]"

lemma demo_log_read:
  "NewEventHub (BoltEventStore mem_bolt) ''a1'' demo_log = Inr (demo_hub\<lparr>nextSeq := 3\<rparr>)"
  "SubscribeSnapshot (BoltEventStore mem_bolt) (demo_hub\<lparr>nextSeq := 3\<rparr>) demo_log = Inr demo_events"
  "store_Agents mem_bolt demo_log = Inr [''a1'']"
  by (simp_all add: run_simps demo_log_def log_entry_def demo_hub_def demo_events_def)

lemma demo_replay:
  "ReplaySession demo_events = SessionRunning" "ReplayAgentStatus demo_events = StatusWorking"
  by code_simp+

lemma demo_deps_sel [simp]:
  "d_store demo_deps = BoltEventStore mem_bolt" "d_out demo_deps = demo_out" "d_resolver demo_deps"
  "Transport (d_cfg demo_deps) = TransportPull"
  by (simp_all add: demo_deps_def)

definition demo_manager :: "mem_db AgentManager" where
  "demo_manager = NewAgentManager demo_log (Some (NewMonitor 60000000000))"

lemmas rebuild_eval = RebuildFromLog_def rebuild_agent_def demo_log_read demo_replay demo_manager_def
  NewAgentManager_def NewMonitor_def Arm_def arm_entry_def upd_entry_def Let_def ask_def

lemma demo_rebuilt:
  defines "st \<equiv> mgr_run demo_deps [MRebuild] demo_manager"
  shows "agents st = [''a1'']" "map_option (\<lambda>mo. mo_agents mo ''a1'') (monitor st) = Some (Some 0)"
    "a_status (objs st ''a1'') = StatusWorking" "store st = demo_log"
    "a_hub (objs st ''a1'') = demo_hub\<lparr>nextSeq := 3\<rparr>"
  unfolding st_def by (simp_all add: mgr_step_def rebuild_eval replayed_agent_def)


text \<open>The exec stream of the agent ends while the turn runs.\<close>

lemma demo_failed:
  "a_status (objs (mgr_run demo_deps [MRebuild, MExec ''a1'' (ExecEnd ''EOF'')] demo_manager) ''a1'') = StatusFailed"
  using demo_rebuilt by (simp add: mgr_step_def stdoutPump_def fail_def Disarm_def publish_def split: option.split prod.split)

definition demo_verdict :: Verdict where
  "demo_verdict = \<lparr>vd_Verdict = ''stuck'', vd_Confidence = ''high'', vd_Reason = ''no progress''\<rparr>"


end
