(* ===== verification/Agent_Deletion.thy ===== *)
theory Agent_Deletion
  imports Controller_Runs
begin

text \<open>
  The cascade of a delete (\<open>m.Delete\<close> of \<open>controller/agent.go\<close>): it returns for every parent
  graph, corrupt ones with cycles included, and takes out of the registry exactly what is
  reached from the id over the parent links of the registered agents.
\<close>

section \<open>The spawned subtree\<close>

definition child_rel :: "'s AgentManager \<Rightarrow> (string \<times> string) set" where
  "child_rel st = {(p, c). c \<in> set (agents st) \<and> a_ParentID (objs st c) = p}"

definition subtree :: "'s AgentManager \<Rightarrow> string \<Rightarrow> string set" where
  "subtree st aid = (child_rel st)\<^sup>* `` {aid}"

text \<open>What a step of the cascade leaves alone.\<close>

definition links_kept :: "'s AgentManager \<Rightarrow> 's AgentManager \<Rightarrow> bool" where
  "links_kept st st' \<longleftrightarrow>
     (\<forall>i. a_ParentID (objs st' i) = a_ParentID (objs st i) \<and> a_Sandbox (objs st' i) = a_Sandbox (objs st i)) \<and>
     set (calls st) \<subseteq> set (calls st')"

lemma links_kept_refl [simp]: "links_kept st st"
  by (simp add: links_kept_def)

lemma links_kept_trans: "links_kept st st' \<Longrightarrow> links_kept st' st'' \<Longrightarrow> links_kept st st''"
  by (auto simp: links_kept_def)

lemma ask_links: "ask D f c st = (st', r) \<Longrightarrow> links_kept st st' \<and> objs st' = objs st \<and> agents st' = agents st \<and> c \<in> set (calls st')"
  by (auto simp: ask_def Let_def links_kept_def)

lemma delete_sandboxes_links:
  "links_kept st (delete_sandboxes D infos st) \<and> objs (delete_sandboxes D infos st) = objs st \<and>
   agents (delete_sandboxes D infos st) = agents st"
  by (induction D infos st rule: delete_sandboxes.induct) (auto simp: ask_def Let_def links_kept_def split: if_splits)

lemma delete_cr_children_links:
  "links_kept st (delete_cr_children D aid st) \<and> objs (delete_cr_children D aid st) = objs st \<and>
   agents (delete_cr_children D aid st) = agents st"
  using delete_sandboxes_links links_kept_trans
  by (fastforce simp: delete_cr_children_def split: prod.splits sum.splits dest!: ask_links)

lemma filter_absent: "x \<notin> set xs \<Longrightarrow> filter (\<lambda>i. i \<noteq> x) xs = xs"
  by (induction xs) auto

lemma deleteOne_links:
  assumes "deleteOne D aid st = (st', err)"
  shows "links_kept st st'" "agents st' = filter (\<lambda>i. i \<noteq> aid) (agents st)"
    "i \<noteq> aid \<Longrightarrow> objs st' i = objs st i"
    "aid \<in> set (agents st) \<Longrightarrow> a_status (objs st' aid) = StatusTerminated \<and>
       CDeleteSandbox (a_Sandbox (objs st aid)) \<in> set (calls st')"
    "aid \<notin> set (agents st) \<Longrightarrow> err = Some (ErrUnknownAgent aid)"
  using assms
  by (auto simp: deleteOne_def transition_def Let_def links_kept_def Disarm_def ask_def filter_absent
      split: if_splits prod.splits option.splits)


section \<open>The cascade returns\<close>

lemma children_of_set: "set (children_of st aid) = {c \<in> set (agents st). a_ParentID (objs st c) = aid}"
  by (simp add: children_of_def sort_Strings_def)

lemma cascade_returns:
  "finite U \<Longrightarrow> set (agents st) \<subseteq> U \<Longrightarrow> aid \<in> U \<Longrightarrow> card (U - V) < n \<Longrightarrow>
     \<exists>V' st' e. deleteCascade n D aid V st = Some (V', st', e) \<and> V \<subseteq> V' \<and> set (agents st') \<subseteq> set (agents st)"
  "finite U \<Longrightarrow> set (agents st) \<subseteq> U \<Longrightarrow> set cs \<subseteq> U \<Longrightarrow> card (U - V) < n \<Longrightarrow>
     \<exists>V' st' e. deleteChildren n D cs fe V st = Some (V', st', e) \<and> V \<subseteq> V' \<and> set (agents st') \<subseteq> set (agents st)"
proof (induction n D aid V st and n D cs fe V st rule: deleteCascade_deleteChildren.induct)
  case (2 n D aid V st)
  show ?case
  proof (cases "aid \<in> V")
    case False
    then have "card (U - insert aid V) < card (U - V)"
      using 2(2,4) by (intro psubset_card_mono) auto
    then have "card (U - insert aid V) < n" using 2(5) by simp
    then obtain V' st1 e where c: "deleteChildren n D (children_of st aid) None (insert aid V) st = Some (V', st1, e)"
        "insert aid V \<subseteq> V'" "set (agents st1) \<subseteq> set (agents st)"
      using 2(1) [OF False 2(2,3)] 2(3) by (simp add: children_of_set) blast
    obtain st2 e2 where d: "deleteOne D aid (delete_cr_children D aid st1) = (st2, e2)" by fastforce
    show ?thesis using c False deleteOne_links(2) [OF d] delete_cr_children_links [of st1 D aid] by (auto simp: d)
  qed simp
next
  case (4 n D c cs fe V st)
  then obtain V1 st1 e1 where c: "deleteCascade n D c V st = Some (V1, st1, e1)" "V \<subseteq> V1"
      "set (agents st1) \<subseteq> set (agents st)"
    by auto
  have "card (U - V1) \<le> card (U - V)" using c(2) 4(3) by (intro card_mono) auto
  then have "card (U - V1) < n" using 4(6) by simp
  then obtain V' st' e where "deleteChildren n D cs (if fe = None then e1 else fe) V1 st1 = Some (V', st', e)"
      "V1 \<subseteq> V'" "set (agents st') \<subseteq> set (agents st1)"
    using 4(2) [OF c(1) refl refl 4(3) subset_trans [OF c(3) 4(4)]] 4(5) by auto
  then show ?case using c by auto
qed auto


lemma Delete_returns: "\<exists>V st' e. deleteCascade (length (agents st) + 2) D aid {} st = Some (V, st', e) \<and> Delete D aid st = Some (st', e)"
proof -
  have "card (insert aid (set (agents st)) - {}) < length (agents st) + 2"
    using card_length [of "agents st"] by (simp add: card_insert_if)
  from cascade_returns(1) [OF _ _ _ this, of st aid D]
  obtain V st' e where "deleteCascade (length (agents st) + 2) D aid {} st = Some (V, st', e)" by blast
  then show ?thesis unfolding Delete_def by (metis (no_types, lifting) case_prod_conv option.simps(9))
qed

section \<open>What the cascade removes\<close>

text \<open>The state of a cascade that started at \<open>st0\<close>: whatever has left the registry has been
  visited.\<close>

definition cas_pre :: "'s AgentManager \<Rightarrow> string set \<Rightarrow> 's AgentManager \<Rightarrow> bool" where
  "cas_pre st0 V st \<longleftrightarrow>
     links_kept st0 st \<and> set (agents st) \<subseteq> set (agents st0) \<and> set (agents st0) - V \<subseteq> set (agents st)"

text \<open>A call visited \<open>V' - V\<close>: those agents are gone and torn down, the others are as before,
  and the children of what it visited are visited.\<close>

definition cas_post ::
    "'s AgentManager \<Rightarrow> string set \<Rightarrow> 's AgentManager \<Rightarrow> string set \<Rightarrow> 's AgentManager \<Rightarrow> bool" where
  "cas_post st0 V st V' st' \<longleftrightarrow>
     V \<subseteq> V' \<and> agents st' = filter (\<lambda>i. i \<notin> V' - V) (agents st) \<and> links_kept st st' \<and>
     (\<forall>i. i \<notin> V' - V \<longrightarrow> objs st' i = objs st i) \<and>
     (\<forall>i \<in> V' - V. i \<in> set (agents st) \<longrightarrow>
        a_status (objs st' i) = StatusTerminated \<and> CDeleteSandbox (a_Sandbox (objs st i)) \<in> set (calls st')) \<and>
     child_rel st0 `` (V' - V) \<subseteq> V'"

lemma cas_pre_post: "cas_pre st0 V st \<Longrightarrow> cas_post st0 V st V' st' \<Longrightarrow> cas_pre st0 V' st'"
  by (auto simp: cas_pre_def cas_post_def intro: links_kept_trans)

lemma cas_post_refl: "cas_post st0 V st V st"
  by (simp add: cas_post_def)

lemma cas_post_trans:
  assumes a: "cas_post st0 V st V1 st1" and b: "cas_post st0 V1 st1 V2 st2"
  shows "cas_post st0 V st V2 st2"
proof -
  have diff: "V2 - V = (V1 - V) \<union> (V2 - V1)" using a b by (auto simp: cas_post_def)
  have "agents st2 = filter (\<lambda>i. i \<notin> V2 - V) (agents st)"
    using a b by (auto simp: cas_post_def diff intro: filter_cong)
  moreover have "a_status (objs st2 i) = StatusTerminated \<and> CDeleteSandbox (a_Sandbox (objs st i)) \<in> set (calls st2)"
    if "i \<in> V2 - V" "i \<in> set (agents st)" for i
    using a b that by (cases "i \<in> V1") (auto simp: cas_post_def links_kept_def)
  moreover have "objs st2 i = objs st i" if "i \<notin> V2 - V" for i
    using a b that by (auto simp: cas_post_def)
  moreover have "V \<subseteq> V2" "links_kept st st2" "child_rel st0 `` (V2 - V) \<subseteq> V2"
    using a b by (auto simp: cas_post_def diff intro: links_kept_trans)
  ultimately show ?thesis by (simp add: cas_post_def)
qed

lemma cas_post_visit:
  assumes pre: "cas_pre st0 V st" and new: "aid \<notin> V"
    and ch: "cas_post st0 (insert aid V) st V1 st1" "set (children_of st aid) \<subseteq> V1"
    and del: "deleteOne D aid (delete_cr_children D aid st1) = (st2, e)"
  shows "cas_post st0 V st V1 st2"
proof -
  let ?s = "delete_cr_children D aid st1"
  note cr = delete_cr_children_links [of st1 D aid]
  note one = deleteOne_links [OF del]
  have V1: "aid \<in> V1" "V \<subseteq> V1" "V1 - V = insert aid (V1 - insert aid V)" using ch new by (auto simp: cas_post_def)
  have "child_rel st0 `` {aid} \<subseteq> V1"
    using pre ch V1 by (auto simp: child_rel_def cas_pre_def children_of_set links_kept_def)
  then have "child_rel st0 `` (V1 - V) \<subseteq> V1" using ch(1) unfolding V1(3) by (auto simp: cas_post_def)
  moreover have "agents st2 = filter (\<lambda>i. i \<notin> V1 - V) (agents st)"
    using ch(1) cr one(2) V1 by (auto simp: cas_post_def intro: filter_cong)
  moreover have "links_kept st st2" using ch(1) cr one(1) by (auto simp: cas_post_def intro: links_kept_trans)
  moreover have "objs st2 i = objs st i" if "i \<notin> V1 - V" for i
    using ch(1) cr one(3) [of i] that V1 new by (auto simp: cas_post_def)
  moreover have "a_status (objs st2 i) = StatusTerminated \<and> CDeleteSandbox (a_Sandbox (objs st i)) \<in> set (calls st2)"
    if "i \<in> V1 - V" "i \<in> set (agents st)" for i
    using ch(1) cr one(1,3,4) that V1 by (cases "i = aid") (auto simp: cas_post_def links_kept_def)
  ultimately show ?thesis using V1(2) by (simp add: cas_post_def)
qed

lemma cascade_post:
  "deleteCascade n D aid V st = Some (V', st', e) \<Longrightarrow> cas_pre st0 V st \<Longrightarrow>
     cas_post st0 V st V' st' \<and> aid \<in> V' \<and> V' \<subseteq> V \<union> subtree st0 aid"
  "deleteChildren n D cs fe V st = Some (V', st', e) \<Longrightarrow> cas_pre st0 V st \<Longrightarrow>
     cas_post st0 V st V' st' \<and> set cs \<subseteq> V' \<and> V' \<subseteq> V \<union> (\<Union>c \<in> set cs. subtree st0 c)"
proof (induction n D aid V st and n D cs fe V st arbitrary: V' st' e and V' st' e
    rule: deleteCascade_deleteChildren.induct)
  case (2 n D aid V st)
  show ?case
  proof (cases "aid \<in> V")
    case True
    then show ?thesis using 2(2) by (auto simp: cas_post_refl)
  next
    case False
    then obtain st1 e1 st2 e2 where
      ch: "deleteChildren n D (children_of st aid) None (insert aid V) st = Some (V', st1, e1)"
      and del: "deleteOne D aid (delete_cr_children D aid st1) = (st2, e2)" and st': "st' = st2"
      using 2(2) by (auto split: option.splits prod.splits)
    have pre': "cas_pre st0 (insert aid V) st" using 2(3) by (auto simp: cas_pre_def)
    note IH = 2(1) [OF False ch pre']
    have "subtree st0 c \<subseteq> subtree st0 aid" if "c \<in> set (children_of st aid)" for c
      using that 2(3)
      by (auto simp: subtree_def children_of_set cas_pre_def links_kept_def child_rel_def
          intro: converse_rtrancl_into_rtrancl)
    moreover have "aid \<in> subtree st0 aid" by (simp add: subtree_def)
    ultimately have "V' \<subseteq> V \<union> subtree st0 aid" using IH by blast
    then show ?thesis using cas_post_visit [OF 2(3) False _ _ del] IH st' by (auto simp: cas_post_def)
  qed
next
  case (4 n D c cs fe V st)
  then obtain V1 st1 e1 where c: "deleteCascade n D c V st = Some (V1, st1, e1)"
      and r: "deleteChildren n D cs (if fe = None then e1 else fe) V1 st1 = Some (V', st', e)"
    by (auto split: option.splits)
  note IH1 = 4(1) [OF c 4(4)]
  then have "cas_pre st0 V1 st1" using cas_pre_post 4(4) by blast
  note IH2 = 4(2) [OF c refl refl r this]
  show ?case using IH1 IH2 cas_post_trans [of st0 V st V1 st1 V' st'] by (auto simp: cas_post_def)
qed (auto simp: cas_post_refl)

lemma cascade_exact:
  assumes "deleteCascade n D aid {} st = Some (V, st', e)"
  shows "V = subtree st aid" and "cas_post st {} st V st'"
proof -
  have pre: "cas_pre st {} st" by (simp add: cas_pre_def)
  have post: "cas_post st {} st V st' \<and> aid \<in> V \<and> V \<subseteq> {} \<union> subtree st aid"
    by (rule cascade_post(1) [OF assms pre])
  then have "(child_rel st)\<^sup>* `` V = V" by (intro Image_closed_trancl) (simp add: cas_post_def)
  then have "subtree st aid \<subseteq> V" using post unfolding subtree_def by blast
  then show "V = subtree st aid" using post by blast
  show "cas_post st {} st V st'" using post by blast
qed

text \<open>The cascade of an id that is not registered reports an error.\<close>

lemma cascade_unknown:
  assumes "deleteCascade (n + 2) D aid {} st = Some (V, st', e)" "aid \<notin> set (agents st)"
  shows "e \<noteq> None"
proof -
  from assms(1) obtain st1 e1 st2 e2 where
    ch: "deleteChildren (Suc n) D (children_of st aid) None {aid} st = Some (V, st1, e1)"
    and del: "deleteOne D aid (delete_cr_children D aid st1) = (st2, e2)" and e: "e = (if e1 = None then e2 else e1)"
    by (auto split: option.splits prod.splits)
  have "cas_pre st {aid} st" by (auto simp: cas_pre_def)
  from cascade_post(2) [OF ch this] have "aid \<notin> set (agents st1)" using assms(2) by (auto simp: cas_post_def)
  then show ?thesis using deleteOne_links(5) [OF del] delete_cr_children_links [of st1 D aid] e by auto
qed

section \<open>Delete\<close>

text \<open>C8: a delete always returns, for every parent graph, one with cycles included.  It takes out of
  the registry exactly the agents reached from the id over the parent links, in each case
  marking the agent terminated and deleting its sandbox, and leaves every other agent object as
  it was.\<close>

theorem delete_exact_subtree:
  "\<exists>st' err. Delete D aid st = Some (st', err) \<and>
     agents st' = filter (\<lambda>i. i \<notin> subtree st aid) (agents st) \<and>
     (\<forall>i \<in> subtree st aid \<inter> set (agents st).
        a_status (objs st' i) = StatusTerminated \<and> CDeleteSandbox (a_Sandbox (objs st i)) \<in> set (calls st')) \<and>
     (\<forall>i. i \<notin> subtree st aid \<longrightarrow> objs st' i = objs st i)"
proof -
  obtain V st' e where c: "deleteCascade (length (agents st) + 2) D aid {} st = Some (V, st', e)"
      and d: "Delete D aid st = Some (st', e)"
    using Delete_returns by blast
  then show ?thesis
    using cascade_exact(2) [OF c] unfolding cascade_exact(1) [OF c] cas_post_def by (intro exI [of _ st'] exI [of _ e]) auto
qed

text \<open>A corrupt registry: two agents that name each other as parents, and a root.\<close>

definition demo_tree :: "mem_db AgentManager" where
  "demo_tree = (NewAgentManager mem_empty None)\<lparr>agents := [''a'', ''b'', ''c''],
     objs := (\<lambda>i. no_agent\<lparr>a_ID := i, a_Sandbox := ''sbx-'' @ i,
       a_ParentID := (if i = ''a'' then ''b'' else if i = ''b'' then ''a'' else [])\<rparr>)\<rparr>"

lemma demo_tree_rel: "child_rel demo_tree = {(''b'', ''a''), (''a'', ''b''), ([], ''c'')}"
  by (auto simp: child_rel_def demo_tree_def)

lemma demo_subtree: "subtree demo_tree ''a'' = {''a'', ''b''}" "subtree demo_tree [] = {[], ''c''}"
proof -
  have "(child_rel demo_tree)\<^sup>* `` {''a'', ''b''} = {''a'', ''b''}" "(child_rel demo_tree)\<^sup>* `` {[], ''c''} = {[], ''c''}"
    by (intro Image_closed_trancl; auto simp: demo_tree_rel)+
  then show "subtree demo_tree ''a'' = {''a'', ''b''}" "subtree demo_tree [] = {[], ''c''}"
    unfolding subtree_def by (auto simp: demo_tree_rel)
qed

theorem delete_exact_subtree_witness:
  "\<exists>st' err. Delete demo_deps ''a'' demo_tree = Some (st', err) \<and> agents st' = [''c''] \<and>
     a_status (objs st' ''b'') = StatusTerminated \<and> CDeleteSandbox ''sbx-b'' \<in> set (calls st')"
  using delete_exact_subtree [of demo_deps "''a''" demo_tree]
  unfolding demo_subtree by (auto simp: demo_tree_def)


definition demo_roots :: "mem_db AgentManager" where
  "demo_roots = demo_tree\<lparr>agents := [''c'', ''d'']\<rparr>"


end
