(* ===== verification/Agent_Restart.thy ===== *)
theory Agent_Restart
  imports Agent_Deletion
begin

text \<open>
  What a restart of the controller makes of an agent's log: the provisioning payload read
  back (\<open>replayProvisionInfo\<close>, \<open>RebuildFromLog\<close> of \<open>controller/registry.go\<close>), what a record
  pulled from the sandbox can change of it, and the log a failed create leaves behind.
\<close>

section \<open>The provisioning payload\<close>

lemma provision_fields_read:
  "unmarshal_strs provision_fields (Data (lifecycle_event lifecycleProvisioned (provision_payload a parent) n)) =
     Some [a_Sandbox a, Format_RFC3339Nano (a_Created a), case parent of None \<Rightarrow> [] | Some p \<Rightarrow> a_ID p,
           r_Image (a_resolved a), r_Provider (a_resolved a), r_Model (a_resolved a),
           CPU (r_Resources (a_resolved a)), Memory (r_Resources (a_resolved a))]"
  by (cases parent)
    (simp_all add: provision_fields_def lifecycle_event_def provision_payload_def unmarshal_str_def
      to_lower_def lower_char_def)

lemma Format_nonempty: "Format_RFC3339Nano t \<noteq> []"
  by (simp add: Format_RFC3339Nano_def Let_def split: prod.split)

lemma provision_skip:
  "list_all (\<lambda>e. Type e \<noteq> lifecycleProvisioned) evs \<Longrightarrow> foldl provision_event i evs = i"
  by (induction evs) (simp_all add: provision_event_def)

text \<open>C14: what a create records of an agent is what a restarted controller has of it: the replayed
  agent has the sandbox, the creation time to the nanosecond, the parent and the resolved
  profile, whatever follows in the log except for another provisioning event.\<close>

theorem provision_roundtrip:
  assumes "Type ev = lifecycleProvisioned" "Data ev = Data (lifecycle_event lifecycleProvisioned (provision_payload a parent) n)"
    and "a_ParentID a = (case parent of None \<Rightarrow> [] | Some p \<Rightarrow> a_ID p)"
    and "r_Name (a_resolved a) = a_Sandbox a" "r_Image (a_resolved a) \<noteq> []"
    and "0 \<le> a_Created a" "a_Created a div second div 86400 < days_before 9999"
    and "list_all (\<lambda>e. Type e \<noteq> lifecycleProvisioned) evs"
  shows "let b = replayed_agent aid h (ev # evs) in
    a_Sandbox b = a_Sandbox a \<and> a_Created b = a_Created a \<and> a_ParentID b = a_ParentID a \<and> a_resolved b = a_resolved a"
  using assms Parse_Format [OF assms(6,7)]
  by (cases "a_resolved a" rule: resolved_profile.cases; cases "r_Resources (a_resolved a)" rule: resources.cases)
    (auto simp: replayed_agent_def replayProvisionInfo_def provision_event_def provision_fields_read
      provision_skip Format_nonempty no_provision_def)


section \<open>The agent a restart registers\<close>

lemma Arm_objs [simp]: "objs (Arm D aid st) = objs st" "agents (Arm D aid st) = agents st"
  by (auto simp: Arm_def ask_def Let_def split: option.split)

lemma rebuild_agent_log:
  assumes "aid \<notin> set (agents st)" "NewEventHub (d_store D) aid (store st) = Inr h"
    and "SubscribeSnapshot (d_store D) h (store st) = Inr evs" "ReplaySession evs \<noteq> SessionTerminated"
  shows "\<exists>st' go. rebuild_agent D aid st = (st', None, go) \<and> agents st' = agents st @ [aid] \<and>
     objs st' aid = (replayed_agent aid h evs)\<lparr>a_pullTransport := (Transport (d_cfg D) = TransportPull)\<rparr> \<and>
     go = (if Transport (d_cfg D) \<noteq> TransportPull then []
           else if ReplaySession evs = SessionPaused then [GoRevive aid] else [GoPuller aid])"
  using assms by (auto simp: rebuild_agent_def Let_def replayed_agent_def)

context event_store_contract
begin

lemma restart_reads_log:
  assumes "inv s" "okid a" "readable s"
  obtains h where "NewEventHub S a s = Inr h" "SubscribeSnapshot S h s = Inr (logof s a)"
proof -
  obtain h where "NewEventHub S a s = Inr h" "agentID h = a" "synced h s" using new_hub [OF assms] by blast
  with snapshot_log [OF _ assms(3), of h] that show thesis by simp
qed

lemma pulled_provision:
  assumes ok: "synced h s" "room 1 h s" and r: "eventTypeOf r = lifecycleProvisioned"
      "unmarshal_strs provision_fields (stored_raw r) = Some (victim # vs)"
    and pub: "PublishPulled S r i h s = (h', s', Inr n)" "n \<noteq> 0"
  shows "inv s' \<and> i_sandbox (replayProvisionInfo (logof s' (agentID h))) = victim"
  using ok pub(1)
proof (cases rule: publish_pulled_cases)
  case skipped
  with pub show ?thesis by (auto simp: PublishPulled_def split: if_splits)
next
  case (appended ev)
  have "length (victim # vs) = 8" using unmarshal_strs_length [OF r(2)] by (simp add: provision_fields_def)
  then obtain a b c d e f g where "vs = [a, b, c, d, e, f, g]" by (auto simp: length_Suc_conv eval_nat_numeral)
  then show ?thesis
    using appended r by (auto simp: appends_def synced_def replayProvisionInfo_def provision_event_def Data_stored_event)
qed

end


lemma deleteOne_sandbox:
  assumes "aid \<in> set (agents st)"
  shows "CDeleteSandbox (a_Sandbox (objs st aid)) \<in> set (calls (fst (deleteOne D aid st)))"
  using deleteOne_links(4) [OF surjective_pairing, of aid st D] assms by simp

lemmas bolt_restart_reads = event_store_contract.restart_reads_log [OF bolt_laws.contract]
lemmas bolt_pulled_provision = event_store_contract.pulled_provision [OF bolt_laws.contract]

text \<open>C37: a record from the sandbox can redirect the deletion of its agent.  A pulled record whose
  own \<open>type\<close> is \<open>agent.provisioned\<close> is taken for the controller's provisioning event at the
  next restart: the agent is registered with the sandbox name the record gives, and its deletion
  deletes that sandbox.\<close>

theorem pulled_record_redirects_delete:
  assumes B: "bolt_laws B cont healthy" and db: "store_inv (cont db)" "agent_id_ok aid"
    and h: "NewEventHub (BoltEventStore B) aid db = Inr h"
    and room: "length (store_log (cont db) aid) + length [i] < u64_limit"
    and r: "eventTypeOf r = lifecycleProvisioned" "unmarshal_strs provision_fields (stored_raw r) = Some (victim # vs)"
    and pub: "PublishPulled (BoltEventStore B) r i h db = (h', db', Inr n)" "n \<noteq> 0"
    and st: "store st = db'" "aid \<notin> set (agents st)" "d_store D = BoltEventStore B" "view_err B db' = None"
    and live: "ReplaySession (store_log (cont db') aid) \<noteq> SessionTerminated"
  shows "\<exists>st' go. rebuild_agent D aid st = (st', None, go) \<and> a_Sandbox (objs st' aid) = victim \<and>
     CDeleteSandbox victim \<in> set (calls (fst (deleteOne D aid st')))"
proof -
  note ok = bolt_new_hub_run [OF B db h room]
  have "event_store_contract.room (\<lambda>db. store_log (cont db)) 1 h db" using ok(2) by simp
  from bolt_pulled_provision [OF B ok(1) this r pub] ok(3)
  have inv: "store_inv (cont db')" and v: "i_sandbox (replayProvisionInfo (store_log (cont db') aid)) = victim" by auto
  obtain h2 where h2: "NewEventHub (BoltEventStore B) aid db' = Inr h2"
      "SubscribeSnapshot (BoltEventStore B) h2 db' = Inr (store_log (cont db') aid)"
    using bolt_restart_reads [OF B inv db(2) st(4)] by blast
  obtain st' go where re: "rebuild_agent D aid st = (st', None, go)" "agents st' = agents st @ [aid]"
      "objs st' aid = (replayed_agent aid h2 (store_log (cont db') aid))\<lparr>a_pullTransport := (Transport (d_cfg D) = TransportPull)\<rparr>"
    using rebuild_agent_log [OF st(2), of D h2 "store_log (cont db') aid"] h2 st live by auto
  then have "a_Sandbox (objs st' aid) = victim" using v by (simp add: replayed_agent_def Let_def)
  with re deleteOne_sandbox [of aid st' D] show ?thesis by auto
qed

section \<open>A failed create\<close>

text \<open>The outcome of the part of a create that follows the provisioning event.\<close>

lemma store_ask [simp]: "store (fst (ask D f c st)) = store st" "objs (fst (ask D f c st)) = objs st"
  by (simp_all add: ask_def Let_def)

lemma rollback_sel [simp]:
  "store (rollbackSandbox D name st) = store st" "agents (rollbackSandbox D name st) = agents st"
  "calls (rollbackSandbox D name st) = calls st @ [CWithdrawDaemon name, CDeleteSandbox name]"
  by (simp_all add: rollbackSandbox_def ask_def Let_def)

lemma store_daemon: "daemonFor D aid st = (st', x) \<Longrightarrow> store st' = store st \<and> a_hub (objs st' i) = a_hub (objs st i)
    \<and> a_fsm (objs st' i) = a_fsm (objs st i) \<and> a_Sandbox (objs st' i) = a_Sandbox (objs st i)"
  by (auto simp: daemonFor_def ask_def Let_def split: option.splits if_splits sum.splits)

lemma store_noteBootID: "store (noteBootID D aid st) = store st \<and> a_hub (objs (noteBootID D aid st) i) = a_hub (objs st i)
    \<and> a_fsm (objs (noteBootID D aid st) i) = a_fsm (objs st i) \<and> a_Sandbox (objs (noteBootID D aid st) i) = a_Sandbox (objs st i)"
  by (auto simp: noteBootID_def preflight_def ask_def Let_def split: prod.splits sum.splits dest!: store_daemon [where i = i])

context event_store_contract
begin

lemma Create_start_failed:
  assumes S: "d_store D = S" and ok: "synced (a_hub (objs st aid)) (store st)" "room 1 (a_hub (objs st aid)) (store st)"
    and res: "Create_start D aid st = (st', Inl e)"
  shows "logof (store st') = logof (store st) \<and> inv (store st') \<and>
    (\<exists>cs. calls st' = cs @ [CWithdrawDaemon (a_Sandbox (objs st aid)), CDeleteSandbox (a_Sandbox (objs st aid))])"
proof -
  define pre where "pre = (if Transport (d_cfg D) = TransportPull
            then (noteBootID D aid (upd_agent aid (\<lambda>a. a\<lparr>a_pullTransport := True\<rparr>) st), None)
            else startPi D aid (r_Model (a_resolved (objs st aid))) st)"
  obtain st1 e1 where st1: "pre = (st1, e1)" by fastforce
  have same: "store st1 = store st" "a_hub (objs st1 aid) = a_hub (objs st aid)"
    using st1 store_noteBootID [of D aid "upd_agent aid (\<lambda>a. a\<lparr>a_pullTransport := True\<rparr>) st" aid]
    by (auto simp: pre_def startPi_def ask_def Let_def split: if_splits option.splits)
  have inv: "inv (store st)" using ok by (simp add: synced_def)
  show ?thesis
  proof (cases e1)
    case (Some x)
    with res st1 same inv show ?thesis
      by (auto simp: Create_start_def pre_def [symmetric] Let_def)
  next
    case None
    obtain q h s err where tr: "Transition S SessionReady ''agent.started'' []
        (a_fsm (objs st1 aid), a_hub (objs st aid), store st) = ((q, h, s), err)"
      by (metis prod_cases3 surj_pair)
    have "err \<noteq> None" using res st1 None same tr S
      by (auto simp: Create_start_def pre_def [symmetric] Let_def transition_def split: option.splits)
    with transition_effect [OF ok tr] have "logof s = logof (store st)" "inv s"
      by (auto simp: appends_Nil synced_def)
    with res st1 None same tr S \<open>err \<noteq> None\<close> show ?thesis
      by (auto simp: Create_start_def pre_def [symmetric] Let_def transition_def split: option.splits)
  qed
qed


lemma publish_live:
  assumes "d_store D = S" "synced (a_hub (objs st aid)) (store st)" "room 1 (a_hub (objs st aid)) (store st)"
    and "healthy (store st)" "\<not> closed (a_hub (objs st aid))"
  obtains h where "objs (fst (publish D aid t flds st)) = (objs st)(aid := (objs st aid)\<lparr>a_hub := h\<rparr>)"
    "calls (fst (publish D aid t flds st)) = calls st"
    "appends (a_hub (objs st aid)) (store st) [lifecycle_event t flds (nextSeq (a_hub (objs st aid)) + 1)]
       h (store (fst (publish D aid t flds st)))"
proof -
  let ?h = "a_hub (objs st aid)"
  obtain h' s' where p: "PublishLifecycle S t flds ?h (store st) =
      (h', s', Some (lifecycle_event t flds (nextSeq ?h + 1)))"
    using publish_lifecycle_live [OF assms(2,4,5)] by blast
  then obtain v where "Append S (agentID ?h) (lifecycle_event t flds (nextSeq ?h + 1)) (store st) = (s', v)"
      "v = None" "h' = fanout (lifecycle_event t flds (nextSeq ?h + 1)) (?h\<lparr>nextSeq := nextSeq ?h + 1\<rparr>)"
    using assms(5) by (auto simp: PublishLifecycle_def Let_def split: prod.splits option.splits)
  with append_cases [OF assms(2,3), of "lifecycle_event t flds (nextSeq ?h + 1)" s' v]
  have "appends ?h (store st) [lifecycle_event t flds (nextSeq ?h + 1)] h' s'" by auto
  then show thesis using p assms(1) by (intro that [of h']) (auto simp: publish_def)
qed

lemma or_rollback_failed:
  assumes "or_rollback D name c k st = (st', Inl e)"
  obtains "st' = rollbackSandbox D name (fst (ask D o_err c st))" "c \<in> set (calls (fst (ask D o_err c st)))"
  | "k (fst (ask D o_err c st)) = (st', Inl e)" "c \<in> set (calls (fst (ask D o_err c st)))"
  using assms by (auto simp: or_rollback_def ask_def Let_def split: option.splits prod.splits)

text \<open>The two policies and the start, on a state whose hub has room.\<close>

lemma Create_policies_failed:
  assumes S: "d_store D = S" and ok: "synced (a_hub (objs st aid)) (store st)" "room 1 (a_hub (objs st aid)) (store st)"
    and name: "a_Sandbox (objs st aid) = name"
    and res: "or_rollback D name c1 (or_rollback D name c2 (Create_start D aid)) st = (st', Inl e)"
  shows "logof (store st') = logof (store st) \<and> inv (store st') \<and>
    (\<exists>cs. calls st' = cs @ [CWithdrawDaemon name, CDeleteSandbox name])"
proof -
  have inv: "inv (store st)" using ok by (simp add: synced_def)
  show ?thesis using res
  proof (cases rule: or_rollback_failed)
    case 1
    then show ?thesis using inv by simp
  next
    case 2
    from 2(1) show ?thesis
    proof (cases rule: or_rollback_failed)
      case 1
      then show ?thesis using inv by simp
    next
      case 2
      from Create_start_failed [OF S _ _ 2(1)] ok name show ?thesis by simp
    qed
  qed
qed

lemma Create_provision_failed:
  fixes aid st D
  defines "h \<equiv> a_hub (objs st aid)" and "name \<equiv> a_Sandbox (objs st aid)"
  assumes S: "d_store D = S" and ok: "synced h (store st)" "room 2 h (store st)"
    and live: "healthy (store st)" "\<not> closed h"
    and res: "Create_provision D aid parent st = (st', Inl e)"
    and late: "CApplyModelGatewayPolicy name \<in> set (drop (length (calls st)) (calls st'))"
  shows "inv (store st') \<and>
    logof (store st') (agentID h) = logof (store st) (agentID h) @
        [lifecycle_event ''agent.provisioned'' (provision_payload (objs st aid) parent) (nextSeq h + 1)] \<and>
    (\<exists>cs. calls st' = cs @ [CWithdrawDaemon name, CDeleteSandbox name])"
proof -
  define c1 c2 where "c1 = CApplyModelGatewayPolicy name"
    and "c2 = CApplyControllerEgressDeny name (ControllerServiceHost (d_cfg D)) (ControllerServicePort (d_cfg D))"
  define fin where "fin = (\<lambda>s. or_rollback D name c1 (or_rollback D name c2 (Create_start D aid))
      (fst (publish D aid ''agent.provisioned'' (provision_payload (objs st aid) parent) s)))"
  have "\<exists>s. store s = store st \<and> objs s = objs st \<and> fin s = (st', Inl e)"
  proof (cases "Transport (d_cfg D) = TransportPull")
    case False
    with res show ?thesis by (auto simp: Create_provision_def Let_def fin_def c1_def c2_def name_def)
  next
    case True
    then have "or_rollback D name (CExposeDaemon name) fin st = (st', Inl e)"
      using res by (simp add: Create_provision_def Let_def fin_def c1_def c2_def name_def)
    then show ?thesis
    proof (cases rule: or_rollback_failed)
      case 1
      with late show ?thesis by (simp add: ask_def Let_def)
    next
      case 2
      then show ?thesis by (intro exI [of _ "fst (ask D o_err (CExposeDaemon name) st)"]) simp
    qed
  qed
  then obtain s where s: "store s = store st" "objs s = objs st" "fin s = (st', Inl e)" by blast
  have "room 1 h (store st)" using room_mono [OF ok(2)] by simp
  then obtain h1 where p: "objs (fst (publish D aid ''agent.provisioned'' (provision_payload (objs st aid) parent) s)) =
        (objs s)(aid := (objs s aid)\<lparr>a_hub := h1\<rparr>)"
      "appends h (store st) [lifecycle_event ''agent.provisioned'' (provision_payload (objs st aid) parent) (nextSeq h + 1)]
         h1 (store (fst (publish D aid ''agent.provisioned'' (provision_payload (objs st aid) parent) s)))"
    using publish_live [OF S, of s aid "''agent.provisioned''" "provision_payload (objs st aid) parent"] ok live s
    unfolding h_def by metis
  have r1: "room 1 h1 (store (fst (publish D aid ''agent.provisioned'' (provision_payload (objs st aid) parent) s)))"
    using appends_room [OF p(2), of 1] ok(2) by (simp add: numeral_2_eq_2)
  have "synced h1 (store (fst (publish D aid ''agent.provisioned'' (provision_payload (objs st aid) parent) s)))"
    using p(2) by (simp add: appends_def)
  from Create_policies_failed [OF S, of "fst (publish D aid ''agent.provisioned'' (provision_payload (objs st aid) parent) s)" aid name c1 c2 st' e]
    this r1 p s show ?thesis by (auto simp: fin_def name_def appends_def)
qed

end


lemmas bolt_provision_failed = event_store_contract.Create_provision_failed [OF bolt_laws.contract]

lemma provisioned_replay:
  "Type ev = ''agent.provisioned'' \<Longrightarrow> ReplaySession [ev] = SessionProvision \<and> ReplayAgentStatus [ev] = StatusCreating"
  by (simp add: ReplaySession_def session_apply_def sessionEventType_def ReplayAgentStatus_def status_apply_def
      lifecycle_defs)

text \<open>C36: a create that fails after the sandbox was provisioned leaves a ghost.  When a policy or the
  start of the session fails, the sandbox is deleted and the caller gets the error, but the
  provisioning event stays in the log: the next restart registers an agent in the state of one
  that is being created, names the deleted sandbox, and on the pull transport starts its pull
  loop.\<close>

theorem failed_create_leaves_ghost:
  assumes B: "bolt_laws B cont healthy" and S: "d_store D = BoltEventStore B"
    and db: "store_inv (cont (store st))" "agent_id_ok aid" "healthy (store st)"
    and h: "NewEventHub (BoltEventStore B) aid (store st) = Inr (a_hub (objs st aid))"
    and new: "store_log (cont (store st)) aid = []"
    and res: "Create_provision D aid parent st = (st', Inl e)"
    and late: "CApplyModelGatewayPolicy (a_Sandbox (objs st aid)) \<in> set (drop (length (calls st)) (calls st'))"
    and re: "store st2 = store st'" "aid \<notin> set (agents st2)" "view_err B (store st') = None"
  shows "last (calls st') = CDeleteSandbox (a_Sandbox (objs st aid)) \<and>
    (\<exists>st3 go. rebuild_agent D aid st2 = (st3, None, go) \<and> agents st3 = agents st2 @ [aid] \<and>
       a_status (objs st3 aid) = StatusCreating \<and> a_fsm (objs st3 aid) = SessionProvision \<and>
       a_Sandbox (objs st3 aid) = a_Sandbox (objs st aid) \<and>
       go = (if Transport (d_cfg D) = TransportPull then [GoPuller aid] else []))"
proof -
  have room: "length (store_log (cont (store st)) aid) + length [(), ()] < u64_limit" by (simp add: new)
  note ok = bolt_new_hub_run [OF B db(1,2) h room]
  have cl: "\<not> closed (a_hub (objs st aid))" using h
    by (cases "a_hub (objs st aid)") (auto simp: NewEventHub_def split: sum.splits)
  let ?ev = "lifecycle_event ''agent.provisioned'' (provision_payload (objs st aid) parent) (nextSeq (a_hub (objs st aid)) + 1)"
  have inv_log: "store_inv (cont (store st')) \<and> store_log (cont (store st')) aid = [?ev] \<and>
      (\<exists>cs. calls st' = cs @ [CWithdrawDaemon (a_Sandbox (objs st aid)), CDeleteSandbox (a_Sandbox (objs st aid))])"
    using bolt_provision_failed [OF B S ok(1) _ db(3) cl res late] ok(2,3) new by (simp add: numeral_2_eq_2)
  obtain h2 where h2: "NewEventHub (BoltEventStore B) aid (store st') = Inr h2"
      "SubscribeSnapshot (BoltEventStore B) h2 (store st') = Inr [?ev]"
    using bolt_restart_reads [OF B _ db(2) re(3)] inv_log by metis
  have rp: "ReplaySession [?ev] = SessionProvision" "ReplayAgentStatus [?ev] = StatusCreating"
    using provisioned_replay [of ?ev] by auto
  have "i_sandbox (replayProvisionInfo [?ev]) = a_Sandbox (objs st aid)"
    using provision_fields_read [of "objs st aid" parent "nextSeq (a_hub (objs st aid)) + 1"]
    by (simp add: replayProvisionInfo_def provision_event_def lifecycleProvisioned_def)
  with rebuild_agent_log [OF re(2), of D h2 "[?ev]"] h2 re(1) S rp inv_log show ?thesis
    by (auto simp: replayed_agent_def Let_def)
qed


section \<open>Witnesses\<close>

definition demo_agent :: agent where
  "demo_agent = new_agent ''a1'' (63000000000 * second + 5) [] demo_resolved demo_hub"

theorem provision_roundtrip_witness:
  "a_Created (replayed_agent ''a1'' demo_hub [lifecycle_event lifecycleProvisioned (provision_payload demo_agent None) 1]) =
     63000000000 * second + 5"
  using provision_roundtrip [of "lifecycle_event lifecycleProvisioned (provision_payload demo_agent None) 1" demo_agent None 1
      "[]" "''a1''" demo_hub]
  by (simp add: demo_agent_def new_agent_def demo_resolved_def second_def days_before_def Let_def)

definition forged_rec :: raw where
  "forged_rec = RawDoc (JObj [(''type'', JStr ''agent.provisioned''), (''sandbox'', JStr ''agent-9'')])"

lemma forged_fields: "unmarshal_strs provision_fields (stored_raw forged_rec) = Some (''agent-9'' # replicate 7 [])"
  by (simp add: forged_rec_def stored_raw_def raw_marshal_def provision_fields_def unmarshal_str_def to_lower_def
      lower_char_def eval_nat_numeral)

theorem pulled_record_redirects_delete_witness:
  "\<exists>h' db' st' go. PublishPulled (BoltEventStore mem_bolt) forged_rec 1 demo_hub mem_empty = (h', db', Inr 1) \<and>
     rebuild_agent demo_deps ''a1'' (NewAgentManager db' None) = (st', None, go) \<and>
     CDeleteSandbox ''agent-9'' \<in> set (calls (fst (deleteOne demo_deps ''a1'' st')))"
proof -
  obtain h' db' v where pub: "PublishPulled (BoltEventStore mem_bolt) forged_rec 1 demo_hub mem_empty = (h', db', v)"
    by (metis prod_cases3)
  have v: "v = Inr 1" "view_err mem_bolt db' = None" "ReplaySession (store_log (mem_cont db') ''a1'') = SessionProvision"
    using pub by (auto simp: run_simps demo_hub_def forged_rec_def store_log_def)
  have "eventTypeOf forged_rec = lifecycleProvisioned" by (simp add: forged_rec_def run_simps lifecycleProvisioned_def)
  moreover have "length (store_log (mem_cont mem_empty) ''a1'') + length [1 :: u64] < u64_limit" by (simp add: demo_start)
  ultimately show ?thesis
    using pulled_record_redirects_delete [OF mem.bolt_laws_axioms demo_start(1,2,4) _ _ forged_fields pub [unfolded v(1)],
        of "NewAgentManager db' None" demo_deps] pub v
    by (auto simp: NewAgentManager_def)
qed

definition refusing_deps :: "mem_db deps" where
  "refusing_deps = demo_deps\<lparr>d_out := demo_out\<lparr>o_err := (\<lambda>cs. case last cs of
     CApplyModelGatewayPolicy n \<Rightarrow> Some ''policy rejected'' | _ \<Rightarrow> None)\<rparr>\<rparr>"

definition creating_manager :: "mem_db AgentManager" where
  "creating_manager = upd_agent ''a1'' (\<lambda>_. demo_agent) (NewAgentManager mem_empty None)"

theorem failed_create_leaves_ghost_witness:
  "\<exists>st' e st3. Create_provision refusing_deps ''a1'' None creating_manager = (st', Inl e) \<and>
     last (calls st') = CDeleteSandbox ''agent-1'' \<and>
     rebuild_agent refusing_deps ''a1'' (NewAgentManager (store st') None) = (st3, None, [GoPuller ''a1'']) \<and>
     agents st3 = [''a1''] \<and> a_Sandbox (objs st3 ''a1'') = ''agent-1''"
proof -
  obtain st' r where res: "Create_provision refusing_deps ''a1'' None creating_manager = (st', r)" by fastforce
  have sel: "a_Sandbox (objs creating_manager ''a1'') = ''agent-1''" "a_hub (objs creating_manager ''a1'') = demo_hub"
    "store creating_manager = mem_empty" "d_store refusing_deps = BoltEventStore mem_bolt" "calls creating_manager = []"
    "Transport (d_cfg refusing_deps) = TransportPull"
    by (simp_all add: creating_manager_def demo_agent_def new_agent_def demo_resolved_def NewAgentManager_def refusing_deps_def)
  have "\<exists>e. r = Inl e" and late: "CApplyModelGatewayPolicy ''agent-1'' \<in> set (calls st')" and "mview (store st') = None"
    using res sel
    by (auto simp: Create_provision_def Let_def or_rollback_def ask_def refusing_deps_def publish_def
        demo_out_def PublishLifecycle_def run_simps demo_hub_def split: prod.splits)
  then obtain e where r: "r = Inl e" and v: "view_err mem_bolt (store st') = None" by (auto simp: mem_bolt_def)
  show ?thesis
    using failed_create_leaves_ghost [OF mem.bolt_laws_axioms sel(4), of creating_manager "''a1''" None st' e
        "NewAgentManager (store st') None"] demo_start late v res r sel
    by (auto simp: NewAgentManager_def)
qed

end
