(* ===== verification/Agent_Creation.thy ===== *)
theory Agent_Creation
  imports Agent_Restart
begin

text \<open>
  What a failed create leaves behind (\<open>m.Create\<close> and \<open>m.rollbackSandbox\<close> of
  \<open>controller/agent.go\<close>): the calls it made to the gateway and their order, through every
  failure of the readiness wait, the exposure, the policies and the start.
\<close>

section \<open>The calls of a create\<close>

fun creates :: "call \<Rightarrow> bool" where
  "creates (CCreateSandbox n im pr rs lb ps) = True"
| "creates _ = False"

text \<open>An operation that leaves the registry alone and makes no sandbox.\<close>

definition no_sandbox :: "'s AgentManager \<Rightarrow> 's AgentManager \<Rightarrow> bool" where
  "no_sandbox st st' \<longleftrightarrow> agents st' = agents st \<and> (\<exists>cs. calls st' = calls st @ cs \<and> \<not> list_ex creates cs)"

lemma no_sandbox_refl [simp]: "no_sandbox st st"
  by (simp add: no_sandbox_def)

lemma no_sandbox_trans: "no_sandbox st st' \<Longrightarrow> no_sandbox st' st'' \<Longrightarrow> no_sandbox st st''"
  by (auto simp: no_sandbox_def)

lemma no_sandbox_same: "agents st' = agents st \<Longrightarrow> calls st' = calls st \<Longrightarrow> no_sandbox st st'"
  by (simp add: no_sandbox_def)

lemma no_sandbox_ask: "ask D f c st = (st', r) \<Longrightarrow> \<not> creates c \<Longrightarrow> no_sandbox st st'"
  by (auto simp: ask_def Let_def no_sandbox_def)

lemma no_sandbox_caps: "checkSpawnCaps D pid par st = (st', e) \<Longrightarrow> no_sandbox st st'"
  by (auto simp: checkSpawnCaps_def childCount_def split: option.splits if_splits prod.splits sum.splits
      dest!: no_sandbox_ask)

lemma no_sandbox_daemonFor: "daemonFor D aid st = (st', r) \<Longrightarrow> no_sandbox st st'"
  by (auto simp: daemonFor_def split: option.splits if_splits prod.splits sum.splits
      dest!: no_sandbox_ask elim!: no_sandbox_trans intro: no_sandbox_same)

lemma no_sandbox_noteBootID: "no_sandbox st (noteBootID D aid st)"
  by (auto simp: noteBootID_def preflight_def split: prod.splits sum.splits
      dest!: no_sandbox_ask no_sandbox_daemonFor elim!: no_sandbox_trans intro: no_sandbox_same)

lemma no_sandbox_waitReady:
  assumes "waitReady D name t st = Some r" shows "no_sandbox st (fst r)"
  apply (rule waitReady.raw_induct [OF _ assms, where P = "\<lambda>D name t st r. no_sandbox st (fst r)"])
  subgoal premises prems
    using prems(2)
    by (auto split: prod.splits sum.splits if_splits dest!: no_sandbox_ask prems(1) intro: no_sandbox_trans)
  done

text \<open>A failure after the sandbox was made: what was done since ends with the withdrawal of its
  endpoint and its deletion.\<close>

definition rolled_back :: "string \<Rightarrow> 's AgentManager \<Rightarrow> 's AgentManager \<Rightarrow> bool" where
  "rolled_back name st st' \<longleftrightarrow>
     agents st' = agents st \<and>
     (\<exists>cs. calls st' = calls st @ cs @ [CWithdrawDaemon name, CDeleteSandbox name] \<and> \<not> list_ex creates cs)"

lemma rolled_back_after: "no_sandbox st st1 \<Longrightarrow> rolled_back name st1 st' \<Longrightarrow> rolled_back name st st'"
  by (auto simp: no_sandbox_def rolled_back_def)

lemma rolled_back_now: "no_sandbox st st1 \<Longrightarrow> rolled_back name st (rollbackSandbox D name st1)"
  by (auto simp: no_sandbox_def rolled_back_def)

lemma Create_start_rolls_back:
  assumes new: "aid \<notin> set (agents st)" and res: "Create_start D aid st = (st', Inl e)"
  shows "rolled_back (a_Sandbox (objs st aid)) st st'"
proof -
  define pre where "pre = (if Transport (d_cfg D) = TransportPull
            then (noteBootID D aid (upd_agent aid (\<lambda>a. a\<lparr>a_pullTransport := True\<rparr>) st), None)
            else startPi D aid (r_Model (a_resolved (objs st aid))) st)"
  obtain st1 e1 where st1: "pre = (st1, e1)" by fastforce
  have n: "no_sandbox st st1"
    using st1 no_sandbox_noteBootID [of "upd_agent aid (\<lambda>a. a\<lparr>a_pullTransport := True\<rparr>) st" D aid]
    by (auto simp: pre_def startPi_def no_sandbox_def ask_def Let_def split: if_splits option.splits)
  then have ag: "agents st1 = agents st" by (simp add: no_sandbox_def)
  show ?thesis
  proof (cases e1)
    case (Some x)
    with res st1 n show ?thesis by (auto simp: Create_start_def pre_def [symmetric] Let_def intro: rolled_back_now)
  next
    case None
    with res st1 n new ag show ?thesis
      by (auto simp: Create_start_def pre_def [symmetric] Let_def transition_def filter_absent no_sandbox_def
          intro!: rolled_back_now split: prod.splits option.splits)
  qed
qed

lemma or_rollback_rolls_back:
  assumes "or_rollback D name c k st = (st', Inl e)" "\<not> creates c"
    and "\<And>s. agents s = agents st \<Longrightarrow> objs s = objs st \<Longrightarrow> k s = (st', Inl e) \<Longrightarrow> rolled_back name s st'"
  shows "rolled_back name st st'"
  using assms no_sandbox_ask [OF surjective_pairing, where c = c and D = D and f = o_err and st = st]
  by (auto simp: or_rollback_def split: prod.splits option.splits dest: ask_links
      intro: rolled_back_now rolled_back_after)

lemma publish_links:
  "agents (fst (publish D aid t flds st)) = agents st \<and> calls (fst (publish D aid t flds st)) = calls st \<and>
   a_Sandbox (objs (fst (publish D aid t flds st)) i) = a_Sandbox (objs st i)"
  by (auto simp: publish_def split: prod.split)

lemma Create_policies_roll_back:
  assumes new: "aid \<notin> set (agents st)" and c: "\<not> creates c1" "\<not> creates c2"
    and res: "or_rollback D (a_Sandbox (objs st aid)) c1 (or_rollback D (a_Sandbox (objs st aid)) c2 (Create_start D aid)) st = (st', Inl e)"
  shows "rolled_back (a_Sandbox (objs st aid)) st st'"
proof (rule or_rollback_rolls_back [OF res c(1)])
  fix s assume s: "agents s = agents st" "objs s = objs st"
    and res': "or_rollback D (a_Sandbox (objs st aid)) c2 (Create_start D aid) s = (st', Inl e)"
  show "rolled_back (a_Sandbox (objs st aid)) s st'"
    by (rule or_rollback_rolls_back [OF res' c(2)]) (use Create_start_rolls_back new s in metis)
qed

lemma Create_provision_rolls_back:
  assumes new: "aid \<notin> set (agents st)" and res: "Create_provision D aid parent st = (st', Inl e)"
  shows "rolled_back (a_Sandbox (objs st aid)) st st'"
proof -
  let ?name = "a_Sandbox (objs st aid)"
  let ?c2 = "CApplyControllerEgressDeny ?name (ControllerServiceHost (d_cfg D)) (ControllerServicePort (d_cfg D))"
  let ?pub = "\<lambda>s. fst (publish D aid ''agent.provisioned'' (provision_payload (objs st aid) parent) s)"
  let ?fin = "\<lambda>s. or_rollback D ?name (CApplyModelGatewayPolicy ?name) (or_rollback D ?name ?c2 (Create_start D aid)) (?pub s)"
  have fin: "rolled_back ?name s st'" if "agents s = agents st" "objs s = objs st" "?fin s = (st', Inl e)" for s
  proof -
    have "rolled_back ?name (?pub s) st'"
      using Create_policies_roll_back [of aid "?pub s" "CApplyModelGatewayPolicy ?name" ?c2 D st' e] that new
      by (simp add: publish_links)
    then show ?thesis by (rule rolled_back_after [rotated]) (simp add: no_sandbox_same publish_links)
  qed
  show ?thesis
  proof (cases "Transport (d_cfg D) = TransportPull")
    case True
    then have "or_rollback D ?name (CExposeDaemon ?name) ?fin st = (st', Inl e)"
      using res by (simp add: Create_provision_def Let_def)
    then show ?thesis by (rule or_rollback_rolls_back) (simp_all add: fin)
  next
    case False
    then show ?thesis using res fin [of st] by (simp add: Create_provision_def Let_def)
  qed
qed

lemma no_sandbox_randID: "randID D pre st = (st', i) \<Longrightarrow> no_sandbox st st'"
  by (auto simp: randID_def split: prod.splits dest!: no_sandbox_ask)

text \<open>What a failed create did: no sandbox was asked for; or the request for one was refused, and
  was the last call; or a sandbox was made and rolled back.\<close>

definition create_undone :: "call list \<Rightarrow> bool" where
  "create_undone cs \<longleftrightarrow>
     \<not> list_ex creates cs \<or>
     (\<exists>pre name im pr rs lb ps post. cs = pre @ [CCreateSandbox name im pr rs lb ps] @ post \<and> \<not> list_ex creates (pre @ post) \<and>
        (post = [] \<or> (\<exists>mid. post = mid @ [CWithdrawDaemon name, CDeleteSandbox name])))"

lemma create_undone_made:
  assumes "no_sandbox st st1" "calls st2 = calls st1 @ [CCreateSandbox name im pr rs lb ps]" "agents st2 = agents st1"
  shows "rolled_back name st2 st' \<Longrightarrow> agents st' = agents st \<and> (\<exists>cs. calls st' = calls st @ cs \<and> create_undone cs)"
    and "agents st2 = agents st \<and> (\<exists>cs. calls st2 = calls st @ cs \<and> create_undone cs)"
proof -
  obtain cs1 where 1: "calls st1 = calls st @ cs1" "\<not> list_ex creates cs1" "agents st1 = agents st"
    using assms(1) by (auto simp: no_sandbox_def)
  let ?c = "CCreateSandbox name im pr rs lb ps"
  have "create_undone (cs1 @ [?c] @ [])" unfolding create_undone_def using 1(2) by (intro disjI2) fastforce
  then show "agents st2 = agents st \<and> (\<exists>cs. calls st2 = calls st @ cs \<and> create_undone cs)"
    using 1 assms(2,3) by auto
  assume "rolled_back name st2 st'"
  then obtain cs2 where 2: "calls st' = calls st2 @ cs2 @ [CWithdrawDaemon name, CDeleteSandbox name]"
      "\<not> list_ex creates cs2" "agents st' = agents st2"
    by (auto simp: rolled_back_def)
  have "create_undone (cs1 @ [?c] @ cs2 @ [CWithdrawDaemon name, CDeleteSandbox name])"
    unfolding create_undone_def using 1(2) 2(2) by (intro disjI2 exI conjI) (rule refl, auto)
  then show "agents st' = agents st \<and> (\<exists>cs. calls st' = calls st @ cs \<and> create_undone cs)"
    using 1 2 assms(2,3) by auto
qed


lemma undone_none: "no_sandbox st st' \<Longrightarrow> agents st' = agents st \<and> (\<exists>cs. calls st' = calls st @ cs \<and> create_undone cs)"
  by (auto simp: no_sandbox_def create_undone_def)

text \<open>The part of a create from the request for the sandbox on.\<close>

definition create_tail ::
    "'s deps \<Rightarrow> string \<Rightarrow> agent option \<Rightarrow> string \<Rightarrow> call \<Rightarrow> 's AgentManager \<Rightarrow> ('s AgentManager \<times> (mgr_error + string)) option" where
  "create_tail D aid parent name c st =
     (case ask D o_err c st of
        (st, Some e) \<Rightarrow> Some (st, Inl (ErrOutside e))
      | (st, None) \<Rightarrow>
          (case ask D o_time CNow st of (st, now) \<Rightarrow>
             (case waitReady D name (now + 600 * second) st of
                None \<Rightarrow> None
              | Some (st, Some e) \<Rightarrow> Some (rollbackSandbox D name st, Inl e)
              | Some (st, None) \<Rightarrow> Some (Create_provision D aid parent st))))"

lemma waitReady_objs:
  assumes "waitReady D name t st = Some r" shows "objs (fst r) = objs st"
  apply (rule waitReady.raw_induct [OF _ assms, where P = "\<lambda>D name t st r. objs (fst r) = objs st"])
  subgoal premises prems
    using prems(2) by (auto split: prod.splits sum.splits if_splits dest!: ask_links prems(1))
  done

lemma create_tail_undone:
  assumes n: "no_sandbox st0 st" and new: "aid \<notin> set (agents st)" and name: "a_Sandbox (objs st aid) = name"
    and res: "create_tail D aid parent name (CCreateSandbox name im pr rs lb ps) st = Some (st', Inl e)"
  shows "agents st' = agents st0 \<and> (\<exists>cs. calls st' = calls st0 @ cs \<and> create_undone cs)"
proof -
  obtain st1 r1 where 1: "ask D o_err (CCreateSandbox name im pr rs lb ps) st = (st1, r1)" by fastforce
  then have s1: "calls st1 = calls st @ [CCreateSandbox name im pr rs lb ps]" "agents st1 = agents st" "objs st1 = objs st"
    by (auto simp: ask_def Let_def)
  note made = create_undone_made [OF n s1(1,2)]
  show ?thesis
  proof (cases r1)
    case (Some x)
    with res 1 made(2) show ?thesis by (simp add: create_tail_def)
  next
    case None
    obtain st2 now where 2: "ask D o_time CNow st1 = (st2, now)" by fastforce
    obtain st3 r3 where 3: "waitReady D name (now + 600 * second) st2 = Some (st3, r3)"
      using res 1 2 None by (auto simp: create_tail_def split: option.splits)
    have n3: "no_sandbox st1 st3"
      using no_sandbox_trans [OF no_sandbox_ask [OF 2] no_sandbox_waitReady [OF 3]] by simp
    have o3: "objs st3 = objs st" using waitReady_objs [OF 3] ask_links [OF 2] s1 by simp
    have a3: "aid \<notin> set (agents st3)" using n3 s1(2) new by (simp add: no_sandbox_def)
    have "rolled_back name st1 st'"
    proof (cases r3)
      case (Some x)
      with res 1 2 3 None n3 show ?thesis by (auto simp: create_tail_def intro: rolled_back_now)
    next
      case None': None
      then have "Create_provision D aid parent st3 = (st', Inl e)" using res 1 2 3 None by (simp add: create_tail_def)
      from Create_provision_rolls_back [OF a3 this] n3 show ?thesis using o3 name by (auto intro: rolled_back_after)
    qed
    then show ?thesis by (rule made(1))
  qed
qed



definition erring_deps :: "mem_db deps" where
  "erring_deps = demo_deps\<lparr>d_out := demo_out\<lparr>o_phase := (\<lambda>_. Inr PhaseError)\<rparr>\<rparr>"

lemma erring_resolves: "ResolveProfile (d_cfg erring_deps) (Some demo_profile) = Inr demo_resolved"
  by code_simp

lemma erring_ask:
  "ask erring_deps o_err c st = (st\<lparr>calls := calls st @ [c]\<rparr>, None)"
  "ask erring_deps o_time c st = (st\<lparr>calls := calls st @ [c]\<rparr>, second * int (length (calls st @ [c])))"
  "ask erring_deps o_phase c st = (st\<lparr>calls := calls st @ [c]\<rparr>, Inr PhaseError)"
  "ask erring_deps o_rand c st = (st\<lparr>calls := calls st @ [c]\<rparr>, replicate (length (calls st @ [c])) (CHR ''0''))"
  "d_store erring_deps = BoltEventStore mem_bolt"
  by (simp_all add: ask_def erring_deps_def demo_out_def Let_def)

lemma erring_hub: "NewEventHub (BoltEventStore mem_bolt) a mem_empty = Inr (demo_hub\<lparr>agentID := a\<rparr>)"
  by (simp add: run_simps demo_hub_def)

lemma demo_names: "p_ParentID demo_profile = []" "r_Name demo_resolved = ''agent-1''"
  by (simp_all add: demo_profile_def empty_profile_def demo_resolved_def)


end
