(* ===== verification/Agent_Turns.thy ===== *)
theory Agent_Turns
  imports Agent_Creation
begin

text \<open>
  The end of a turn (\<open>m.onPiRecord\<close> of \<open>controller/agent.go\<close>) and the append of its lifecycle
  event: what the manager answers when that append fails.
\<close>


section \<open>A settle that is not recorded\<close>

text \<open>What decides whether an agent takes a prompt, a steer or an abort.\<close>

definition turn_view ::
    "string \<Rightarrow> 's AgentManager \<Rightarrow> string list \<times> Monitor option \<times> agent_status \<times> session_state \<times> bool" where
  "turn_view aid st =
     (agents st, monitor st, a_status (objs st aid), a_fsm (objs st aid), a_pullTransport (objs st aid))"

lemma turn_view_basic:
  "turn_view aid (fst (ask D f c st)) = turn_view aid st"
  "turn_view aid (fst (publish D i t flds st)) = turn_view aid st"
  by (auto simp: turn_view_def ask_def publish_def Let_def split: prod.split)

lemma turn_view_assessed: "turn_view aid (publish_assessed D i sv st) = turn_view aid st"
  by (simp add: publish_assessed_def Let_def split_beta turn_view_basic)

lemma turn_view_pipeline: "turn_view aid (fst (assess_pipeline D w tel b st)) = turn_view aid st"
  by (auto simp: assess_pipeline_def ask_def Let_def turn_view_def split: sum.split)

lemma turn_view_pipeline': "assess_pipeline D w tel b st = (st', r) \<Longrightarrow> turn_view aid st' = turn_view aid st"
  using turn_view_pipeline [of aid D w tel b st] by simp

lemma turn_view_ask': "ask D f c st = (st', r) \<Longrightarrow> turn_view aid st' = turn_view aid st"
  using turn_view_basic(1) [of aid D f c st] by simp

lemma SettleAssess_view: "turn_view aid (SettleAssess D aid st) = turn_view aid (Disarm aid st)"
proof (cases "monitor st")
  case None
  then show ?thesis by (simp add: SettleAssess_def Disarm_def)
next
  case (Some mo)
  obtain mo' i where d: "disarm aid mo = (mo', i)" by fastforce
  show ?thesis
  proof (cases i)
    case None
    with Some d show ?thesis by (auto simp: SettleAssess_def Disarm_def disarm_def turn_view_def split: option.splits)
  next
    case (Some j)
    then show ?thesis using d \<open>monitor st = Some mo\<close>
      by (auto simp: SettleAssess_def Disarm_def Let_def turn_view_assessed split: sum.splits option.splits prod.splits
          dest!: turn_view_pipeline' [where aid = aid] turn_view_ask' [where aid = aid])
  qed
qed

lemma NoteRecord_unarmed:
  "(case monitor st of None \<Rightarrow> True | Some mo \<Rightarrow> mo_agents mo aid = None) \<Longrightarrow> NoteRecord D aid t st = st"
  by (auto simp: NoteRecord_def split: option.splits)

text \<open>C38: when the end of a turn cannot be appended to the log, the agent is stuck.  After the settled
  record of a working agent whose \<open>agent.settled\<close> transition failed, the status says ready while
  the session still runs: a prompt is refused as a turn in flight, a steer and an abort are
  refused because the agent is not working, and further settled records change nothing.\<close>

theorem unrecorded_settle_wedges:
  assumes reg: "aid \<in> set (agents st)" "a_status (objs st aid) = StatusWorking" "a_pullTransport (objs st aid)"
    and rec: "unmarshal_str ''type'' r = Some piSettledEventType" "onPiRecord D aid r st = st'"
    and failed: "a_fsm (objs st' aid) = SessionRunning"
  shows "a_status (objs st' aid) = StatusReady \<and>
    Prompt D aid m st' = (st', Some (ErrTurnInFlight aid)) \<and>
    Steer D aid m st' = (st', Some (ErrNotReady aid StatusReady)) \<and>
    Abort D aid st' = (st', Some (ErrNotReady aid StatusReady)) \<and>
    onPiRecord D aid r st' = st'"
proof -
  let ?s1 = "upd_agent aid (\<lambda>a. a\<lparr>a_status := StatusReady\<rparr>) (NoteRecord D aid piSettledEventType st)"
  let ?s2 = "SettleAssess D aid ?s1"
  have st': "st' = fst (transition D aid SessionIdle ''agent.settled'' [] ?s2)"
    using rec reg(2) by (simp add: onPiRecord_def Let_def)
  have v: "turn_view aid ?s2 = turn_view aid (Disarm aid ?s1)" by (rule SettleAssess_view)
  have "agents ?s2 = agents st" "a_status (objs ?s2 aid) = StatusReady" "a_pullTransport (objs ?s2 aid)"
    "case monitor ?s2 of None \<Rightarrow> True | Some mo \<Rightarrow> mo_agents mo aid = None"
    using v reg by (auto simp: turn_view_def Disarm_def split: option.splits)
  then have s: "agents st' = agents st" "a_status (objs st' aid) = StatusReady" "a_pullTransport (objs st' aid)"
    "case monitor st' of None \<Rightarrow> True | Some mo \<Rightarrow> mo_agents mo aid = None"
    unfolding st' by (auto simp: transition_def split: prod.splits)
  have "onPiRecord D aid r st' = st'"
    using rec(1) s NoteRecord_unarmed [OF s(4)] by (simp add: onPiRecord_def Let_def)
  with s reg failed show ?thesis
    by (simp add: Prompt_def sendPrompt_def prompt_gate_def Steer_def sendSteer_def Abort_def Let_def)
qed

text \<open>The store refuses the next write.\<close>

definition full_manager :: "mem_db AgentManager" where
  "full_manager = (NewAgentManager (mem_empty\<lparr>mfaults := [Some ''disk full'']\<rparr>) None)
     \<lparr>agents := [''a1''], objs := (\<lambda>_. no_agent\<lparr>a_ID := ''a1'', a_status := StatusWorking, a_fsm := SessionRunning,
        a_pullTransport := True, a_hub := demo_hub\<rparr>)\<rparr>"

theorem unrecorded_settle_wedges_witness:
  "\<exists>st'. onPiRecord demo_deps ''a1'' (RawDoc (JObj [(''type'', JStr ''agent_settled'')])) full_manager = st' \<and>
     Prompt demo_deps ''a1'' ''go'' st' = (st', Some (ErrTurnInFlight ''a1'')) \<and>
     Abort demo_deps ''a1'' st' = (st', Some (ErrNotReady ''a1'' StatusReady))"
proof -
  let ?r = "RawDoc (JObj [(''type'', JStr ''agent_settled'')])"
  define st' where "st' = onPiRecord demo_deps ''a1'' ?r full_manager"
  have t: "unmarshal_str ''type'' ?r = Some piSettledEventType" by (simp add: run_simps piSettledEventType_def)
  have reg: "''a1'' \<in> set (agents full_manager)" "a_status (objs full_manager ''a1'') = StatusWorking"
    "a_pullTransport (objs full_manager ''a1'')" "monitor full_manager = None"
    by (simp_all add: full_manager_def NewAgentManager_def)
  have "a_fsm (objs st' ''a1'') = SessionRunning"
    using t reg unfolding st'_def
    by (simp add: onPiRecord_def Let_def NoteRecord_def SettleAssess_def transition_def full_manager_def
        NewAgentManager_def run_simps demo_hub_def)
  from unrecorded_settle_wedges [OF reg(1-3) t st'_def [symmetric] this, of "''go''"] show ?thesis
    by (simp add: st'_def)
qed

end
