(* ===== verification/Spool.thy ===== *)
theory Spool
  imports Go_Lib "HOL-Library.Sublist"
begin

text \<open>
  The daemon's durable spool of unacknowledged records (\<open>daemon/spool.go\<close>), at the level of
  the bytes of its file: recovery with its torn final line, appends with the places where a
  write can fail, the cap with its truncation notice, and the long-poll read with its
  waiting channels.

  The JSON text of an envelope is produced and read back by \<open>encoding/json\<close>; the functions
  \<open>enc\<close> and \<open>dec\<close> of the definitions stand for it, and the locale \<open>entry_codec\<close> says what is
  used of them.  The payload type is left open.
\<close>

section \<open>State\<close>

record 'd spool_entry =
  SpoolID :: u64
  Data :: 'd

record 'd spool =
  sp_file :: string
  sp_next :: u64
  sp_max :: int
  sp_recs :: "'d spool_entry list"
  sp_waiters :: "nat list"
  sp_chan :: nat

datatype spool_error =
    OpenFailed
  | ReadFailed
  | TruncateFailed
  | CorruptRecord
  | WriteFailed
  | SyncFailed
  | SlicePanic

definition newline :: char where "newline = CHR 0x0A"

section \<open>Recovery\<close>

text \<open>
  The loop over \<open>rd.ReadString\<close>: \<open>rest\<close> are the bytes still to come, \<open>at_eof\<close> tells
  whether the reader ends with \<open>io.EOF\<close> or with another error.  The result carries the
  records, the next id, and the number of bytes to truncate to when a torn line was found.
\<close>

function recover_lines ::
    "(string \<Rightarrow> 'd spool_entry option) \<Rightarrow> bool \<Rightarrow> string \<Rightarrow> nat \<Rightarrow> 'd spool_entry list \<Rightarrow> u64 \<Rightarrow>
     spool_error + 'd spool_entry list \<times> u64 \<times> nat option" where
  "recover_lines dec at_eof rest off recs nxt =
     (case cut newline rest of
        None \<Rightarrow>
          if rest = [] then (if at_eof then Inr (recs, nxt, None) else Inl ReadFailed)
          else Inr (recs, nxt, Some off)
      | Some (trimmed, rest') \<Rightarrow>
          if trimmed = [] then recover_lines dec at_eof rest' (off + 1) recs nxt
          else (case dec trimmed of
                  None \<Rightarrow> Inl CorruptRecord
                | Some e \<Rightarrow>
                    recover_lines dec at_eof rest' (off + length trimmed + 1) (recs @ [e])
                      (if SpoolID e \<ge> nxt then SpoolID e + 1 else nxt)))"
  by pat_completeness auto

termination
  by (relation "measure (\<lambda>(dec, at_eof, rest, off, recs, nxt). length rest)") (auto simp: cut_Some)

declare recover_lines.simps [simp del]

text \<open>What can go wrong while the file is opened: the open itself, a read error after some
  number of bytes, the truncation of a torn line.\<close>

record disk =
  open_ok :: bool
  read_stop :: "nat option"
  truncate_ok :: bool

definition healthy_disk :: disk where
  "healthy_disk = \<lparr>open_ok = True, read_stop = None, truncate_ok = True\<rparr>"

definition NewSpool ::
    "(string \<Rightarrow> 'd spool_entry option) \<Rightarrow> disk \<Rightarrow> string \<Rightarrow> int \<Rightarrow> spool_error + 'd spool" where
  "NewSpool dec d file maxRecords =
     (if \<not> open_ok d then Inl OpenFailed
      else
        let bytes = (case read_stop d of None \<Rightarrow> file | Some n \<Rightarrow> take n file)
        in case recover_lines dec (read_stop d = None) bytes 0 [] 1 of
             Inl e \<Rightarrow> Inl e
           | Inr (recs, nxt, torn) \<Rightarrow>
               if torn \<noteq> None \<and> \<not> truncate_ok d then Inl TruncateFailed
               else Inr \<lparr>sp_file = (case torn of None \<Rightarrow> file | Some n \<Rightarrow> take n file),
                         sp_next = nxt, sp_max = maxRecords, sp_recs = recs,
                         sp_waiters = [], sp_chan = 0\<rparr>)"

section \<open>Appending\<close>

text \<open>The outcome of writing one line: all of it and synced, an error after some bytes, or all
  of it but the sync failed.\<close>

datatype write_outcome = Written | ShortWrite nat | NotSynced

definition appendLocked ::
    "('d spool_entry \<Rightarrow> string) \<Rightarrow> write_outcome \<Rightarrow> 'd spool_entry \<Rightarrow> 'd spool \<Rightarrow>
     spool_error option \<times> 'd spool" where
  "appendLocked enc w e s =
     (let line = enc e @ [newline] in
      case w of
        ShortWrite n \<Rightarrow> (Some WriteFailed, s\<lparr>sp_file := sp_file s @ take n line\<rparr>)
      | NotSynced \<Rightarrow> (Some SyncFailed, s\<lparr>sp_file := sp_file s @ line\<rparr>)
      | Written \<Rightarrow> (None, s\<lparr>sp_file := sp_file s @ line, sp_recs := sp_recs s @ [e],
                            sp_next := SpoolID e + 1\<rparr>))"

text \<open>\<open>w\<close> and \<open>w'\<close> are the outcomes for the record and for a truncation notice.\<close>

definition spool_Append ::
    "('d spool_entry \<Rightarrow> string) \<Rightarrow> 'd \<Rightarrow> write_outcome \<Rightarrow> write_outcome \<Rightarrow> 'd \<Rightarrow> 'd spool \<Rightarrow>
     (spool_error + 'd spool_entry) \<times> 'd spool" where
  "spool_Append enc notice w w' data s =
     (let e = \<lparr>SpoolID = sp_next s, Data = data\<rparr> in
      case appendLocked enc w e s of
        (Some err, s') \<Rightarrow> (Inl err, s')
      | (None, s1) \<Rightarrow>
          if int (length (sp_recs s1)) > sp_max s1 then
            (if sp_max s1 < 0 then (Inl SlicePanic, s1)
             else
               let s2 = s1\<lparr>sp_recs := drop (length (sp_recs s1) - nat (sp_max s1)) (sp_recs s1)\<rparr>;
                   s3 = snd (appendLocked enc w' \<lparr>SpoolID = sp_next s2, Data = notice\<rparr> s2)
               in (Inr e, s3\<lparr>sp_waiters := []\<rparr>))
          else (Inr e, s1\<lparr>sp_waiters := []\<rparr>))"

section \<open>Reading\<close>

fun findAfter :: "'d spool_entry list \<Rightarrow> u64 \<Rightarrow> nat" where
  "findAfter [] after = 0"
| "findAfter (e # es) after = (if SpoolID e > after then 0 else Suc (findAfter es after))"

definition read_after :: "u64 \<Rightarrow> 'd spool \<Rightarrow> 'd spool_entry list" where
  "read_after after s = drop (findAfter (sp_recs s) after) (sp_recs s)"

datatype 'd read_result = Served "'d spool_entry list" | Blocked nat

text \<open>The first half of \<open>Read\<close>: records at once, or a registered channel to wait on.\<close>

definition spool_Read :: "u64 \<Rightarrow> int \<Rightarrow> 'd spool \<Rightarrow> 'd read_result \<times> 'd spool" where
  "spool_Read after wait s =
     (if findAfter (sp_recs s) after < length (sp_recs s) then (Served (read_after after s), s)
      else if wait \<le> 0 then (Served [], s)
      else (Blocked (sp_chan s), s\<lparr>sp_waiters := sp_chan s # sp_waiters s, sp_chan := Suc (sp_chan s)\<rparr>))"

text \<open>The second half, once the channel is closed or the wait is over.\<close>

definition Read_resume :: "nat \<Rightarrow> u64 \<Rightarrow> 'd spool \<Rightarrow> 'd spool_entry list \<times> 'd spool" where
  "Read_resume ch after s = (read_after after s, s\<lparr>sp_waiters := removeAll ch (sp_waiters s)\<rparr>)"

definition Depth :: "'d spool \<Rightarrow> nat" where
  "Depth s = length (sp_recs s)"

section \<open>Interleavings\<close>

text \<open>
  One boot after another on the same file: appends on a working disk, reads, and crashes.  A
  crash may hit a line being written, of which \<open>n\<close> bytes reached the file; the daemon then
  starts again on what is there.
\<close>

datatype 'd spool_op = SAppend 'd | SRead u64 int | SCrash "'d option" nat

definition crash_file :: "('d spool_entry \<Rightarrow> string) \<Rightarrow> 'd option \<Rightarrow> nat \<Rightarrow> 'd spool \<Rightarrow> string" where
  "crash_file enc d n s =
     (case d of
        None \<Rightarrow> sp_file s
      | Some x \<Rightarrow> sp_file s @ take n (enc \<lparr>SpoolID = sp_next s, Data = x\<rparr> @ [newline]))"

fun spool_step ::
    "('d spool_entry \<Rightarrow> string) \<Rightarrow> (string \<Rightarrow> 'd spool_entry option) \<Rightarrow> 'd \<Rightarrow> 'd spool_op \<Rightarrow> 'd spool \<Rightarrow>
     'd spool_entry list \<times> 'd spool option" where
  "spool_step enc dec notice (SAppend d) s =
     (case spool_Append enc notice Written Written d s of
        (Inl err, s') \<Rightarrow> ([], Some s')
      | (Inr e, s') \<Rightarrow> ([e], Some s'))"
| "spool_step enc dec notice (SRead after wait) s = ([], Some (snd (spool_Read after wait s)))"
| "spool_step enc dec notice (SCrash d n) s =
     ([], case NewSpool dec healthy_disk (crash_file enc d n s) (sp_max s) of
            Inl err \<Rightarrow> None
          | Inr s' \<Rightarrow> Some s')"

text \<open>The acknowledged records of a run and the final state; \<open>None\<close> when the daemon could
  not start again.\<close>

fun spool_run ::
    "('d spool_entry \<Rightarrow> string) \<Rightarrow> (string \<Rightarrow> 'd spool_entry option) \<Rightarrow> 'd \<Rightarrow> 'd spool_op list \<Rightarrow> 'd spool \<Rightarrow>
     'd spool_entry list \<times> 'd spool option" where
  "spool_run enc dec notice [] s = ([], Some s)"
| "spool_run enc dec notice (op # ops) s =
     (case spool_step enc dec notice op s of
        (acks, None) \<Rightarrow> (acks, None)
      | (acks, Some s') \<Rightarrow> (case spool_run enc dec notice ops s' of (acks', r) \<Rightarrow> (acks @ acks', r)))"

definition fresh_spool :: "int \<Rightarrow> 'd spool" where
  "fresh_spool maxRecords =
     \<lparr>sp_file = [], sp_next = 1, sp_max = maxRecords, sp_recs = [], sp_waiters = [], sp_chan = 0\<rparr>"


section \<open>The codec\<close>

text \<open>What the code relies on: an envelope's text is one non-empty line and reads back.\<close>

locale entry_codec =
  fixes enc :: "'d spool_entry \<Rightarrow> string" and dec :: "string \<Rightarrow> 'd spool_entry option"
  assumes dec_enc: "dec (enc e) = Some e"
    and enc_line: "newline \<notin> set (enc e)"
    and enc_nonempty: "enc e \<noteq> []"

text \<open>The bytes of a sequence of entries.\<close>

definition lines_of :: "('d spool_entry \<Rightarrow> string) \<Rightarrow> 'd spool_entry list \<Rightarrow> string" where
  "lines_of enc es = concat (map (\<lambda>e. enc e @ [newline]) es)"

lemma lines_of_simps [simp]:
  "lines_of enc [] = []" "lines_of enc (e # es) = enc e @ newline # lines_of enc es"
  "lines_of enc (es @ fs) = lines_of enc es @ lines_of enc fs"
  by (simp_all add: lines_of_def)

definition next_id :: "u64 \<Rightarrow> 'd spool_entry list \<Rightarrow> u64" where
  "next_id nxt es = foldl (\<lambda>n e. if SpoolID e \<ge> n then SpoolID e + 1 else n) nxt es"

context entry_codec
begin

lemma recover_entries:
  assumes "newline \<notin> set torn"
  shows "recover_lines dec at_eof (lines_of enc es @ torn) off recs nxt =
    (if torn \<noteq> [] then Inr (recs @ es, next_id nxt es, Some (off + length (lines_of enc es)))
     else if at_eof then Inr (recs @ es, next_id nxt es, None) else Inl ReadFailed)"
proof (induction es arbitrary: off recs nxt)
  case Nil
  from assms have "cut newline torn = None" by (simp add: cut_None)
  then show ?case by (simp add: recover_lines.simps [of dec at_eof torn] next_id_def)
next
  case (Cons e es)
  have "cut newline (lines_of enc (e # es) @ torn) = Some (enc e, lines_of enc es @ torn)"
    using enc_line [of e] by simp
  with enc_nonempty [of e] dec_enc [of e] Cons.IH show ?case
    by (subst recover_lines.simps) (simp add: next_id_def)
qed

end

text \<open>The invariant: the file holds the lines of \<open>es\<close>, numbered from 1 without gaps, and the
  window in memory is a suffix of them.\<close>

definition numbered :: "nat \<Rightarrow> 'd spool_entry list \<Rightarrow> bool" where
  "numbered k es \<longleftrightarrow> map SpoolID es = map of_nat [Suc k..<Suc (k + length es)]"

definition spool_inv :: "('d spool_entry \<Rightarrow> string) \<Rightarrow> 'd spool_entry list \<Rightarrow> 'd spool \<Rightarrow> bool" where
  "spool_inv enc es s \<longleftrightarrow> sp_file s = lines_of enc es \<and> numbered 0 es \<and>
     sp_next s = of_nat (Suc (length es)) \<and> suffix (sp_recs s) es"

lemma numbered_Nil [simp]: "numbered k []"
  by (simp add: numbered_def)

lemma numbered_snoc: "numbered k (es @ [e]) \<longleftrightarrow> numbered k es \<and> SpoolID e = of_nat (Suc (k + length es))"
  by (auto simp: numbered_def)

lemma numbered_Cons: "numbered k (e # es) \<longleftrightarrow> SpoolID e = of_nat (Suc k) \<and> numbered (Suc k) es"
  by (auto simp: numbered_def upt_conv_Cons)

lemma next_id_numbered:
  "numbered k es \<Longrightarrow> next_id (of_nat (Suc k)) es = of_nat (Suc (k + length es))"
proof (induction es arbitrary: k)
  case (Cons e es)
  then have "next_id (of_nat (Suc k)) (e # es) = next_id (of_nat (Suc (Suc k))) es"
    by (simp add: numbered_Cons next_id_def add.commute)
  also have "\<dots> = of_nat (Suc (Suc k + length es))"
    by (rule Cons.IH) (use Cons.prems in \<open>simp add: numbered_Cons\<close>)
  finally show ?case by simp
qed (simp add: next_id_def)

context entry_codec
begin

lemma NewSpool_recovers:
  assumes "numbered 0 es" "newline \<notin> set torn"
  shows "NewSpool dec healthy_disk (lines_of enc es @ torn) m =
    Inr \<lparr>sp_file = lines_of enc es, sp_next = of_nat (Suc (length es)), sp_max = m, sp_recs = es,
         sp_waiters = [], sp_chan = 0\<rparr>"
  using recover_entries [OF assms(2), of True es 0 "[]" 1] next_id_numbered [OF assms(1)]
  by (auto simp: NewSpool_def healthy_disk_def)

lemma crash_restarts:
  assumes inv: "spool_inv enc es s"
  shows "\<exists>new s'. spool_step enc dec notice (SCrash d n) s = ([], Some s') \<and> spool_inv enc (es @ new) s' \<and>
    length new \<le> 1 \<and> sp_max s' = sp_max s"
proof (cases d)
  case None
  with inv NewSpool_recovers [of es "[]"] show ?thesis
    by (intro exI [of _ "[]"]) (auto simp: crash_file_def spool_inv_def)
next
  case (Some x)
  let ?e = "\<lparr>SpoolID = sp_next s, Data = x\<rparr>"
  show ?thesis
  proof (cases "n \<le> length (enc ?e)")
    case True
    then have "newline \<notin> set (take n (enc ?e @ [newline]))"
      using enc_line [of ?e] by (auto dest: in_set_takeD)
    from NewSpool_recovers [OF _ this] inv Some show ?thesis
      by (intro exI [of _ "[]"]) (auto simp: crash_file_def spool_inv_def)
  next
    case False
    then have "take n (enc ?e @ [newline]) = enc ?e @ [newline]" by simp
    moreover have "numbered 0 (es @ [?e])" using inv by (simp add: spool_inv_def numbered_snoc)
    ultimately show ?thesis
      using NewSpool_recovers [of "es @ [?e]" "[]"] inv Some
      by (intro exI [of _ "[?e]"]) (auto simp: crash_file_def spool_inv_def)
  qed
qed

end

lemma suffix_snoc_both: "suffix xs ys \<Longrightarrow> suffix (xs @ zs) (ys @ zs)"
  by (auto simp: suffix_def)

lemma append_extends:
  assumes inv: "spool_inv enc es s" and m: "0 \<le> sp_max s"
  shows "\<exists>new s'. spool_Append enc notice Written Written d s = (Inr \<lparr>SpoolID = sp_next s, Data = d\<rparr>, s') \<and>
    spool_inv enc (es @ \<lparr>SpoolID = sp_next s, Data = d\<rparr> # new) s' \<and> length new \<le> 1 \<and> sp_max s' = sp_max s"
proof -
  let ?e = "\<lparr>SpoolID = sp_next s, Data = d\<rparr>"
  let ?f = "\<lparr>SpoolID = sp_next s + 1, Data = notice\<rparr>"
  have n: "sp_next s = of_nat (Suc (length es))" using inv by (simp add: spool_inv_def)
  have one: "numbered 0 (es @ [?e])" "numbered 0 (es @ [?e, ?f])"
    using inv numbered_snoc [of 0 "es @ [?e]" ?f] by (simp_all add: spool_inv_def numbered_snoc)
  have suf: "suffix (sp_recs s @ [?e]) (es @ [?e])"
    using inv by (auto simp: spool_inv_def suffix_def)
  show ?thesis
  proof (cases "int (length (sp_recs s @ [?e])) > sp_max s")
    case True
    let ?k = "length (sp_recs s @ [?e]) - nat (sp_max s)"
    have "suffix (drop ?k (sp_recs s @ [?e]) @ [?f]) ((es @ [?e]) @ [?f])"
      by (rule suffix_snoc_both, rule suffix_order.trans [OF suffix_drop suf])
    with True m inv one show ?thesis
      by (intro exI [of _ "[?f]"] exI [of _ "snd (spool_Append enc notice Written Written d s)"])
        (simp add: spool_Append_def appendLocked_def Let_def spool_inv_def)
  next
    case False
    with m inv one suf show ?thesis
      by (intro exI [of _ "[]"] exI [of _ "snd (spool_Append enc notice Written Written d s)"])
        (simp add: spool_Append_def appendLocked_def Let_def spool_inv_def)
  qed
qed

section \<open>Durability\<close>

context entry_codec
begin

lemma step_extends:
  assumes inv: "spool_inv enc es s" and m: "0 \<le> sp_max s"
  shows "\<exists>new acks s'. spool_step enc dec notice op s = (acks, Some s') \<and> spool_inv enc (es @ new) s' \<and>
    subseq acks new \<and> length new \<le> 2 \<and> sp_max s' = sp_max s"
proof (cases op)
  case (SAppend d)
  with append_extends [OF inv m, of notice d] show ?thesis
    by (fastforce simp: subseq_Cons2_iff)
next
  case (SRead a w)
  with inv show ?thesis
    by (intro exI [of _ "[]"]) (simp add: spool_inv_def spool_Read_def)
next
  case (SCrash d n)
  with crash_restarts [OF inv, of notice d n] show ?thesis by fastforce
qed

lemma run_extends:
  assumes "spool_inv enc es s" "0 \<le> sp_max s"
  shows "\<exists>new acks s'. spool_run enc dec notice ops s = (acks, Some s') \<and> spool_inv enc (es @ new) s' \<and>
    subseq acks new \<and> length new \<le> 2 * length ops \<and> sp_max s' = sp_max s"
  using assms
proof (induction ops arbitrary: es s)
  case (Cons op ops)
  obtain new acks s1 where 1: "spool_step enc dec notice op s = (acks, Some s1)" "spool_inv enc (es @ new) s1"
      "subseq acks new" "length new \<le> 2" "sp_max s1 = sp_max s"
    using step_extends [OF Cons.prems, of notice op] by blast
  obtain new' acks' s2 where 2: "spool_run enc dec notice ops s1 = (acks', Some s2)"
      "spool_inv enc ((es @ new) @ new') s2" "subseq acks' new'" "length new' \<le> 2 * length ops" "sp_max s2 = sp_max s1"
    using Cons.IH [OF 1(2)] Cons.prems(2) 1(5) by auto
  show ?case
    using 1 2 by (intro exI [of _ "new @ new'"] exI [of _ "acks @ acks'"] exI [of _ s2])
      (auto intro: list_emb_append_mono)
qed (simp add: exI [of _ "[]"])

end

lemma fresh_spool_inv: "spool_inv enc [] (fresh_spool m)"
  by (simp add: spool_inv_def fresh_spool_def)

text \<open>C5: the spool never loses or renumbers an acknowledged record.  Start from an empty file
  and let appends, reads and crashes happen in any order, a crash possibly after any number
  of bytes of a line: the daemon always starts again, the file is a sequence of whole
  envelopes numbered 1, 2, 3, ... without gap or reuse, the acknowledged records are among
  them, unchanged and in order, and the window in memory is a suffix of them.\<close>

theorem spool_durable:
  assumes codec: "entry_codec enc dec" and m: "0 \<le> m"
    and run: "spool_run enc dec notice ops (fresh_spool m) = (acks, r)"
  shows "\<exists>es s. r = Some s \<and> sp_file s = concat (map (\<lambda>e. enc e @ [newline]) es) \<and>
    map SpoolID es = map of_nat [1..<Suc (length es)] \<and> sp_next s = of_nat (Suc (length es)) \<and>
    subseq acks es \<and> suffix (sp_recs s) es \<and> length es \<le> 2 * length ops"
proof -
  have "0 \<le> sp_max (fresh_spool m)" using m by (simp add: fresh_spool_def)
  from entry_codec.run_extends [OF codec fresh_spool_inv this, of notice ops] run
  obtain es s where "r = Some s" "spool_inv enc es s" "subseq acks es" "length es \<le> 2 * length ops" by auto
  then show ?thesis
    by (intro exI [of _ es] exI [of _ s]) (simp add: spool_inv_def numbered_def lines_of_def del: upt_Suc)
qed

section \<open>Reading\<close>

lemma findAfter_le: "findAfter recs a \<le> length recs"
  by (induction recs) auto

lemma read_after_filter:
  assumes "sorted (map SpoolID recs)"
  shows "drop (findAfter recs a) recs = filter (\<lambda>e. SpoolID e > a) recs"
  using assms
proof (induction recs)
  case (Cons e recs)
  show ?case
  proof (cases "SpoolID e > a")
    case True
    then have "\<forall>e' \<in> set recs. SpoolID e' > a" using Cons.prems by auto
    with True show ?thesis by simp
  next
    case False
    with Cons show ?thesis by simp
  qed
qed simp

lemma numbered_nth:
  assumes "numbered 0 es" "length es < u64_limit" "i < length es"
  shows "unat (SpoolID (es ! i)) = Suc i"
proof -
  have "map SpoolID es ! i = map of_nat [Suc 0..<Suc (length es)] ! i"
    using assms(1) by (simp add: numbered_def del: upt_Suc)
  then have "SpoolID (es ! i) = of_nat (Suc i)" using assms(3) by (simp del: upt_Suc)
  then show ?thesis using unat_u64_of_nat [of "Suc i"] assms(2,3) by simp
qed

lemma numbered_sorted: "numbered 0 es \<Longrightarrow> length es < u64_limit \<Longrightarrow> sorted (map SpoolID es)"
  by (auto simp: sorted_iff_nth_mono word_le_nat_alt numbered_nth)

lemma sorted_suffix: "suffix xs ys \<Longrightarrow> sorted (map f ys) \<Longrightarrow> sorted (map f xs)"
  by (auto simp: suffix_def sorted_append)

text \<open>The file of a reached spool holds its entries numbered from 1, the window in memory is the
  last part of them, and the acknowledged records are among them.\<close>

lemma reached_window:
  assumes codec: "entry_codec enc dec" and m: "0 \<le> m" and room: "2 * length ops < u64_limit"
    and run: "spool_run enc dec notice ops (fresh_spool m) = (acks, Some s)"
    and content: "sp_file s = concat (map (\<lambda>e. enc e @ [newline]) es)"
  obtains pre where "es = pre @ sp_recs s" "numbered 0 es" "length es < u64_limit" "subseq acks es"
proof -
  have "0 \<le> sp_max (fresh_spool m)" using m by (simp add: fresh_spool_def)
  from entry_codec.run_extends [OF codec fresh_spool_inv this, of notice ops] run
  obtain fs where inv: "spool_inv enc fs s" and len: "length fs \<le> 2 * length ops" and acks: "subseq acks fs" by auto
  have "newline \<notin> set ([] :: string)" by simp
  from entry_codec.recover_entries [OF codec this, of True fs 0 "[]" 1]
    entry_codec.recover_entries [OF codec this, of True es 0 "[]" 1]
  have "es = fs" using inv content by (simp add: spool_inv_def lines_of_def)
  with inv len room acks that show thesis by (auto simp: spool_inv_def suffix_def)
qed

text \<open>Once the first record after the cursor is in the window, all of them are.\<close>

lemma window_complete:
  assumes es: "es = pre @ recs" "numbered 0 es" "length es < u64_limit"
    and win: "recs \<noteq> []" "unat (SpoolID (hd recs)) \<le> Suc (unat a)"
  shows "filter (\<lambda>e. SpoolID e > a) es = filter (\<lambda>e. SpoolID e > a) recs"
proof -
  have "SpoolID e \<le> a" if e: "e \<in> set pre" for e
  proof -
    obtain i where i: "i < length pre" "e = pre ! i" using e by (auto simp: in_set_conv_nth)
    have "hd recs = es ! length pre" using es(1) win(1) by (simp add: nth_append hd_conv_nth)
    with numbered_nth [OF es(2,3), of "length pre"] es(1) win(1)
    have "unat (SpoolID (hd recs)) = Suc (length pre)" by simp
    moreover have "unat (SpoolID e) = Suc i"
      using numbered_nth [OF es(2,3), of i] i es(1) by (simp add: nth_append)
    ultimately show ?thesis using i win(2) by (simp add: word_le_nat_alt)
  qed
  then show ?thesis by (auto simp: es(1) filter_empty_conv not_less)
qed

lemma read_after_window:
  assumes "es = pre @ sp_recs s" "numbered 0 es" "length es < u64_limit"
  shows "read_after a s = filter (\<lambda>e. SpoolID e > a) (sp_recs s)"
  using read_after_filter [of "sp_recs s" a] sorted_suffix [of "sp_recs s" es SpoolID] numbered_sorted [OF assms(2)] assms
  by (simp add: read_after_def suffix_def)

text \<open>C25: a read serves exactly what is new.  In every state the runs reach, a read after \<open>a\<close>
  gives the records of the window with a larger id, in order; and as long as the first record
  after \<open>a\<close> is still in the window, these are all the records of the file with a larger id.\<close>

theorem spool_read_exact:
  assumes codec: "entry_codec enc dec" and m: "0 \<le> m" and room: "2 * length ops < u64_limit"
    and run: "spool_run enc dec notice ops (fresh_spool m) = (acks, Some s)"
    and content: "sp_file s = concat (map (\<lambda>e. enc e @ [newline]) es)"
    and win: "sp_recs s \<noteq> []" "unat (SpoolID (hd (sp_recs s))) \<le> Suc (unat a)"
  shows "spool_Read a 0 s = (Served (filter (\<lambda>e. SpoolID e > a) es), s)"
proof -
  obtain pre where es: "es = pre @ sp_recs s" "numbered 0 es" "length es < u64_limit"
    by (rule reached_window [OF codec m room run content])
  have "findAfter (sp_recs s) a = length (sp_recs s) \<Longrightarrow> read_after a s = []"
    by (simp add: read_after_def)
  then show ?thesis
    using read_after_window [OF es, of a] window_complete [OF es win] findAfter_le [of "sp_recs s" a]
    by (auto simp: spool_Read_def)
qed


section \<open>The cap\<close>

text \<open>The entries of appends at the cap: each record is followed by a notice.\<close>

fun with_notices :: "'d \<Rightarrow> u64 \<Rightarrow> 'd list \<Rightarrow> 'd spool_entry list" where
  "with_notices notice n [] = []"
| "with_notices notice n (d # ds) =
     \<lparr>SpoolID = n, Data = d\<rparr> # \<lparr>SpoolID = n + 1, Data = notice\<rparr> # with_notices notice (n + 2) ds"

lemma append_at_cap:
  assumes "0 \<le> sp_max s" "sp_max s \<le> int (Depth s)"
  obtains s' where "spool_Append enc notice Written Written d s = (Inr \<lparr>SpoolID = sp_next s, Data = d\<rparr>, s')"
    "sp_file s' = sp_file s @ lines_of enc [\<lparr>SpoolID = sp_next s, Data = d\<rparr>, \<lparr>SpoolID = sp_next s + 1, Data = notice\<rparr>]"
    "sp_next s' = sp_next s + 2" "sp_max s' = sp_max s" "int (Depth s') = sp_max s + 1"
proof
  show "spool_Append enc notice Written Written d s =
      (Inr \<lparr>SpoolID = sp_next s, Data = d\<rparr>, snd (spool_Append enc notice Written Written d s))"
    using assms by (simp add: spool_Append_def appendLocked_def Depth_def Let_def)
qed (use assms in \<open>auto simp: spool_Append_def appendLocked_def Depth_def Let_def\<close>)

text \<open>At the cap every append is a truncation.  Once the window is full - whether or not its
  records were read and acknowledged - every further append writes its record and a
  truncation notice, and the window stays one record above the cap.\<close>

theorem spool_full_stays_full:
  assumes "0 \<le> sp_max s" "sp_max s \<le> int (Depth s)" "ds \<noteq> []"
  shows "\<exists>acks s'. spool_run enc dec notice (map SAppend ds) s = (acks, Some s') \<and> map Data acks = ds \<and>
    sp_file s' = sp_file s @ lines_of enc (with_notices notice (sp_next s) ds) \<and>
    int (Depth s') = sp_max s + 1"
  using assms
proof (induction ds arbitrary: s)
  case (Cons d ds)
  obtain s1 where 1: "spool_Append enc notice Written Written d s = (Inr \<lparr>SpoolID = sp_next s, Data = d\<rparr>, s1)"
    "sp_file s1 = sp_file s @ lines_of enc [\<lparr>SpoolID = sp_next s, Data = d\<rparr>, \<lparr>SpoolID = sp_next s + 1, Data = notice\<rparr>]"
    "sp_next s1 = sp_next s + 2" "sp_max s1 = sp_max s" "int (Depth s1) = sp_max s + 1"
    using append_at_cap [OF Cons.prems(1,2)] by metis
  show ?case
  proof (cases "ds = []")
    case True
    with 1 show ?thesis by simp
  next
    case False
    from Cons.IH [of s1] 1 False Cons.prems(1) show ?thesis by auto
  qed
qed simp

section \<open>Long polls\<close>

lemma read_skips_old:
  "\<forall>e \<in> set xs. SpoolID e \<le> a \<Longrightarrow> drop (findAfter (xs @ ys) a) (xs @ ys) = drop (findAfter ys a) ys"
  by (induction xs) auto

lemma findAfter_full: "findAfter xs a = length xs \<longleftrightarrow> (\<forall>e \<in> set xs. SpoolID e \<le> a)"
  by (induction xs) (auto simp: not_less findAfter_le Suc_le_eq)

text \<open>C26: a blocked reader is woken by the next record.  When a read after \<open>a\<close> found nothing and
  registered its channel, the next successful append closes that channel and the reader,
  resumed, serves exactly the new record, followed by the truncation notice if there was
  one.\<close>

theorem spool_blocked_reader_woken:
  assumes block: "spool_Read a wait s = (Blocked ch, s1)"
    and new: "a < sp_next s" and m: "1 \<le> sp_max s"
    and app: "spool_Append enc notice Written Written d s1 = (r, s2)"
  shows "ch \<in> set (sp_waiters s1) \<and> ch \<notin> set (sp_waiters s2) \<and>
    fst (Read_resume ch a s2) =
      \<lparr>SpoolID = sp_next s, Data = d\<rparr> #
      (if int (Suc (Depth s)) > sp_max s then [\<lparr>SpoolID = sp_next s + 1, Data = notice\<rparr>] else [])"
proof -
  from block have full: "findAfter (sp_recs s) a = length (sp_recs s)" and
    s1: "s1 = s\<lparr>sp_waiters := ch # sp_waiters s, sp_chan := Suc ch\<rparr>"
    using findAfter_le [of "sp_recs s" a] by (auto simp: spool_Read_def split: if_splits)
  have old: "\<forall>e \<in> set (sp_recs s). SpoolID e \<le> a" using full by (simp add: findAfter_full)
  let ?e = "\<lparr>SpoolID = sp_next s, Data = d\<rparr>"
  let ?f = "\<lparr>SpoolID = sp_next s + 1, Data = notice\<rparr>"
  define k where "k = Suc (length (sp_recs s)) - nat (sp_max s)"
  have k: "drop k (sp_recs s @ [?e]) = drop k (sp_recs s) @ [?e]" using m by (simp add: k_def)
  have "\<forall>e \<in> set (drop k (sp_recs s)). SpoolID e \<le> a" using old by (auto dest: in_set_dropD)
  note skip = read_skips_old [OF this, of "[?e, ?f]"] read_skips_old [OF old, of "[?e]"]
  have s2: "s2 = snd (spool_Append enc notice Written Written d s1)" by (simp add: app)
  have recs: "sp_recs s2 = (if int (Suc (Depth s)) > sp_max s then drop k (sp_recs s @ [?e]) @ [?f] else sp_recs s @ [?e])"
    "sp_waiters s2 = []"
    using m s2 by (simp_all add: s1 spool_Append_def appendLocked_def Depth_def Let_def k_def del: drop_append)
  show ?thesis
    using skip new by (simp add: s1 recs(2) Read_resume_def read_after_def recs(1) k del: drop_append)
qed


section \<open>Faults\<close>

text \<open>A read error is taken for a torn line.  When the reader fails - not at the end of the
  file - inside a line, the recovery truncates the file in front of that line: the record
  and all records behind it are gone, and the spool starts normally.\<close>

theorem spool_read_error_truncates:
  assumes codec: "entry_codec enc dec" and num: "numbered 0 es"
    and k: "0 < k" "k \<le> length (enc e)"
    and stop: "n = length (lines_of enc es) + k"
  shows "\<exists>s. NewSpool dec \<lparr>open_ok = True, read_stop = Some n, truncate_ok = True\<rparr>
      (lines_of enc (es @ e # later)) m = Inr s \<and>
    sp_file s = lines_of enc es \<and> sp_recs s = es \<and> sp_next s = of_nat (Suc (length es))"
proof -
  have bytes: "take n (lines_of enc (es @ e # later)) = lines_of enc es @ take k (enc e)"
    using k by (simp add: stop)
  have "newline \<notin> set (take k (enc e))"
    using entry_codec.enc_line [OF codec] in_set_takeD by fastforce
  from entry_codec.recover_entries [OF codec this, of False es 0 "[]" 1]
  show ?thesis
    using next_id_numbered [OF num] k entry_codec.enc_nonempty [OF codec, of e] bytes by (simp add: NewSpool_def)
qed

text \<open>C27: a failed sync reuses an id.  An append whose sync fails reports an error but leaves its
  line in the file; the next append is acknowledged under the same id, and after a restart
  the spool serves the failed record first and the acknowledged one second, both under that
  id.\<close>

theorem spool_failed_sync_reuses_id:
  assumes codec: "entry_codec enc dec" and inv: "spool_inv enc es s"
    and cap: "int (Suc (Depth s)) \<le> sp_max s"
    and fail: "spool_Append enc notice NotSynced w' d s = (r, s1)"
    and ok: "spool_Append enc notice Written w' d' s1 = (Inr e, s2)"
  shows "r = Inl SyncFailed \<and> e = \<lparr>SpoolID = sp_next s, Data = d'\<rparr> \<and>
    (\<exists>s3. NewSpool dec healthy_disk (sp_file s2) (sp_max s) = Inr s3 \<and>
       sp_recs s3 = es @ [\<lparr>SpoolID = sp_next s, Data = d\<rparr>, \<lparr>SpoolID = sp_next s, Data = d'\<rparr>])"
proof -
  let ?f = "\<lparr>SpoolID = sp_next s, Data = d\<rparr>"
  let ?e = "\<lparr>SpoolID = sp_next s, Data = d'\<rparr>"
  have r: "r = Inl SyncFailed" "s1 = s\<lparr>sp_file := sp_file s @ lines_of enc [?f]\<rparr>"
    using fail by (auto simp: spool_Append_def appendLocked_def Let_def)
  have "(Inr e, s2) = spool_Append enc notice Written w' d' s1" by (simp add: ok)
  then have e: "e = ?e" "sp_file s2 = sp_file s @ lines_of enc [?f, ?e]"
    using cap by (simp_all add: r(2) spool_Append_def appendLocked_def Depth_def Let_def)
  have "newline \<notin> set ([] :: string)" by simp
  from entry_codec.recover_entries [OF codec this, of True "es @ [?f, ?e]" 0 "[]" 1]
  have "\<exists>s3. NewSpool dec healthy_disk (sp_file s2) (sp_max s) = Inr s3 \<and> sp_recs s3 = es @ [?f, ?e]"
    using inv by (simp add: NewSpool_def healthy_disk_def e spool_inv_def)
  with r e show ?thesis by simp
qed

section \<open>A concrete codec\<close>

text \<open>The JSON text of an envelope with a text payload, quotes, backslashes and control
  characters escaped, and a reader for it.\<close>

definition hex_digit :: "nat \<Rightarrow> char" where
  "hex_digit n = (if n < 10 then char_of (48 + n) else char_of (87 + n))"

definition hex_val :: "char \<Rightarrow> nat" where
  "hex_val c = (let n = of_char c in if n < 58 then n - 48 else n - 87)"

definition json_escape :: "char \<Rightarrow> string" where
  "json_escape c =
     (let n = (of_char c :: nat) in
      if c = CHR 0x22 \<or> c = CHR 0x5C then [CHR 0x5C, c]
      else if n < 32 then CHR 0x5C # ''u00'' @ [hex_digit (n div 16), hex_digit (n mod 16)]
      else [c])"

fun json_unescape :: "string \<Rightarrow> (string \<times> string) option" where
  "json_unescape [] = None"
| "json_unescape (c # s) =
     (if c = CHR 0x22 then Some ([], s)
      else if c = CHR 0x5C then
        (case s of
           [] \<Rightarrow> None
         | x # t \<Rightarrow>
             if x = CHR ''u'' then
               (case t of
                  _ # _ # h # l # t' \<Rightarrow>
                    map_option (\<lambda>(d, r). (char_of (16 * hex_val h + hex_val l) # d, r)) (json_unescape t')
                | _ \<Rightarrow> None)
             else map_option (\<lambda>(d, r). (x # d, r)) (json_unescape t))
      else map_option (\<lambda>(d, r). (c # d, r)) (json_unescape s))"

definition entry_head :: string where
  \<open>entry_head = ''{"spool_id":''\<close>

definition entry_mid :: string where
  \<open>entry_mid = ''"data":"''\<close>

definition entry_enc :: "string spool_entry \<Rightarrow> string" where
  \<open>entry_enc e =
     entry_head @ dec_string (unat (SpoolID e)) @ '','' @ entry_mid @
     concat (map json_escape (Data e)) @ ''"}''\<close>

definition entry_dec :: "string \<Rightarrow> string spool_entry option" where
  \<open>entry_dec l =
     (if \<not> has_prefix l entry_head then None
      else case cut CHR '','' (drop (length entry_head) l) of
        None \<Rightarrow> None
      | Some (n, rest) \<Rightarrow>
          if \<not> has_prefix rest entry_mid then None
          else case (ParseUint64 n, json_unescape (drop (length entry_mid) rest)) of
            (Some i, Some (d, t)) \<Rightarrow> if t = ''}'' then Some \<lparr>SpoolID = i, Data = d\<rparr> else None
          | _ \<Rightarrow> None)\<close>

lemma hex_val_digit: "n < 16 \<Longrightarrow> hex_val (hex_digit n) = n"
  by (auto simp: hex_val_def hex_digit_def Let_def)

lemma unescape_escape: "json_unescape (json_escape c @ s) = map_option (\<lambda>(d, r). (c # d, r)) (json_unescape s)"
proof -
  have "16 * (n div 16) + n mod 16 = n" for n :: nat by simp
  moreover have "of_char c < (256 :: nat)" by simp
  ultimately show ?thesis
    by (auto simp: json_escape_def Let_def hex_val_digit)
qed

lemma unescape_escapes: "json_unescape (concat (map json_escape d) @ CHR 0x22 # t) = Some (d, t)"
  by (induction d) (simp_all add: unescape_escape)

lemma ParseUint64_dec_string: "ParseUint64 (dec_string (unat w)) = Some w"
  using dec_string_digits [of "unat w"] unat_u64_less [of w] by (simp add: ParseUint64_def not_le)

lemma has_prefix_append [simp]: "has_prefix (p @ s) p"
  by (simp add: has_prefix_def)

lemma no_comma_dec_string: "CHR '','' \<notin> set (dec_string n)"
  using dec_string_digits [of n] by (auto simp: list_all_iff is_digit_def)

lemma entry_dec_enc: "entry_dec (entry_enc e) = Some e"
proof -
  have "cut CHR '','' (dec_string (unat (SpoolID e)) @ CHR '','' # r) = Some (dec_string (unat (SpoolID e)), r)" for r
    by (rule cut_first [OF no_comma_dec_string])
  then show ?thesis
    by (simp add: entry_dec_def entry_enc_def ParseUint64_dec_string unescape_escapes)
qed

lemma hex_digit_not_newline: "n < 16 \<Longrightarrow> newline \<noteq> hex_digit n"
proof
  assume "n < 16" "newline = hex_digit n"
  then have "of_char newline = (of_char (hex_digit n) :: nat)" by simp
  then show False using \<open>n < 16\<close> by (simp add: newline_def hex_digit_def split: if_splits)
qed

lemma newline_not_escaped: "newline \<notin> set (json_escape c)"
  using hex_digit_not_newline [of "of_char c div 16"] hex_digit_not_newline [of "of_char c mod 16"]
  by (auto simp: json_escape_def Let_def split: if_splits) (simp_all add: newline_def)

lemma newline_not_digits: "newline \<notin> set (dec_string n)"
  using dec_string_digits [of n] by (auto simp: list_all_iff is_digit_def newline_def)

interpretation ec: entry_codec entry_enc entry_dec
proof
  fix e :: "string spool_entry"
  show "entry_dec (entry_enc e) = Some e" by (rule entry_dec_enc)
  show "newline \<notin> set (entry_enc e)"
    using newline_not_escaped newline_not_digits
    by (auto simp: entry_enc_def entry_head_def entry_mid_def) (simp_all add: newline_def)
  show "entry_enc e \<noteq> []" by (simp add: entry_enc_def entry_head_def)
qed

section \<open>Witnesses\<close>

definition demo_entry :: "nat \<Rightarrow> string \<Rightarrow> string spool_entry" where
  "demo_entry n d = \<lparr>SpoolID = of_nat n, Data = d\<rparr>"

text \<open>Two records, a crash in the middle of the third line, and a record after the restart.\<close>

definition demo_spool_ops :: "string spool_op list" where
  "demo_spool_ops = [SAppend ''1'', SAppend ''2'', SCrash (Some ''3'') 5, SAppend ''4'']"

definition demo_entries :: "string spool_entry list" where
  "demo_entries = [demo_entry 1 ''1'', demo_entry 2 ''2'', demo_entry 3 ''4'']"

definition demo_spool :: "string spool" where
  "demo_spool = \<lparr>sp_file = lines_of entry_enc demo_entries, sp_next = 4, sp_max = 10,
     sp_recs = demo_entries, sp_waiters = [], sp_chan = 0\<rparr>"

lemma demo_appends:
  "spool_Append entry_enc ''n'' Written Written d
     \<lparr>sp_file = lines_of entry_enc es, sp_next = k, sp_max = 10, sp_recs = es, sp_waiters = [], sp_chan = 0\<rparr> =
   (Inr \<lparr>SpoolID = k, Data = d\<rparr>,
    \<lparr>sp_file = lines_of entry_enc (es @ [\<lparr>SpoolID = k, Data = d\<rparr>]), sp_next = k + 1, sp_max = 10,
     sp_recs = es @ [\<lparr>SpoolID = k, Data = d\<rparr>], sp_waiters = [], sp_chan = 0\<rparr>)" if "length es < 10"
  using that by (simp add: spool_Append_def appendLocked_def Let_def)

lemma spool_run_append:
  "spool_run enc dec notice (ops @ ops') s =
     (case spool_run enc dec notice ops s of
        (acks, None) \<Rightarrow> (acks, None)
      | (acks, Some s') \<Rightarrow> (case spool_run enc dec notice ops' s' of (acks', r) \<Rightarrow> (acks @ acks', r)))"
  by (induction ops arbitrary: s) (auto split: prod.split option.split)

lemma demo_torn: "newline \<notin> set (take 5 (entry_enc e))"
  using ec.enc_line by (meson in_set_takeD)

lemma demo_spool_run: "spool_run entry_enc entry_dec ''n'' demo_spool_ops (fresh_spool 10) = (demo_entries, Some demo_spool)"
proof -
  let ?es = "[demo_entry 1 ''1'', demo_entry 2 ''2'']"
  let ?s = "\<lparr>sp_file = lines_of entry_enc ?es, sp_next = 3, sp_max = 10, sp_recs = ?es, sp_waiters = [], sp_chan = 0\<rparr>"
  have fresh: "fresh_spool 10 = \<lparr>sp_file = lines_of entry_enc [], sp_next = 1, sp_max = 10, sp_recs = [], sp_waiters = [], sp_chan = 0\<rparr>"
    by (simp add: fresh_spool_def)
  have "spool_run entry_enc entry_dec ''n'' [SAppend ''1'', SAppend ''2''] (fresh_spool 10) = (?es, Some ?s)"
    by (simp add: fresh demo_appends demo_entry_def del: lines_of_simps)
  moreover have "numbered 0 ?es" by (simp add: numbered_def demo_entry_def upt_rec)
  from ec.NewSpool_recovers [OF this demo_torn]
  have "spool_step entry_enc entry_dec ''n'' (SCrash (Some ''3'') 5) ?s = ([], Some ?s)"
    by (simp add: crash_file_def entry_enc_def entry_head_def del: lines_of_simps)
  moreover have "spool_step entry_enc entry_dec ''n'' (SAppend ''4'') ?s = ([demo_entry 3 ''4''], Some demo_spool)"
    by (simp add: demo_appends demo_spool_def demo_entries_def demo_entry_def del: lines_of_simps)
  ultimately show ?thesis
    using spool_run_append [of entry_enc entry_dec "''n''" "[SAppend ''1'', SAppend ''2'']"
        "[SCrash (Some ''3'') 5, SAppend ''4'']" "fresh_spool 10"]
    by (simp add: demo_spool_ops_def demo_entries_def del: spool_step.simps spool_run.simps(2))
      (simp add: demo_entries_def del: spool_step.simps)
qed

theorem spool_durable_witness:
  "\<exists>es s. Some demo_spool = Some s \<and> sp_file s = concat (map (\<lambda>e. entry_enc e @ [newline]) es) \<and>
    map SpoolID es = map of_nat [1..<Suc (length es)] \<and> sp_next s = of_nat (Suc (length es)) \<and>
    subseq demo_entries es \<and> suffix (sp_recs s) es \<and> length es \<le> 2 * length demo_spool_ops"
  using spool_durable [OF ec.entry_codec_axioms _ demo_spool_run] by simp

theorem spool_read_exact_witness:
  "spool_Read 1 0 demo_spool = (Served (filter (\<lambda>e. SpoolID e > 1) demo_entries), demo_spool)"
  by (rule spool_read_exact [OF ec.entry_codec_axioms _ _ demo_spool_run])
    (simp_all add: demo_spool_ops_def demo_spool_def demo_entries_def demo_entry_def lines_of_def)

theorem spool_full_stays_full_witness:
  "\<exists>acks s'. spool_run entry_enc entry_dec ''n'' (map SAppend [''5'', ''6'']) (demo_spool\<lparr>sp_max := 3\<rparr>) = (acks, Some s') \<and>
    map Data acks = [''5'', ''6''] \<and>
    sp_file s' = sp_file demo_spool @ lines_of entry_enc (with_notices ''n'' 4 [''5'', ''6'']) \<and> int (Depth s') = 4"
  using spool_full_stays_full [of "demo_spool\<lparr>sp_max := 3\<rparr>" "[''5'', ''6'']" entry_enc entry_dec "''n''"]
  by (simp add: demo_spool_def Depth_def demo_entries_def)

theorem spool_blocked_reader_woken_witness:
  "fst (Read_resume 0 3 (snd (spool_Append entry_enc ''n'' Written Written ''5'' (snd (spool_Read 3 25 demo_spool))))) =
     [demo_entry 4 ''5'']"
proof -
  have "spool_Read 3 25 demo_spool = (Blocked 0, snd (spool_Read 3 25 demo_spool))"
    by (simp add: spool_Read_def demo_spool_def demo_entries_def demo_entry_def)
  from spool_blocked_reader_woken [OF this _ _ prod.collapse [symmetric], of entry_enc "''n''" "''5''"]
  show ?thesis by (simp add: demo_spool_def demo_entry_def Depth_def demo_entries_def)
qed

lemma demo_numbered: "numbered 0 demo_entries"
  by (simp add: numbered_def demo_entries_def demo_entry_def upt_rec)

theorem spool_read_error_truncates_witness:
  "\<exists>s. NewSpool entry_dec \<lparr>open_ok = True, read_stop = Some 2, truncate_ok = True\<rparr>
      (lines_of entry_enc ([] @ demo_entry 1 ''1'' # [demo_entry 2 ''2''])) 10 = Inr s \<and>
    sp_file s = [] \<and> sp_recs s = []"
proof -
  have "2 \<le> length (entry_enc (demo_entry 1 ''1''))" by (simp add: entry_enc_def entry_head_def)
  from spool_read_error_truncates [OF ec.entry_codec_axioms numbered_Nil _ this, of 2 "[demo_entry 2 ''2'']" 10]
  show ?thesis by (auto simp del: lines_of_simps(2,3))
qed

theorem spool_failed_sync_reuses_id_witness:
  "\<exists>s3. NewSpool entry_dec healthy_disk (lines_of entry_enc (demo_entries @ [demo_entry 4 ''5'', demo_entry 4 ''6''])) 10 = Inr s3 \<and>
     sp_recs s3 = demo_entries @ [demo_entry 4 ''5'', demo_entry 4 ''6'']"
proof -
  have inv: "spool_inv entry_enc demo_entries demo_spool"
    using demo_numbered by (simp add: spool_inv_def demo_spool_def demo_entries_def)
  let ?s1 = "demo_spool\<lparr>sp_file := sp_file demo_spool @ entry_enc (demo_entry 4 ''5'') @ [newline]\<rparr>"
  have a: "spool_Append entry_enc ''n'' NotSynced Written ''5'' demo_spool = (Inl SyncFailed, ?s1)"
    by (simp add: spool_Append_def appendLocked_def demo_spool_def demo_entry_def Let_def)
  obtain s2 where b: "spool_Append entry_enc ''n'' Written Written ''6'' ?s1 = (Inr (demo_entry 4 ''6''), s2)"
    "sp_file s2 = lines_of entry_enc (demo_entries @ [demo_entry 4 ''5'', demo_entry 4 ''6''])"
    by (simp add: spool_Append_def appendLocked_def demo_spool_def demo_entry_def Let_def demo_entries_def lines_of_def)
  from spool_failed_sync_reuses_id [OF ec.entry_codec_axioms inv _ a b(1)] show ?thesis
    by (simp add: b(2) Depth_def demo_spool_def demo_entry_def demo_entries_def)
qed




end
