(* ===== verification/Pull_Composition.thy ===== *)
theory Pull_Composition
  imports Agent_Turns Spool
begin

text \<open>
  The way of a record from the sandbox to the log: the drain of the pull loop
  (\<open>controller/puller.go\<close>) over the event hub and the store.  What a record causes in the
  manager is, for the agent's hub, at most two lifecycle calls, so that a drain is a run of hub
  calls in which the pulled ones are exactly the records served.
\<close>

section \<open>A record as hub calls\<close>

fun lifecycle_op :: "hub_op \<Rightarrow> bool" where
  "lifecycle_op (OpLifecycle t f) = True"
| "lifecycle_op _ = False"

text \<open>The agent's hub and the store.\<close>

definition hub_of :: "string \<Rightarrow> 's AgentManager \<Rightarrow> event_hub \<times> 's" where
  "hub_of aid st = (a_hub (objs st aid), store st)"

text \<open>What an operation does to the hub of an agent is at most \<open>n\<close> lifecycle calls.\<close>

definition hub_calls :: "'s deps \<Rightarrow> string \<Rightarrow> nat \<Rightarrow> 's AgentManager \<Rightarrow> 's AgentManager \<Rightarrow> bool" where
  "hub_calls D aid n st st' \<longleftrightarrow>
     (\<exists>ops. list_all lifecycle_op ops \<and> length ops \<le> n \<and> hub_run (d_store D) ops (hub_of aid st) = hub_of aid st')"

lemma sorted_le_last: "x \<in> set xs \<Longrightarrow> sorted xs \<Longrightarrow> x \<le> last xs"
  by (induction xs) auto

lemma hub_run_eqs [simp]:
  "hub_run S [] st = st" "hub_run S (op # ops) st = hub_run S ops (hub_step S st op)"
  by (simp_all add: hub_run_def)

lemma hub_run_append: "hub_run S (ops @ ops') st = hub_run S ops' (hub_run S ops st)"
  by (simp add: hub_run_def)

lemma hub_calls_same: "hub_of aid st' = hub_of aid st \<Longrightarrow> hub_calls D aid n st st'"
  unfolding hub_calls_def by (rule exI [of _ "[]"]) simp

lemma hub_calls_trans:
  "hub_calls D aid m st st' \<Longrightarrow> hub_calls D aid n st' st'' \<Longrightarrow> hub_calls D aid (m + n) st st''"
  unfolding hub_calls_def by (metis add_le_mono hub_run_append length_append list_all_append)

lemma hub_calls_mono: "hub_calls D aid m st st' \<Longrightarrow> m \<le> n \<Longrightarrow> hub_calls D aid n st st'"
  by (auto simp: hub_calls_def)

lemma hub_calls_publish: "hub_calls D aid 1 st (fst (publish D aid t flds st))"
  unfolding hub_calls_def
  by (rule exI [of _ "[OpLifecycle t flds]"]) (simp add: hub_of_def publish_def split: prod.split)

lemma hub_calls_transition: "hub_calls D aid 1 st (fst (transition D aid q t flds st))"
proof (cases "q \<in> set (sessionTransitions (a_fsm (objs st aid)))")
  case False
  then show ?thesis by (auto simp: transition_def Transition_def hub_of_def intro!: hub_calls_same)
next
  case True
  let ?flds = "obj_put ''status'' (JStr (session_state_string q)) (obj_put ''agent_id'' (JStr (agentID (a_hub (objs st aid)))) flds)"
  show ?thesis unfolding hub_calls_def
    using True by (intro exI [of _ "[OpLifecycle t ?flds]"])
      (auto simp: hub_of_def transition_def Transition_def split: prod.splits option.splits)
qed

lemma hub_of_ask: "hub_of aid (fst (ask D f c st)) = hub_of aid st"
  by (simp add: hub_of_def ask_def Let_def)

lemma hub_of_monitor [simp]: "hub_of aid (st\<lparr>monitor := m\<rparr>) = hub_of aid st" "hub_of aid (st\<lparr>skippedTicks := k\<rparr>) = hub_of aid st"
  by (simp_all add: hub_of_def)

lemma hub_of_pipeline: "assess_pipeline D w tel b st = (st', r) \<Longrightarrow> hub_of aid st' = hub_of aid st"
  by (auto simp: assess_pipeline_def ask_def Let_def hub_of_def split: sum.splits)

lemma hub_calls_assessed: "hub_calls D aid 1 st (publish_assessed D aid sv st)"
proof -
  have "hub_calls D aid 0 st (fst (ask D o_time CNow st))" by (rule hub_calls_same) (rule hub_of_ask)
  from hub_calls_trans [OF this hub_calls_publish] show ?thesis
    by (simp add: publish_assessed_def Let_def split_beta)
qed

lemma hub_calls_settle: "hub_calls D aid 1 st (SettleAssess D aid st)"
proof -
  have after: "hub_calls D aid 1 st (publish_assessed D aid sv s)" if "hub_of aid s = hub_of aid st" for s sv
    using hub_calls_trans [OF hub_calls_same [OF that, of D 0] hub_calls_assessed] by simp
  have ask: "hub_of aid s' = hub_of aid s" if "ask D f c s = (s', r)" for f c s s' and r :: 'b
    using that by (auto simp: ask_def Let_def hub_of_def)
  show ?thesis
    by (auto simp: SettleAssess_def Let_def split: option.splits prod.splits sum.splits
        dest!: hub_of_pipeline [where aid = aid] ask intro: hub_calls_same after [simplified])
qed

lemma hub_calls_record: "hub_calls D aid 2 st (onPiRecord D aid r st)"
proof -
  have nr: "hub_of aid (NoteRecord D aid t s) = hub_of aid s" for t s
    by (auto simp: NoteRecord_def ask_def Let_def hub_of_def split: option.split)
  have upd: "hub_of aid (upd_agent aid (\<lambda>a. a\<lparr>a_status := x\<rparr>) s) = hub_of aid s" for x s
    by (simp add: hub_of_def)
  have fin: "hub_calls D aid 2 st (fst (transition D aid SessionIdle ''agent.settled'' [] (SettleAssess D aid s)))"
    if "hub_of aid s = hub_of aid st" for s
    using hub_calls_trans [OF hub_calls_trans [OF hub_calls_same [OF that, of D 0] hub_calls_settle] hub_calls_transition]
    by (simp add: numeral_2_eq_2)
  show ?thesis
    by (auto simp: onPiRecord_def Let_def nr upd split: option.splits intro: hub_calls_same fin)
qed


section \<open>Draining a spool\<close>

context event_store_contract
begin

text \<open>A hub that can append \<open>n\<close> more events: the store works, the hub is open and in step with it.\<close>

definition ready :: "nat \<Rightarrow> event_hub \<times> 's \<Rightarrow> bool" where
  "ready n hs \<longleftrightarrow> (case hs of (h, s) \<Rightarrow> synced h s \<and> room n h s \<and> healthy s \<and> \<not> closed h)"

lemma ready_lifecycle:
  assumes "ready (Suc n) hs" "lifecycle_op op"
  shows "ready n (hub_step S hs op)" "origin (fst (hub_step S hs op)) = origin (fst hs)"
    "agentID (fst (hub_step S hs op)) = agentID (fst hs)" "pulled S [op] hs = []"
proof -
  obtain h s t f where hs: "hs = (h, s)" and op: "op = OpLifecycle t f"
    using assms(2) by (cases hs; cases op) auto
  have ok: "synced h s" "room (Suc n) h s" "healthy s" "\<not> closed h" using assms(1) hs by (auto simp: ready_def)
  obtain h' s' where p: "PublishLifecycle S t f h s = (h', s', Some (lifecycle_event t f (nextSeq h + 1)))" "healthy s'"
    using publish_lifecycle_live [OF ok(1,3,4)] by blast
  then have st: "hub_step S (h, s) op = (h', s')" by (simp add: op)
  have h': "h' = fanout (lifecycle_event t f (nextSeq h + 1)) (h\<lparr>nextSeq := nextSeq h + 1\<rparr>)"
    using p(1) ok(4) by (auto simp: PublishLifecycle_def Let_def split: prod.splits option.splits)
  obtain evs where "appends h s evs h' s'" "synced h' s'" "room n h' s'"
    by (rule hub_run_step [OF ok(1,2) st])
  then show "ready n (hub_step S hs op)" using p h' ok by (simp add: hs st ready_def)
  show "origin (fst (hub_step S hs op)) = origin (fst hs)" "agentID (fst (hub_step S hs op)) = agentID (fst hs)"
    by (simp_all add: hs st h')
  show "pulled S [op] hs = []" by (simp add: op)
qed

lemma ready_lifecycles:
  "ready (n + length ops) hs \<Longrightarrow> list_all lifecycle_op ops \<Longrightarrow>
     ready n (hub_run S ops hs) \<and> origin (fst (hub_run S ops hs)) = origin (fst hs) \<and>
     agentID (fst (hub_run S ops hs)) = agentID (fst hs) \<and> pulled S ops hs = []"
proof (induction ops arbitrary: hs)
  case (Cons op ops)
  note one = ready_lifecycle [of "n + length ops" hs op]
  have "pulled S (op # ops) hs = pulled S [op] hs @ pulled S ops (hub_step S hs op)" by simp
  with one Cons show ?case by simp
qed simp

lemma pulled_append: "pulled S (ops @ ops') hs = pulled S ops hs @ pulled S ops' (hub_run S ops hs)"
  by (induction ops arbitrary: hs) auto

lemma ready_mono: "ready n hs \<Longrightarrow> m \<le> n \<Longrightarrow> ready m hs"
  by (auto simp: ready_def intro: room_mono)

text \<open>One record: the pulled append and what the record causes.\<close>

lemma drain_record:
  assumes S: "d_store D = S" and ok: "ready (n + 3) (hub_of aid st)" and i: "origin (a_hub (objs st aid)) < i"
    and r: "raw_marshal r \<noteq> None" and pub: "publish_pulled D aid r i st = (st1, v)"
  obtains x ops where "v = Inr x" "length ops \<le> 3" "hub_run S ops (hub_of aid st) = hub_of aid (onPiRecord D aid r st1)"
    "pulled S ops (hub_of aid st) = [(i, r)]" "ready n (hub_of aid (onPiRecord D aid r st1))"
    "origin (a_hub (objs (onPiRecord D aid r st1) aid)) = i"
    "agentID (a_hub (objs (onPiRecord D aid r st1) aid)) = agentID (a_hub (objs st aid))"
proof -
  obtain h s where hs: "hub_of aid st = (h, s)" "a_hub (objs st aid) = h" "store st = s" by (simp add: hub_of_def)
  have k: "synced h s" "room (n + 3) h s" "healthy s" "\<not> closed h" using ok hs by (auto simp: ready_def)
  obtain h1 s1 where p: "PublishPulled S r i h s = (h1, s1, Inr (nextSeq h + 1))" "healthy s1"
    using publish_pulled_live [OF k(1,3,4) _ r] i hs by blast
  have 1: "hub_of aid st1 = (h1, s1)" "v = Inr (nextSeq h + 1)"
    using pub p S hs by (auto simp: publish_pulled_def hub_of_def)
  have st: "hub_step S (h, s) (OpPulled r i) = (h1, s1)" using p by simp
  have r1: "room 1 h s" using room_mono [OF k(2)] by simp
  have ne: "nextSeq h + 1 \<noteq> 0" by (rule seq_nonzero [OF k(1) r1])
  have h1: "h1 = fanout \<lparr>Seq = nextSeq h + 1, Type = eventTypeOf r, Data = r\<rparr> (h\<lparr>nextSeq := nextSeq h + 1, origin := i\<rparr>)"
    using p(1) k(4) i hs by (auto simp: PublishPulled_def Let_def split: prod.splits option.splits if_splits)
  obtain evs where "synced h1 s1" "room (n + 2) h1 s1"
    using hub_run_step [OF k(1) _ st, of "n + 2"] k(2) by (auto simp: eval_nat_numeral)
  then have ok1: "ready (n + 2) (hub_of aid st1)" using p h1 k 1 by (simp add: ready_def)
  obtain ops where ops: "list_all lifecycle_op ops" "length ops \<le> 2"
      "hub_run S ops (hub_of aid st1) = hub_of aid (onPiRecord D aid r st1)"
    using hub_calls_record [of D aid st1 r] S by (auto simp: hub_calls_def)
  have "ready (n + length ops) (hub_of aid st1)" using ready_mono [OF ok1] ops(2) by simp
  note fin = ready_lifecycles [OF this ops(1)]
  show thesis
  proof (rule that [of "nextSeq h + 1" "OpPulled r i # ops"])
    show "v = Inr (nextSeq h + 1)" "length (OpPulled r i # ops) \<le> 3" using 1 ops(2) by simp_all
    show "hub_run S (OpPulled r i # ops) (hub_of aid st) = hub_of aid (onPiRecord D aid r st1)"
      using ops(3) st hs 1 by simp
    show "pulled S (OpPulled r i # ops) (hub_of aid st) = [(i, r)]" using fin p hs 1 ne st by simp
    show "ready n (hub_of aid (onPiRecord D aid r st1))" using fin ops(3) by simp
    show "origin (a_hub (objs (onPiRecord D aid r st1) aid)) = i"
      "agentID (a_hub (objs (onPiRecord D aid r st1) aid)) = agentID (a_hub (objs st aid))"
      using fin ops(3) 1 h1 hs by (simp_all add: hub_of_def)
  qed
qed

lemma drain_batch_all:
  assumes S: "d_store D = S" and ok: "ready (3 * length recs) (hub_of aid st)"
    and ids: "sorted_wrt (<) (origin (a_hub (objs st aid)) # map fst recs)"
    and docs: "list_all (\<lambda>p. raw_marshal (snd p) \<noteq> None) recs"
  shows "\<exists>st' ops. drain_batch D aid recs st = (st', True) \<and> length ops \<le> 3 * length recs \<and> hub_run S ops (hub_of aid st) = hub_of aid st' \<and>
     pulled S ops (hub_of aid st) = recs \<and> ready 0 (hub_of aid st') \<and>
     origin (a_hub (objs st' aid)) = last (origin (a_hub (objs st aid)) # map fst recs) \<and>
     agentID (a_hub (objs st' aid)) = agentID (a_hub (objs st aid))"
  using ok ids docs
proof (induction recs arbitrary: st)
  case Nil
  then show ?case by (intro exI [of _ st] exI [of _ "[]"]) simp
next
  case (Cons p recs)
  obtain i r where p: "p = (i, r)" by fastforce
  obtain st1 v where pub: "publish_pulled D aid r i st = (st1, v)" by fastforce
  let ?st2 = "onPiRecord D aid r st1"
  have ok3: "ready (3 * length recs + 3) (hub_of aid st)" using Cons.prems(1) by (simp add: algebra_simps)
  have i: "origin (a_hub (objs st aid)) < i" and doc: "raw_marshal r \<noteq> None" using Cons.prems(2,3) p by auto
  obtain x ops where o: "v = Inr x" "length ops \<le> 3" "hub_run S ops (hub_of aid st) = hub_of aid ?st2"
      "pulled S ops (hub_of aid st) = [(i, r)]" "ready (3 * length recs) (hub_of aid ?st2)"
      "origin (a_hub (objs ?st2 aid)) = i" "agentID (a_hub (objs ?st2 aid)) = agentID (a_hub (objs st aid))"
    by (rule drain_record [OF S ok3 i doc pub])
  obtain st' ops' where r: "drain_batch D aid recs ?st2 = (st', True)" "length ops' \<le> 3 * length recs" "hub_run S ops' (hub_of aid ?st2) = hub_of aid st'"
      "pulled S ops' (hub_of aid ?st2) = recs" "ready 0 (hub_of aid st')"
      "origin (a_hub (objs st' aid)) = last (origin (a_hub (objs ?st2 aid)) # map fst recs)"
      "agentID (a_hub (objs st' aid)) = agentID (a_hub (objs ?st2 aid))"
    using Cons.IH [OF o(5)] Cons.prems(2,3) o(6) p by auto
  show ?case using r o p pub
    by (intro exI [of _ st'] exI [of _ "ops @ ops'"]) (auto simp: hub_run_append pulled_append)
qed


text \<open>The loop: one read gives what is after the watermark, the next one nothing.\<close>

lemma drain_loop_all:
  assumes S: "d_store D = S" and ok: "ready (3 * length win) (hub_of aid st)"
    and win: "sorted_wrt (<) (map fst win)" "list_all (\<lambda>p. raw_marshal (snd p) \<noteq> None) win"
    and daemon: "\<And>cs after. o_records (d_out D) (cs @ [CRecords dc after 0]) = Inr (filter (\<lambda>p. after < fst p) win)"
    and recs: "recs = filter (\<lambda>p. origin (a_hub (objs st aid)) < fst p) win"
  shows "\<exists>st' ops. drain_loop D aid dc st = Some (st', True) \<and> length ops \<le> 3 * length win \<and>
     hub_run S ops (hub_of aid st) = hub_of aid st' \<and> pulled S ops (hub_of aid st) = recs"
proof -
  have read: "ask D o_records (CRecords dc (origin (a_hub (objs s aid))) 0) s =
      (s\<lparr>calls := calls s @ [CRecords dc (origin (a_hub (objs s aid))) 0]\<rparr>,
       Inr (filter (\<lambda>p. origin (a_hub (objs s aid)) < fst p) win))" for s
    using daemon by (simp add: ask_def Let_def)
  define st1 where "st1 = st\<lparr>calls := calls st @ [CRecords dc (origin (a_hub (objs st aid))) 0]\<rparr>"
  have 1: "hub_of aid st1 = hub_of aid st" "objs st1 = objs st" by (simp_all add: st1_def hub_of_def)
  show ?thesis
  proof (cases "recs = []")
    case True
    then have "drain_loop D aid dc st = Some (st1, True)"
      by (subst drain_loop.simps) (simp add: read recs st1_def)
    then show ?thesis using True 1 by (intro exI [of _ st1] exI [of _ "[]"]) simp
  next
    case False
    have len: "length recs \<le> length win" by (simp add: recs)
    have ids: "sorted_wrt (<) (origin (a_hub (objs st1 aid)) # map fst recs)"
      using win(1) 1 by (auto simp: recs sorted_wrt_map intro: sorted_wrt_filter)
    have docs: "list_all (\<lambda>p. raw_marshal (snd p) \<noteq> None) recs" using win(2) by (auto simp: recs list_all_iff)
    have ok1: "ready (3 * length recs) (hub_of aid st1)" using ready_mono [OF ok] len 1 by simp
    obtain st2 ops where b: "drain_batch D aid recs st1 = (st2, True)" "length ops \<le> 3 * length recs"
        "hub_run S ops (hub_of aid st1) = hub_of aid st2" "pulled S ops (hub_of aid st1) = recs"
        "origin (a_hub (objs st2 aid)) = last (origin (a_hub (objs st1 aid)) # map fst recs)"
      using drain_batch_all [OF S ok1 ids docs] by blast
    define st3 where "st3 = st2\<lparr>calls := calls st2 @ [CRecords dc (origin (a_hub (objs st2 aid))) 0]\<rparr>"
    have max: "fst p \<le> origin (a_hub (objs st2 aid))" if p: "p \<in> set win" for p
    proof (cases "p \<in> set recs")
      case True
      then have "fst p \<in> set (map fst recs)" by simp
      moreover have "sorted (map fst recs)" using ids by (simp add: strict_sorted_imp_sorted)
      ultimately have "fst p \<le> last (map fst recs)" by (rule sorted_le_last)
      then show ?thesis using b(5) False by simp
    next
      case out: False
      have "origin (a_hub (objs st1 aid)) \<le> last (origin (a_hub (objs st1 aid)) # map fst recs)"
        using ids False last_in_set [of "map fst recs"] by (fastforce intro: less_imp_le)
      then show ?thesis using out p b(5) 1 by (auto simp: recs)
    qed
    then have "filter (\<lambda>p. origin (a_hub (objs st2 aid)) < fst p) win = []" by (auto simp: filter_empty_conv not_less)
    then have "drain_loop D aid dc st2 = Some (st3, True)"
      by (subst drain_loop.simps) (simp add: read st3_def)
    moreover have "drain_loop D aid dc st = drain_loop D aid dc st2"
      using False b(1) by (subst drain_loop.simps) (simp add: read recs [symmetric] st1_def [symmetric])
    moreover have "hub_of aid st3 = hub_of aid st2" by (simp add: st3_def hub_of_def)
    ultimately show ?thesis using b len 1 by (intro exI [of _ st3] exI [of _ ops]) simp
  qed
qed

end

end
