(* ===== verification/Daemon_Pi.thy ===== *)
theory Daemon_Pi
  imports Spool Json_Doc
begin

text \<open>
  The daemon's manager of the pi subprocess (\<open>daemon/pi.go\<close>): launch with the lazy respawn and
  its backoff, the relays of standard output and standard error into the spool, the exit
  accounting, the tracked queue with its drain notice, and the delivery of commands.

  The spool holds JSON texts (\<open>raw\<close>).  The operating system appears as arguments: whether a
  process could be launched, the clock, the result of \<open>cmd.Wait\<close>, whether a write to the
  standard input succeeded.  The lines written to the process are kept in \<open>p_input\<close>, each
  with the generation it went to.  A nil slice of texts is \<open>None\<close>.  \<open>ctext\<close> is the text that
  \<open>json.Compact\<close> gives for a document.
\<close>

section \<open>State\<close>

record pi =
  p_cmd :: "int option"
  p_running :: bool
  p_notices :: "raw spool"
  p_command :: "string list"
  p_sessionID :: string
  p_sessionDir :: string
  queuedSteering :: "string list option"
  queuedFollowUp :: "string list option"
  generation :: int
  lastStart :: int
  lastExitCode :: int
  lastExitUnexpected :: bool
  intentional :: bool
  restarts :: int
  backoff :: int
  rapidStreak :: int
  rapidExitWindow :: int
  backoffInitial :: int
  backoffMax :: int
  stableRunReset :: int
  p_input :: "(int \<times> json) list"

definition defaultRapidExitWindow :: int where "defaultRapidExitWindow = 5 * second"
definition defaultBackoffInitial :: int where "defaultBackoffInitial = second"
definition defaultBackoffMax :: int where "defaultBackoffMax = 30 * second"
definition defaultStableRunReset :: int where "defaultStableRunReset = 60 * second"

definition NewPi :: "string list \<Rightarrow> raw spool \<Rightarrow> string \<Rightarrow> string \<Rightarrow> pi" where
  "NewPi command notices sessionID sessionDir =
     \<lparr>p_cmd = None, p_running = False, p_notices = notices, p_command = command,
      p_sessionID = sessionID, p_sessionDir = sessionDir,
      queuedSteering = None, queuedFollowUp = None,
      generation = 0, lastStart = 0, lastExitCode = 0, lastExitUnexpected = False,
      intentional = False, restarts = 0, backoff = 0, rapidStreak = 0,
      rapidExitWindow = defaultRapidExitWindow, backoffInitial = defaultBackoffInitial,
      backoffMax = defaultBackoffMax, stableRunReset = defaultStableRunReset, p_input = []\<rparr>"

definition piFlags :: "string \<Rightarrow> string \<Rightarrow> string list" where
  "piFlags sessionID sessionDir =
     (if sessionID = [] then []
      else [''--session-dir'', if sessionDir = [] then ''/sandbox/kape/sessions'' else sessionDir,
            ''--session-id'', sessionID])"

definition piArgv :: "string list \<Rightarrow> string \<Rightarrow> string \<Rightarrow> string list" where
  "piArgv command sessionID sessionDir =
     (if command = [] then [] else command @ piFlags sessionID sessionDir)"

section \<open>Notices\<close>

text \<open>How a spool append of this call ends: the codec and the outcomes of the two writes.\<close>

record spool_io =
  io_enc :: "raw spool_entry \<Rightarrow> string"
  io_w :: write_outcome
  io_w' :: write_outcome

definition truncated_notice :: raw where
  "truncated_notice = RawDoc (JObj [(''type'', JStr ''spool_truncated'')])"

text \<open>Every caller logs a failed append and goes on.\<close>

definition notice_put :: "spool_io \<Rightarrow> raw \<Rightarrow> pi \<Rightarrow> pi" where
  "notice_put io d p =
     p\<lparr>p_notices := snd (spool_Append (io_enc io) truncated_notice (io_w io) (io_w' io) d (p_notices p))\<rparr>"

definition json_int :: "int \<Rightarrow> json" where
  "json_int n = JNum (of_int n)"

definition pi_restart_notice :: "pi \<Rightarrow> raw" where
  "pi_restart_notice p =
     RawDoc (JObj [(''backoff_ms'', json_int (backoff p div 1000000)),
                   (''exit_code'', json_int (lastExitCode p)),
                   (''restarts'', json_int (restarts p)),
                   (''type'', JStr ''pi_restart'')])"

definition pi_exit_notice :: "int \<Rightarrow> raw" where
  "pi_exit_notice code = RawDoc (JObj [(''exit_code'', json_int code), (''type'', JStr ''pi_exit'')])"

definition pi_stderr_notice :: "string \<Rightarrow> raw" where
  "pi_stderr_notice text = RawDoc (JObj [(''text'', JStr text), (''type'', JStr ''pi_stderr'')])"

definition json_texts :: "string list option \<Rightarrow> json" where
  "json_texts ts = (case ts of None \<Rightarrow> JNull | Some xs \<Rightarrow> JArr (map JStr xs))"

definition queue_drained_notice :: "string list option \<Rightarrow> string list option \<Rightarrow> raw" where
  "queue_drained_notice steer follow =
     RawDoc (JObj [(''follow_up'', json_texts follow), (''steering'', json_texts steer),
                   (''type'', JStr ''queue_drained'')])"

section \<open>Launch\<close>

datatype pi_error = NoExecutable | LaunchFailed | StdinUnavailable | StdinWrite | BadPayload

datatype start_state = AlreadyRunning | StartError pi_error | Hold int | LaunchNow "string list"

text \<open>\<open>Start\<close> up to the launch: \<open>self\<close> is the result of \<open>os.Executable\<close>.\<close>

definition Start_check :: "string option \<Rightarrow> pi \<Rightarrow> start_state" where
  "Start_check self p =
     (if p_running p then AlreadyRunning
      else
        let argv = piArgv (p_command p) (p_sessionID p) (p_sessionDir p) in
        if argv = [] \<and> self = None then StartError NoExecutable
        else if lastExitUnexpected p \<and> backoff p > 0 then Hold (backoff p)
        else LaunchNow (if argv = [] then [the self, ''fakepi''] @ piFlags (p_sessionID p) (p_sessionDir p)
                        else argv))"

text \<open>The rest of \<open>Start\<close>, after the hold if there was one.\<close>

definition Start_launch :: "spool_io \<Rightarrow> bool \<Rightarrow> int \<Rightarrow> pi \<Rightarrow> pi_error option \<times> pi" where
  "Start_launch io launched now p =
     (if p_running p then (None, p)
      else
        let respawn = lastExitUnexpected p;
            p1 = p\<lparr>lastExitUnexpected := False, intentional := False\<rparr>
        in if \<not> launched then (Some LaunchFailed, p1)
           else
             let p2 = p1\<lparr>restarts := (if generation p1 > 0 then restarts p1 + 1 else restarts p1),
                         generation := generation p1 + 1, lastStart := now,
                         p_cmd := Some (generation p1 + 1), p_running := True\<rparr>
             in (None, if generation p2 > 1 \<and> respawn then notice_put io (pi_restart_notice p2) p2 else p2))"

definition Start :: "string option \<Rightarrow> spool_io \<Rightarrow> bool \<Rightarrow> int \<Rightarrow> pi \<Rightarrow> pi_error option \<times> pi" where
  "Start self io launched now p =
     (case Start_check self p of
        AlreadyRunning \<Rightarrow> (None, p)
      | StartError e \<Rightarrow> (Some e, p)
      | Hold d \<Rightarrow> Start_launch io launched now p
      | LaunchNow argv \<Rightarrow> Start_launch io launched now p)"

section \<open>Exit\<close>

datatype wait_result = WaitOk | WaitExit int | WaitFailed

definition exit_code :: "wait_result \<Rightarrow> int" where
  "exit_code r = (case r of WaitOk \<Rightarrow> 0 | WaitExit c \<Rightarrow> c | WaitFailed \<Rightarrow> 1)"

text \<open>The delay for a streak: the shift wraps around in 64 bits.\<close>

definition rapid_backoff :: "int \<Rightarrow> int \<Rightarrow> int \<Rightarrow> int" where
  "rapid_backoff initial cap streak =
     (let d = wrap64 (initial * 2 ^ nat (streak - 1)) in if d > cap \<or> d \<le> 0 then cap else d)"

text \<open>\<open>awaitExit\<close> for the process of generation \<open>g\<close>: the part under the lock, and the part after
  it.\<close>

definition awaitExit_locked :: "int \<Rightarrow> wait_result \<Rightarrow> int \<Rightarrow> pi \<Rightarrow> pi" where
  "awaitExit_locked g r now p =
     (let p1 = p\<lparr>p_running := (if p_cmd p = Some g then False else p_running p),
                 lastExitCode := exit_code r\<rparr>
      in if intentional p1 then p1
         else
           let p2 = p1\<lparr>lastExitUnexpected := True\<rparr>;
               uptime = time_sub now (lastStart p2)
           in if uptime < rapidExitWindow p2 then
                p2\<lparr>rapidStreak := rapidStreak p2 + 1,
                   backoff := rapid_backoff (backoffInitial p2) (backoffMax p2) (rapidStreak p2 + 1)\<rparr>
              else if uptime \<ge> stableRunReset p2 then p2\<lparr>rapidStreak := 0, backoff := 0\<rparr>
              else p2)"

definition awaitExit_tail :: "spool_io \<Rightarrow> wait_result \<Rightarrow> pi \<Rightarrow> pi" where
  "awaitExit_tail io r p =
     (notice_put io (pi_exit_notice (exit_code r)) p)\<lparr>queuedSteering := None, queuedFollowUp := None\<rparr>"

definition Kill :: "pi \<Rightarrow> pi" where
  "Kill p = p\<lparr>intentional := True\<rparr>"

datatype os_signal = SIGTERM | SIGKILL

text \<open>\<open>Shutdown\<close>: the signals it sends; \<open>exited\<close> tells whether pi was gone within the grace.\<close>

definition Shutdown :: "bool \<Rightarrow> pi \<Rightarrow> os_signal list \<times> pi" where
  "Shutdown exited p =
     (case p_cmd p of
        None \<Rightarrow> ([], p\<lparr>intentional := True\<rparr>)
      | Some g \<Rightarrow> (SIGTERM # (if exited then [] else [SIGKILL]), p\<lparr>intentional := True\<rparr>))"

section \<open>Output relays\<close>

fun queueTexts :: "(json \<Rightarrow> string) \<Rightarrow> json list \<Rightarrow> string list" where
  "queueTexts ctext [] = []"
| "queueTexts ctext (e # es) =
     (case e of JStr s \<Rightarrow> s | JNull \<Rightarrow> [] | _ \<Rightarrow> ctext e) # queueTexts ctext es"

text \<open>A member of type \<open>[]json.RawMessage\<close>.\<close>

fun raws_member :: "string \<Rightarrow> (string \<times> json) list \<Rightarrow> json list \<Rightarrow> json list option" where
  "raws_member k [] acc = Some acc"
| "raws_member k ((k', v) # ms) acc =
     (if to_lower k' = to_lower k then
        (case v of
           JArr vs \<Rightarrow> raws_member k ms vs
         | JNull \<Rightarrow> raws_member k ms []
         | _ \<Rightarrow> None)
      else raws_member k ms acc)"

text \<open>\<open>mentions\<close> is the test that the text contains the quoted word \<open>queue_update\<close>.\<close>

definition trackQueueUpdate :: "(json \<Rightarrow> string) \<Rightarrow> (json \<Rightarrow> bool) \<Rightarrow> json \<Rightarrow> pi \<Rightarrow> pi" where
  "trackQueueUpdate ctext mentions line p =
     (if \<not> mentions line then p
      else case line of
        JObj ms \<Rightarrow>
          (case (str_member ''type'' ms [], raws_member ''steering'' ms [], raws_member ''followUp'' ms []) of
             (Some t, Some steer, Some follow) \<Rightarrow>
               if t \<noteq> ''queue_update'' then p
               else p\<lparr>queuedSteering := Some (queueTexts ctext steer),
                      queuedFollowUp := Some (queueTexts ctext follow)\<rparr>
           | _ \<Rightarrow> p)
      | _ \<Rightarrow> p)"

definition spoolStdoutLine :: "(json \<Rightarrow> string) \<Rightarrow> (json \<Rightarrow> bool) \<Rightarrow> spool_io \<Rightarrow> raw \<Rightarrow> pi \<Rightarrow> pi" where
  "spoolStdoutLine ctext mentions io line p =
     (case line of
        RawBad s \<Rightarrow> if s = [] then p else notice_put io (RawDoc (JStr s)) p
      | RawDoc d \<Rightarrow> notice_put io (RawDoc d) (trackQueueUpdate ctext mentions d p))"

definition relayStdout ::
    "(json \<Rightarrow> string) \<Rightarrow> (json \<Rightarrow> bool) \<Rightarrow> spool_io \<Rightarrow> raw list \<Rightarrow> pi \<Rightarrow> pi" where
  "relayStdout ctext mentions io lines p = foldl (\<lambda>p l. spoolStdoutLine ctext mentions io l p) p lines"

definition stderrNotice :: "spool_io \<Rightarrow> string \<Rightarrow> pi \<Rightarrow> pi" where
  "stderrNotice io text p = (if text = [] then p else notice_put io (pi_stderr_notice text) p)"

definition maxToken :: nat where "maxToken = 1048576"

text \<open>The scanner stops at the first line that does not fit its buffer.\<close>

fun relayStderr :: "spool_io \<Rightarrow> string list \<Rightarrow> pi \<Rightarrow> pi" where
  "relayStderr io [] p = p"
| "relayStderr io (l # ls) p = (if length l \<ge> maxToken then p else relayStderr io ls (stderrNotice io l p))"

section \<open>Commands\<close>

definition CommandPrompt :: string where "CommandPrompt = ''prompt''"
definition CommandSteer :: string where "CommandSteer = ''steer''"
definition CommandAbort :: string where "CommandAbort = ''abort''"
definition CommandClearQueue :: string where "CommandClearQueue = ''clear_queue''"

record command =
  c_ID :: string
  c_Type :: string
  c_Payload :: raw
  c_Status :: string

definition drainNotice :: "spool_io \<Rightarrow> pi \<Rightarrow> pi" where
  "drainNotice io p =
     (let steer = queuedSteering p; follow = queuedFollowUp p;
          p1 = p\<lparr>queuedSteering := None, queuedFollowUp := None\<rparr>
      in if steer \<in> {None, Some []} \<and> follow \<in> {None, Some []} then p1
         else notice_put io (queue_drained_notice steer follow) p1)"

definition steerText :: "(json \<Rightarrow> string) \<Rightarrow> raw \<Rightarrow> string" where
  "steerText ctext payload =
     (case unmarshal_str ''message'' payload of
        Some m \<Rightarrow> if m \<noteq> [] then m else (case payload of RawDoc d \<Rightarrow> ctext d | RawBad s \<Rightarrow> s)
      | None \<Rightarrow> (case payload of RawDoc d \<Rightarrow> ctext d | RawBad s \<Rightarrow> s))"

definition trackPendingSteer :: "(json \<Rightarrow> string) \<Rightarrow> raw \<Rightarrow> pi \<Rightarrow> pi" where
  "trackPendingSteer ctext payload p =
     (let text = steerText ctext payload in
      if text = [] then p
      else p\<lparr>queuedSteering := Some ((case queuedSteering p of None \<Rightarrow> [] | Some ts \<Rightarrow> ts) @ [text])\<rparr>)"

definition write_line :: "json \<Rightarrow> pi \<Rightarrow> pi" where
  "write_line l p = p\<lparr>p_input := p_input p @ [(generation p, l)]\<rparr>"

definition clear_line :: "command \<Rightarrow> json" where
  "clear_line c = JObj [(''command_id'', JStr (c_ID c)), (''type'', JStr CommandClearQueue)]"

definition abort_line :: json where
  "abort_line = JObj [(''type'', JStr ''abort'')]"

definition command_line :: "command \<Rightarrow> json option" where
  "command_line c =
     map_option (\<lambda>payload. JObj [(''command_id'', JStr (c_ID c)), (''payload'', payload), (''type'', JStr (c_Type c))])
       (raw_marshal (c_Payload c))"

text \<open>\<open>SendCommand\<close> after \<open>Start\<close>; \<open>ok1\<close> and \<open>ok2\<close> tell whether the first and the second write
  to the standard input succeed.\<close>

definition deliver :: "(json \<Rightarrow> string) \<Rightarrow> spool_io \<Rightarrow> bool \<Rightarrow> bool \<Rightarrow> command \<Rightarrow> pi \<Rightarrow> pi_error option \<times> pi" where
  "deliver ctext io ok1 ok2 c p =
     (if c_Type c = CommandAbort then
        (if p_cmd p = None then (Some StdinUnavailable, p)
         else if \<not> ok1 then (Some StdinWrite, p)
         else
           let p1 = drainNotice io (write_line (clear_line c) p) in
           if \<not> ok2 then (Some StdinWrite, p1) else (None, write_line abort_line p1))
      else case command_line c of
        None \<Rightarrow> (Some BadPayload, p)
      | Some line \<Rightarrow>
          if p_cmd p = None then (Some StdinUnavailable, p)
          else
            let p1 = (if c_Type c = CommandSteer then trackPendingSteer ctext (c_Payload c) p else p) in
            if \<not> ok1 then (Some StdinWrite, p1) else (None, write_line line p1))"

definition SendCommand ::
    "(json \<Rightarrow> string) \<Rightarrow> string option \<Rightarrow> spool_io \<Rightarrow> bool \<Rightarrow> int \<Rightarrow> bool \<Rightarrow> bool \<Rightarrow> command \<Rightarrow> pi \<Rightarrow>
     pi_error option \<times> pi" where
  "SendCommand ctext self io launched now ok1 ok2 c p =
     (case Start self io launched now p of
        (Some e, p1) \<Rightarrow> (Some e, p1)
      | (None, p1) \<Rightarrow> deliver ctext io ok1 ok2 c p1)"


section \<open>Backoff\<close>

lemma wrap64_dvd:
  assumes "n \<le> 63" "2 ^ n dvd x"
  shows "2 ^ n dvd wrap64 x"
proof -
  have "(2 :: int) ^ n dvd 2 ^ 63" "(2 :: int) ^ n dvd 2 ^ 64" by (rule le_imp_power_dvd, use assms(1) in simp)+
  then show ?thesis unfolding wrap64_def using assms(2) by (intro dvd_diff dvd_mod dvd_add)
qed

text \<open>The shift overflows from a streak of 35 on; the guard for non-positive values and the cap
  together still give the capped exponential.\<close>

lemma rapid_backoff_default: "rapid_backoff second (30 * second) (int k + 1) = min (30 * second) (second * 2 ^ k)"
proof -
  let ?x = "second * 2 ^ k :: int"
  have n: "nat (int k + 1 - 1) = k" by simp
  have id: "wrap64 ?x = ?x" if "(2 :: int) ^ k \<le> 2 ^ 33"
  proof (rule wrap64_id)
    have "(0 :: int) \<le> ?x" by (simp add: second_def)
    then show "min_i64 \<le> ?x" by (simp add: min_i64_def)
    show "?x \<le> max_i64" using that by (simp add: max_i64_def second_def)
  qed
  consider "k \<le> 4" | "5 \<le> k" "k \<le> 33" | "34 \<le> k" by linarith
  then show ?thesis
  proof cases
    case 1
    then have p: "(2 :: int) ^ k \<le> 2 ^ 4" by (intro power_increasing) auto
    with id p show ?thesis by (auto simp: rapid_backoff_def n second_def)
  next
    case 2
    then have p: "(2 :: int) ^ 5 \<le> 2 ^ k" "(2 :: int) ^ k \<le> 2 ^ 33" by (intro power_increasing; simp)+
    with id p show ?thesis by (auto simp: rapid_backoff_def n second_def)
  next
    case 3
    have "(2 :: int) ^ 43 dvd 2 ^ (k + 9)" using 3 by (intro le_imp_power_dvd) simp
    also have "2 ^ (k + 9) dvd ?x" by (simp add: second_def power_add)
    finally have "2 ^ 43 dvd wrap64 ?x" by (intro wrap64_dvd) auto
    then have big: "wrap64 ?x \<le> 0 \<or> 2 ^ 43 \<le> wrap64 ?x" using zdvd_imp_le by force
    have "(2 :: int) ^ 5 \<le> 2 ^ k" using 3 by (intro power_increasing) auto
    with big show ?thesis by (auto simp: rapid_backoff_def n second_def)
  qed
qed

definition default_policy :: "pi \<Rightarrow> bool" where
  "default_policy p \<longleftrightarrow> rapidExitWindow p = 5 * second \<and> backoffInitial p = second \<and>
     backoffMax p = 30 * second \<and> stableRunReset p = 60 * second"

text \<open>C30: the respawn backoff.  With the default policy, an exit the daemon did not ask for holds
  the next respawn for one second after the first rapid exit, doubling with every further
  rapid exit up to thirty seconds for any length of the streak; a run of at least a minute
  resets the guard, and a run in between leaves it as it was.\<close>

theorem pi_backoff_law:
  assumes "default_policy p" "\<not> intentional p" "rapidStreak p = int k" "p_cmd p = Some g"
    and p': "p' = awaitExit_locked g r now p"
  shows "\<not> p_running p' \<and> lastExitUnexpected p' \<and> lastExitCode p' = exit_code r \<and>
    (if time_sub now (lastStart p) < 5 * second
     then backoff p' = min (30 * second) (second * 2 ^ k) \<and> rapidStreak p' = int (Suc k) \<and>
       Start_check (Some self) p' = Hold (backoff p')
     else if time_sub now (lastStart p) \<ge> 60 * second
     then backoff p' = 0 \<and> rapidStreak p' = 0
     else backoff p' = backoff p \<and> rapidStreak p' = int k)"
proof -
  have "0 < min (30 * second) (second * 2 ^ k)" by (simp add: second_def)
  with rapid_backoff_default [of k] assms show ?thesis
    by (auto simp: awaitExit_locked_def default_policy_def Start_check_def Let_def add.commute)
qed

section \<open>Interleavings\<close>

text \<open>The calls of the daemon's goroutines, in the order in which they take the lock.\<close>

datatype pi_op =
    PStart "string option" spool_io bool int
  | PExit wait_result int
  | PExitTail spool_io wait_result
  | PStdout spool_io "raw list"
  | PStderr spool_io "string list"
  | PSend "string option" spool_io bool int bool bool command
  | PKill
  | PShutdown bool

text \<open>An exit happens to the live process only.\<close>

fun pi_step :: "(json \<Rightarrow> string) \<Rightarrow> (json \<Rightarrow> bool) \<Rightarrow> pi_op \<Rightarrow> pi \<Rightarrow> pi" where
  "pi_step ctext mentions (PStart self io launched now) p = snd (Start self io launched now p)"
| "pi_step ctext mentions (PExit r now) p =
     (if p_running p then awaitExit_locked (generation p) r now p else p)"
| "pi_step ctext mentions (PExitTail io r) p = awaitExit_tail io r p"
| "pi_step ctext mentions (PStdout io ls) p = relayStdout ctext mentions io ls p"
| "pi_step ctext mentions (PStderr io ls) p = relayStderr io ls p"
| "pi_step ctext mentions (PSend self io launched now ok1 ok2 c) p =
     snd (SendCommand ctext self io launched now ok1 ok2 c p)"
| "pi_step ctext mentions PKill p = Kill p"
| "pi_step ctext mentions (PShutdown exited) p = snd (Shutdown exited p)"

definition pi_run :: "(json \<Rightarrow> string) \<Rightarrow> (json \<Rightarrow> bool) \<Rightarrow> pi_op list \<Rightarrow> pi \<Rightarrow> pi" where
  "pi_run ctext mentions ops p = foldl (\<lambda>p op. pi_step ctext mentions op p) p ops"

definition pi_inv :: "pi \<Rightarrow> bool" where
  "pi_inv p \<longleftrightarrow> default_policy p \<and> 0 \<le> backoff p \<and> backoff p \<le> 30 * second \<and> 0 \<le> rapidStreak p \<and>
     0 \<le> generation p \<and> restarts p = max 0 (generation p - 1) \<and>
     p_cmd p = (if generation p = 0 then None else Some (generation p)) \<and>
     (p_running p \<longrightarrow> generation p \<noteq> 0) \<and> (p_running p \<longrightarrow> \<not> lastExitUnexpected p) \<and>
     (backoff p = 0 \<or> 0 < rapidStreak p)"

text \<open>Operations that touch only the spool, the queue tracker and the written lines.\<close>

definition same_core :: "pi \<Rightarrow> pi \<Rightarrow> bool" where
  "same_core p q \<longleftrightarrow>
     q = p\<lparr>p_notices := p_notices q, queuedSteering := queuedSteering q, queuedFollowUp := queuedFollowUp q,
           p_input := p_input q\<rparr>"

lemma same_core_inv:
  assumes "same_core p q" "pi_inv p"
  shows "pi_inv q"
proof -
  have "pi_inv (p\<lparr>p_notices := n, queuedSteering := s, queuedFollowUp := f, p_input := i\<rparr>)" for n s f i
    using assms(2) by (simp add: pi_inv_def default_policy_def)
  with assms(1) show ?thesis unfolding same_core_def by metis
qed

lemma same_core_refl [simp]: "same_core p p"
  by (simp add: same_core_def)

lemma same_core_trans:
  assumes "same_core p q" "same_core q r"
  shows "same_core p r"
proof -
  have "r = q\<lparr>p_notices := p_notices r, queuedSteering := queuedSteering r, queuedFollowUp := queuedFollowUp r,
      p_input := p_input r\<rparr>" using assms(2) by (simp add: same_core_def)
  also have "q = p\<lparr>p_notices := p_notices q, queuedSteering := queuedSteering q, queuedFollowUp := queuedFollowUp q,
      p_input := p_input q\<rparr>" using assms(1) by (simp add: same_core_def)
  finally show ?thesis by (simp add: same_core_def)
qed

lemma same_core_steps:
  "same_core p (notice_put io d p)" "same_core p (trackQueueUpdate ctext mentions l p)"
  "same_core p (write_line j p)" "same_core p (trackPendingSteer ctext d p)"
  "same_core p (p\<lparr>queuedSteering := s, queuedFollowUp := f\<rparr>)"
  by (auto simp: same_core_def notice_put_def trackQueueUpdate_def write_line_def trackPendingSteer_def Let_def
      split: json.split option.split)


lemmas same_core_ext = same_core_steps [THEN same_core_trans [rotated]]

lemma relayStdout_core: "same_core p (relayStdout ctext mentions io ls p)"
  unfolding relayStdout_def
proof (rule foldl_invariant)
  show "same_core p q \<Longrightarrow> same_core p (spoolStdoutLine ctext mentions io l q)" for q l
    by (auto simp: spoolStdoutLine_def split: raw.split intro!: same_core_ext)
qed simp

lemma relayStderr_core: "same_core p (relayStderr io ls p)"
proof (induction ls arbitrary: p)
  case (Cons l ls)
  have "same_core p (stderrNotice io l p)" by (simp add: stderrNotice_def same_core_steps)
  with Cons show ?case by (auto intro: same_core_trans)
qed simp

lemma drainNotice_core: "same_core p (drainNotice io p)"
  by (auto simp: drainNotice_def Let_def intro!: same_core_ext)

lemma deliver_core: "same_core p (snd (deliver ctext io ok1 ok2 c p))"
  by (auto simp: deliver_def Let_def split: option.split
      intro!: same_core_ext drainNotice_core [THEN same_core_trans [rotated]])

lemma Start_inv: "pi_inv p \<Longrightarrow> pi_inv (snd (Start self io launched now p))"
proof -
  assume p: "pi_inv p"
  have "pi_inv (snd (Start_launch io launched now p))"
  proof (cases "p_running p \<or> \<not> launched")
    case True
    with p show ?thesis by (auto simp: Start_launch_def Let_def pi_inv_def default_policy_def)
  next
    case False
    let ?p2 = "p\<lparr>lastExitUnexpected := False, intentional := False,
      restarts := (if generation p > 0 then restarts p + 1 else restarts p),
      generation := generation p + 1, lastStart := now, p_cmd := Some (generation p + 1), p_running := True\<rparr>"
    have "pi_inv ?p2" using p by (auto simp: pi_inv_def default_policy_def)
    moreover from this have "pi_inv (notice_put io d ?p2)" for d
      by (rule same_core_inv [OF same_core_steps(1)])
    ultimately show ?thesis using False by (auto simp: Start_launch_def Let_def split: if_splits)
  qed
  with p show ?thesis by (auto simp: Start_def split: start_state.split)
qed

lemma exit_inv: "pi_inv p \<Longrightarrow> p_running p \<Longrightarrow> pi_inv (awaitExit_locked (generation p) r now p)"
proof -
  assume p: "pi_inv p" "p_running p"
  obtain k where k: "rapidStreak p = int k" using p by (auto simp: pi_inv_def intro: nonneg_int_cases)
  have "rapid_backoff (backoffInitial p) (backoffMax p) (rapidStreak p + 1) = min (30 * second) (second * 2 ^ k)"
    using rapid_backoff_default [of k] p by (simp add: pi_inv_def default_policy_def k)
  moreover have "0 \<le> min (30 * second) (second * 2 ^ k)" by (simp add: second_def)
  ultimately show ?thesis
    using p by (auto simp: awaitExit_locked_def pi_inv_def default_policy_def Let_def)
qed

lemma pi_step_inv: "pi_inv p \<Longrightarrow> pi_inv (pi_step ctext mentions op p)"
proof (cases op)
  case (PSend self io launched now ok1 ok2 c)
  assume p: "pi_inv p"
  obtain e q where q: "Start self io launched now p = (e, q)" by fastforce
  with Start_inv [OF p] have "pi_inv q" by (metis snd_conv)
  then show ?thesis
    using same_core_inv [OF deliver_core] by (simp add: PSend SendCommand_def q split: option.split)
next
  case (PExitTail io r)
  assume p: "pi_inv p"
  have "same_core p (awaitExit_tail io r p)"
    unfolding awaitExit_tail_def by (rule same_core_trans [OF same_core_steps(1) same_core_steps(5)])
  with p show ?thesis by (simp add: PExitTail same_core_inv)
next
  case (PShutdown exited)
  assume "pi_inv p"
  then show ?thesis by (auto simp: PShutdown Shutdown_def pi_inv_def default_policy_def split: option.split)
next
  case PKill
  assume "pi_inv p"
  then show ?thesis by (simp add: PKill Kill_def pi_inv_def default_policy_def)
qed (simp_all add: Start_inv exit_inv same_core_inv [OF relayStdout_core] same_core_inv [OF relayStderr_core])

text \<open>C29: the daemon never gives up and never runs away.  In every interleaving of starts, exits,
  relayed output, commands and kills, with every operating-system failure, the backoff stays
  between zero and thirty seconds, the restart counter is the number of generations after the
  first, a running process is the latest generation, and a dead one can be launched again.\<close>

theorem pi_lifecycle_invariant:
  assumes p: "p = pi_run ctext mentions ops (NewPi argv notices sid dir)"
  shows "0 \<le> backoff p \<and> backoff p \<le> 30 * second \<and> restarts p = max 0 (generation p - 1) \<and>
    (p_running p \<longrightarrow> p_cmd p = Some (generation p)) \<and>
    fst (Start (Some self) io True now p) = None \<and> p_running (snd (Start (Some self) io True now p))"
proof -
  have "pi_inv (NewPi argv notices sid dir)"
    by (simp add: NewPi_def pi_inv_def default_policy_def second_def defaultRapidExitWindow_def
        defaultBackoffInitial_def defaultBackoffMax_def defaultStableRunReset_def)
  then have "pi_inv p" unfolding p pi_run_def by (rule foldl_invariant) (rule pi_step_inv)
  then show ?thesis
    by (auto simp: pi_inv_def Start_def Start_check_def Start_launch_def notice_put_def Let_def
        split: start_state.split)
qed

lemma Start_dead: "\<not> p_running p \<Longrightarrow> Start (Some self) io launched now p = Start_launch io launched now p"
  by (simp add: Start_def Start_check_def Let_def)

section \<open>Abort\<close>

text \<open>An abort empties pi's queue before it aborts, and says so.  When both writes succeed, pi
  receives exactly \<open>clear_queue\<close> and then \<open>abort\<close>, the tracked texts are spooled as one
  \<open>queue_drained\<close> notice unless there were none, and the tracker is empty; when the first
  write fails, nothing changes: no notice is spooled and the texts stay tracked.\<close>

theorem abort_clears_then_aborts:
  assumes "c_Type c = CommandAbort" "p_cmd p = Some g"
  shows "deliver ctext io False ok2 c p = (Some StdinWrite, p) \<and>
    (\<exists>p'. deliver ctext io True True c p = (None, p') \<and>
      p_input p' = p_input p @ [(generation p, clear_line c), (generation p, abort_line)] \<and>
      queuedSteering p' = None \<and> queuedFollowUp p' = None \<and>
      p_notices p' =
        (if queuedSteering p \<in> {None, Some []} \<and> queuedFollowUp p \<in> {None, Some []} then p_notices p
         else snd (spool_Append (io_enc io) truncated_notice (io_w io) (io_w' io)
                (queue_drained_notice (queuedSteering p) (queuedFollowUp p)) (p_notices p))))"
  using assms by (simp add: deliver_def drainNotice_def write_line_def notice_put_def Let_def)

text \<open>C33: a late exit forgets a queued steer.  Pi dies; before its waiter has spooled the exit
  notice a steer respawns it and is written to the new process; then the waiter finishes.  A
  following abort writes \<open>clear_queue\<close> and \<open>abort\<close> to the new process but spools no drain
  notice, although the steer's text was queued there.\<close>

theorem late_exit_forgets_steer:
  assumes run: "p_running p" "p_cmd p = Some (generation p)" "\<not> intentional p"
    and steer: "c_Type c = CommandSteer" "c_Payload c = RawDoc (JObj [(''message'', JStr t)])" "t \<noteq> []"
    and abort: "c_Type a = CommandAbort"
    and p1: "p1 = awaitExit_locked (generation p) r now p"
    and p2: "SendCommand ctext (Some self) io True now' True True c p1 = (None, p2)"
    and p3: "p3 = awaitExit_tail io r p2"
    and p4: "deliver ctext io True True a p3 = (None, p4)"
  shows "(\<exists>ts. queuedSteering p2 = Some (ts @ [t])) \<and> queuedSteering p3 = None \<and>
    p_running p3 \<and> generation p3 = generation p + 1 \<and> p_notices p4 = p_notices p3 \<and>
    (generation p3, JObj [(''command_id'', JStr (c_ID c)), (''payload'', JObj [(''message'', JStr t)]), (''type'', JStr ''steer'')])
      \<in> set (p_input p4)"
proof -
  have body: "steerText ctext (c_Payload c) = t"
    using steer by (simp add: steerText_def unmarshal_str_def)
  have p1r: "\<not> p_running p1" "generation p1 = generation p" "p_cmd p1 \<noteq> None"
    using run by (auto simp: p1 awaitExit_locked_def Let_def)
  obtain q where q: "Start (Some self) io True now' p1 = (None, q)" "p_running q" "generation q = generation p + 1"
      "p_cmd q = Some (generation p + 1)"
    using p1r by (simp add: Start_dead Start_launch_def notice_put_def Let_def)
  have "p2 = write_line (JObj [(''command_id'', JStr (c_ID c)), (''payload'', JObj [(''message'', JStr t)]), (''type'', JStr ''steer'')])
      (trackPendingSteer ctext (c_Payload c) q)"
    using p2 q steer by (simp add: SendCommand_def deliver_def command_line_def raw_marshal_def CommandSteer_def CommandAbort_def)
  then have two: "queuedSteering p2 = Some ((case queuedSteering q of None \<Rightarrow> [] | Some ts \<Rightarrow> ts) @ [t])"
    "p_running p2" "generation p2 = generation p + 1" "p_cmd p2 = Some (generation p + 1)"
    "(generation p + 1, JObj [(''command_id'', JStr (c_ID c)), (''payload'', JObj [(''message'', JStr t)]), (''type'', JStr ''steer'')])
      \<in> set (p_input p2)"
    using q steer(3) by (simp_all add: write_line_def trackPendingSteer_def body Let_def)
  then have three: "queuedSteering p3 = None" "queuedFollowUp p3 = None" "p_running p3" "generation p3 = generation p + 1"
    "p_cmd p3 = Some (generation p + 1)" "p_input p3 = p_input p2"
    by (simp_all add: p3 awaitExit_tail_def notice_put_def)
  from abort three p4 have "p_notices p4 = p_notices p3 \<and> set (p_input p3) \<subseteq> set (p_input p4)"
    by (auto simp: deliver_def drainNotice_def write_line_def Let_def)
  with two three show ?thesis by auto
qed

text \<open>A failed launch forgets the crash.  After an unexpected exit with a backoff pending, a
  start that cannot launch the process clears the record of the exit: the next start is not
  held back and, when it succeeds, spools no restart notice.\<close>

lemma failed_launch_forgets_crash:
  assumes "\<not> p_running p" "lastExitUnexpected p" "backoff p > 0"
    and "Start (Some self) io False now p = (e, p1)" "Start (Some self) io True now' p1 = (e', p2)"
  shows "Start_check (Some self) p = Hold (backoff p) \<and> e = Some LaunchFailed \<and>
    (\<exists>argv. Start_check (Some self) p1 = LaunchNow argv) \<and> e' = None \<and> p_running p2 \<and> p_notices p2 = p_notices p"
  using assms
  by (auto simp: Start_def Start_check_def Start_launch_def Let_def split: start_state.splits)

section \<open>Witnesses\<close>

definition demo_io :: spool_io where
  "demo_io = \<lparr>io_enc = (\<lambda>e. ''r''), io_w = Written, io_w' = Written\<rparr>"

definition demo_pi :: pi where
  "demo_pi = (NewPi [''pi''] (fresh_spool 10) [] [])\<lparr>p_cmd := Some 1, p_running := True, generation := 1, rapidStreak := 3\<rparr>"

definition demo_ctext :: "json \<Rightarrow> string" where "demo_ctext d = ''doc''"

definition demo_command :: "string \<Rightarrow> command" where
  "demo_command t = \<lparr>c_ID = ''c-1'', c_Type = t, c_Payload = RawDoc (JObj [(''message'', JStr ''stop'')]), c_Status = []\<rparr>"

lemmas pi_defaults = defaultRapidExitWindow_def defaultBackoffInitial_def defaultBackoffMax_def defaultStableRunReset_def

theorem pi_backoff_law_witness:
  "backoff (awaitExit_locked 1 (WaitExit 2) second demo_pi) = 8 * second \<and>
   Start_check (Some ''/daemon'') (awaitExit_locked 1 (WaitExit 2) second demo_pi) = Hold (8 * second)"
  using pi_backoff_law [of demo_pi 3 1 _ "WaitExit 2" second "''/daemon''"]
  by (simp add: demo_pi_def NewPi_def default_policy_def pi_defaults time_sub_def second_def min_i64_def max_i64_def)

definition demo_pi_ops :: "pi_op list" where
  "demo_pi_ops = [PStart None demo_io True 0, PExit (WaitExit 1) 5, PStart None demo_io False 6, PStart None demo_io True 7]"

definition demo_pi_end :: pi where
  "demo_pi_end = pi_run demo_ctext (\<lambda>d. False) demo_pi_ops (NewPi [''pi''] (fresh_spool 10) [] [])"

theorem pi_lifecycle_invariant_witness:
  "restarts demo_pi_end = max 0 (generation demo_pi_end - 1) \<and> backoff demo_pi_end \<le> 30 * second \<and>
   p_running (snd (Start (Some ''/daemon'') demo_io True 8 demo_pi_end))"
  using pi_lifecycle_invariant [OF demo_pi_end_def, of "''/daemon''" demo_io 8] by simp

theorem abort_clears_then_aborts_witness:
  "deliver demo_ctext demo_io False True (demo_command CommandAbort) demo_pi = (Some StdinWrite, demo_pi) \<and>
   (\<exists>p'. deliver demo_ctext demo_io True True (demo_command CommandAbort) demo_pi = (None, p') \<and>
      p_input p' = [(1, clear_line (demo_command CommandAbort)), (1, abort_line)])"
  using abort_clears_then_aborts [of "demo_command CommandAbort" demo_pi 1 demo_ctext demo_io True]
  by (auto simp: demo_command_def demo_pi_def NewPi_def)

theorem late_exit_forgets_steer_witness:
  "\<exists>p2 p4. SendCommand demo_ctext (Some ''/daemon'') demo_io True 9 True True (demo_command CommandSteer)
       (awaitExit_locked 1 WaitFailed 8 demo_pi) = (None, p2) \<and>
     deliver demo_ctext demo_io True True (demo_command CommandAbort) (awaitExit_tail demo_io WaitFailed p2) = (None, p4) \<and>
     p_notices p4 = p_notices (awaitExit_tail demo_io WaitFailed p2)"
proof -
  let ?p1 = "awaitExit_locked 1 WaitFailed 8 demo_pi"
  have run: "p_running demo_pi" "p_cmd demo_pi = Some (generation demo_pi)" "\<not> intentional demo_pi" "generation demo_pi = 1"
    by (simp_all add: demo_pi_def NewPi_def)
  have "\<not> p_running ?p1" by (simp add: awaitExit_locked_def demo_pi_def NewPi_def Let_def)
  then obtain q where q: "Start (Some ''/daemon'') demo_io True 9 ?p1 = (None, q)" "p_cmd q \<noteq> None"
    by (simp add: Start_dead Start_launch_def notice_put_def Let_def)
  have l: "command_line (demo_command CommandSteer) \<noteq> None" "c_Type (demo_command CommandSteer) \<noteq> CommandAbort"
    by (simp_all add: command_line_def raw_marshal_def demo_command_def CommandSteer_def CommandAbort_def)
  obtain p2 where p2: "SendCommand demo_ctext (Some ''/daemon'') demo_io True 9 True True (demo_command CommandSteer) ?p1 = (None, p2)"
    "p_cmd p2 \<noteq> None"
    using q l by (auto simp: SendCommand_def deliver_def write_line_def trackPendingSteer_def Let_def)
  let ?p3 = "awaitExit_tail demo_io WaitFailed p2"
  have "p_cmd ?p3 \<noteq> None" using p2(2) by (simp add: awaitExit_tail_def notice_put_def)
  then obtain p4 where p4: "deliver demo_ctext demo_io True True (demo_command CommandAbort) ?p3 = (None, p4)"
    by (simp add: deliver_def demo_command_def Let_def)
  have c: "c_Type (demo_command CommandSteer) = CommandSteer" "c_Type (demo_command CommandAbort) = CommandAbort"
    "c_Payload (demo_command CommandSteer) = RawDoc (JObj [(''message'', JStr ''stop'')])" "''stop'' \<noteq> []"
    by (simp_all add: demo_command_def)
  from late_exit_forgets_steer [OF run(1,2,3) c(1,3,4,2) _ p2(1) refl p4] run(4) p2(1) p4 show ?thesis by auto
qed

lemma failed_launch_forgets_crash_witness:
  "\<exists>p1 p2. Start (Some ''/daemon'') demo_io False 9 (awaitExit_locked 1 WaitOk 8 demo_pi) = (Some LaunchFailed, p1) \<and>
    Start (Some ''/daemon'') demo_io True 10 p1 = (None, p2) \<and> p_notices p2 = p_notices (awaitExit_locked 1 WaitOk 8 demo_pi)"
proof -
  let ?p = "awaitExit_locked 1 WaitOk 8 demo_pi"
  have dead: "\<not> p_running ?p" "lastExitUnexpected ?p" "backoff ?p > 0"
    by (simp_all add: awaitExit_locked_def demo_pi_def NewPi_def Let_def time_sub_def rapid_backoff_def wrap64_def
        pi_defaults second_def min_i64_def max_i64_def)
  obtain e p1 where p1: "Start (Some ''/daemon'') demo_io False 9 ?p = (e, p1)" by fastforce
  obtain e' p2 where p2: "Start (Some ''/daemon'') demo_io True 10 p1 = (e', p2)" by fastforce
  from failed_launch_forgets_crash [OF dead p1 p2] p1 p2 show ?thesis by auto
qed

end
