(* ===== verification/Daemon_Http.thy ===== *)
theory Daemon_Http
  imports Daemon_Pi
begin

text \<open>
  The daemon's HTTP surface (\<open>daemon/http.go\<close>): the in-memory command queue, the five routes
  and the bearer-token check in front of them; and the built-in scriptable pi of
  \<open>daemon/pi.go\<close>, which answers the delivered lines.

  A request is its method, path, query values, \<open>Authorization\<close> header and body text; a reply is
  its status code with what the body carries.  \<open>ParseDuration\<close> is \<open>time.ParseDuration\<close> in
  nanoseconds.
\<close>

section \<open>The command queue\<close>

datatype request_error = RequestError string

definition commandTypes :: "string set" where
  "commandTypes = {CommandPrompt, CommandSteer, CommandAbort, CommandClearQueue}"

type_synonym command_queue = "string \<rightharpoonup> command"

definition Accept :: "command \<Rightarrow> command_queue \<Rightarrow> request_error option \<times> command_queue" where
  "Accept c q =
     (if c_ID c = [] then (Some (RequestError ''command_id''), q)
      else if c_Type c \<notin> commandTypes then (Some (RequestError ''type''), q)
      else case q (c_ID c) of
        Some prev \<Rightarrow>
          if c_Type prev \<noteq> c_Type c then (Some (RequestError ''command_id''), q) else (None, q)
      | None \<Rightarrow> (None, q(c_ID c \<mapsto> c\<lparr>c_Status := ''queued''\<rparr>)))"

text \<open>The body of \<open>POST /commands\<close>, unknown fields disallowed.\<close>

fun command_members :: "(string \<times> json) list \<Rightarrow> command \<Rightarrow> command option" where
  "command_members [] c = Some c"
| "command_members ((k, v) # ms) c =
     (if to_lower k = ''command_id'' then
        (case v of JStr s \<Rightarrow> command_members ms (c\<lparr>c_ID := s\<rparr>) | JNull \<Rightarrow> command_members ms c | _ \<Rightarrow> None)
      else if to_lower k = ''type'' then
        (case v of JStr s \<Rightarrow> command_members ms (c\<lparr>c_Type := s\<rparr>) | JNull \<Rightarrow> command_members ms c | _ \<Rightarrow> None)
      else if to_lower k = ''payload'' then command_members ms (c\<lparr>c_Payload := RawDoc v\<rparr>)
      else if to_lower k = ''status'' then
        (case v of JStr s \<Rightarrow> command_members ms (c\<lparr>c_Status := s\<rparr>) | JNull \<Rightarrow> command_members ms c | _ \<Rightarrow> None)
      else None)"

definition decode_command :: "raw \<Rightarrow> command option" where
  "decode_command body =
     (let c0 = \<lparr>c_ID = [], c_Type = [], c_Payload = RawBad [], c_Status = []\<rparr> in
      case body of
        RawDoc (JObj ms) \<Rightarrow> command_members ms c0
      | RawDoc JNull \<Rightarrow> Some c0
      | _ \<Rightarrow> None)"

section \<open>Routes\<close>

record daemon =
  d_agentID :: string
  d_bootID :: string
  d_token :: string
  d_queue :: command_queue
  d_pi :: pi

record daemon_status =
  st_AgentID :: string
  st_BootID :: string
  st_PiRunning :: bool
  st_SpoolDepth :: nat
  st_PiRestarts :: int
  st_Backoff :: int

record request =
  rq_method :: string
  rq_path :: string
  rq_query :: "string \<Rightarrow> string"
  rq_auth :: string
  rq_body :: raw

datatype reply =
    Ok_Health
  | Ok_Status daemon_status
  | Ok_Records "raw spool_entry list"
  | Accepted string command
  | Ok_Command command
  | FieldReply string
  | ErrorReply nat

text \<open>A long poll that found nothing is answered later, through its channel.\<close>

datatype answer = Reply reply | Pending nat u64

datatype endpoint = Healthz | StatusEp | RecordsEp | PostCommand | GetCommand string | NoRoute nat

text \<open>The patterns of the mux; a known path with another method is 405, anything else 404.\<close>

definition route :: "string \<Rightarrow> string \<Rightarrow> endpoint" where
  "route verb path =
     (let get = (verb = ''GET'' \<or> verb = ''HEAD'') in
      if path = ''/healthz'' then (if get then Healthz else NoRoute 405)
      else if path = ''/status'' then (if get then StatusEp else NoRoute 405)
      else if path = ''/records'' then (if get then RecordsEp else NoRoute 405)
      else if path = ''/commands'' then (if verb = ''POST'' then PostCommand else NoRoute 405)
      else if has_prefix path ''/commands/'' \<and> drop 10 path \<noteq> [] \<and> CHR ''/'' \<notin> set (drop 10 path)
      then (if get then GetCommand (drop 10 path) else NoRoute 405)
      else NoRoute 404)"

definition handle_status :: "daemon \<Rightarrow> answer \<times> daemon" where
  "handle_status d =
     (Reply (Ok_Status \<lparr>st_AgentID = d_agentID d, st_BootID = d_bootID d, st_PiRunning = p_running (d_pi d),
        st_SpoolDepth = Depth (p_notices (d_pi d)), st_PiRestarts = restarts (d_pi d),
        st_Backoff = backoff (d_pi d)\<rparr>), d)"

definition handle_records :: "(string \<Rightarrow> int option) \<Rightarrow> request \<Rightarrow> daemon \<Rightarrow> answer \<times> daemon" where
  "handle_records ParseDuration rq d =
     (case ParseUint64 (rq_query rq ''after'') of
        None \<Rightarrow> (Reply (FieldReply ''after''), d)
      | Some after \<Rightarrow>
          (let ws = rq_query rq ''wait'';
               wait = (if ws = [] then Some 0 else ParseDuration ws)
           in case wait of
                None \<Rightarrow> (Reply (FieldReply ''wait''), d)
              | Some w \<Rightarrow>
                  if w < 0 then (Reply (FieldReply ''wait''), d)
                  else
                    (case spool_Read after w (p_notices (d_pi d)) of
                       (Served recs, s) \<Rightarrow> (Reply (Ok_Records recs), d\<lparr>d_pi := (d_pi d)\<lparr>p_notices := s\<rparr>\<rparr>)
                     | (Blocked ch, s) \<Rightarrow> (Pending ch after, d\<lparr>d_pi := (d_pi d)\<lparr>p_notices := s\<rparr>\<rparr>))))"

text \<open>The operating system's part in a command delivery.\<close>

record os_env =
  os_self :: "string option"
  os_io :: spool_io
  os_launched :: bool
  os_now :: int
  os_write1 :: bool
  os_write2 :: bool

definition handle_command :: "(json \<Rightarrow> string) \<Rightarrow> os_env \<Rightarrow> request \<Rightarrow> daemon \<Rightarrow> answer \<times> daemon" where
  "handle_command ctext os rq d =
     (case decode_command (rq_body rq) of
        None \<Rightarrow> (Reply (FieldReply ''body''), d)
      | Some c \<Rightarrow>
          (case Accept c (d_queue d) of
             (Some (RequestError f), q) \<Rightarrow> (Reply (FieldReply f), d\<lparr>d_queue := q\<rparr>)
           | (None, q) \<Rightarrow>
               (case SendCommand ctext (os_self os) (os_io os) (os_launched os) (os_now os) (os_write1 os)
                       (os_write2 os) c (d_pi d) of
                  (Some e, p) \<Rightarrow> (Reply (ErrorReply 500), d\<lparr>d_queue := q, d_pi := p\<rparr>)
                | (None, p) \<Rightarrow>
                    (Reply (Accepted (''/commands/'' @ c_ID c) (the (q (c_ID c)))), d\<lparr>d_queue := q, d_pi := p\<rparr>))))"

definition serve ::
    "(json \<Rightarrow> string) \<Rightarrow> (string \<Rightarrow> int option) \<Rightarrow> os_env \<Rightarrow> request \<Rightarrow> daemon \<Rightarrow> answer \<times> daemon" where
  "serve ctext ParseDuration os rq d =
     (case route (rq_method rq) (rq_path rq) of
        Healthz \<Rightarrow> (Reply Ok_Health, d)
      | StatusEp \<Rightarrow> handle_status d
      | RecordsEp \<Rightarrow> handle_records ParseDuration rq d
      | PostCommand \<Rightarrow> handle_command ctext os rq d
      | GetCommand i \<Rightarrow>
          (case d_queue d i of
             None \<Rightarrow> (Reply (ErrorReply 404), d)
           | Some c \<Rightarrow> (Reply (Ok_Command c), d))
      | NoRoute code \<Rightarrow> (Reply (ErrorReply code), d))"

text \<open>The bearer-token check; the health check stays unauthenticated.\<close>

definition auth :: "(request \<Rightarrow> daemon \<Rightarrow> answer \<times> daemon) \<Rightarrow> request \<Rightarrow> daemon \<Rightarrow> answer \<times> daemon" where
  "auth handler rq d =
     (if rq_path rq = ''/healthz'' then handler rq d
      else
        let got = trim_prefix (rq_auth rq) ''Bearer '' in
        if d_token d = [] \<or> got \<noteq> d_token d then (Reply (ErrorReply 401), d)
        else handler rq d)"

definition NewRouter ::
    "(json \<Rightarrow> string) \<Rightarrow> (string \<Rightarrow> int option) \<Rightarrow> os_env \<Rightarrow> request \<Rightarrow> daemon \<Rightarrow> answer \<times> daemon" where
  "NewRouter ctext ParseDuration os = auth (serve ctext ParseDuration os)"

section \<open>The built-in pi\<close>

record fakepi =
  f_turn :: nat
  f_steering :: "string list"
  f_followUp :: "string list"

text \<open>The four-digit turn id.\<close>

definition turn_id :: "nat \<Rightarrow> string" where
  "turn_id n = (let ds = dec_string n in ''t-'' @ replicate (4 - length ds) CHR ''0'' @ ds)"

definition queue_update_rec :: "fakepi \<Rightarrow> json" where
  "queue_update_rec f =
     JObj [(''followUp'', JArr (map JStr (f_followUp f))), (''steering'', JArr (map JStr (f_steering f))),
           (''type'', JStr ''queue_update'')]"

definition turn_recs :: "nat \<Rightarrow> json list" where
  "turn_recs n =
     (let t = (''turn_id'', JStr (turn_id n)) in
      [JObj [(''type'', JStr ''turn_started''), t],
       JObj [(''type'', JStr ''tool_call''), t, (''name'', JStr ''read_file''),
             (''arguments'', JObj [(''path'', JStr ''README.md'')])],
       JObj [(''type'', JStr ''text_delta''), t, (''text'', JStr ''Working on it.'')],
       JObj [(''type'', JStr ''agent_settled''), t]])"

fun payload_message :: "(string \<times> json) list \<Rightarrow> string \<Rightarrow> string option" where
  "payload_message [] acc = Some acc"
| "payload_message ((k, v) # ms) acc =
     (if to_lower k = ''payload'' then
        (case v of
           JObj ms' \<Rightarrow> (case str_member ''message'' ms' acc of None \<Rightarrow> None | Some m \<Rightarrow> payload_message ms m)
         | JNull \<Rightarrow> payload_message ms acc
         | _ \<Rightarrow> None)
      else payload_message ms acc)"

text \<open>One line of standard input: the records it emits and the new state.  A line that is not
  such a command, or of an unknown type, is reported on standard error only.\<close>

definition fakepi_line :: "raw \<Rightarrow> fakepi \<Rightarrow> json list \<times> fakepi" where
  "fakepi_line line f =
     (case line of
        RawDoc (JObj ms) \<Rightarrow>
          (case (str_member ''type'' ms [], payload_message ms []) of
             (Some t, Some m) \<Rightarrow>
               if t = CommandPrompt then (turn_recs (Suc (f_turn f)), f\<lparr>f_turn := Suc (f_turn f)\<rparr>)
               else if t = CommandSteer then
                 (let f' = f\<lparr>f_steering := f_steering f @ [m]\<rparr> in ([queue_update_rec f'], f'))
               else if t = ''follow_up'' then
                 (let f' = f\<lparr>f_followUp := f_followUp f @ [m]\<rparr> in ([queue_update_rec f'], f'))
               else if t = CommandAbort then
                 ([JObj [(''type'', JStr ''agent_settled''), (''aborted'', JBool True)]], f)
               else if t = CommandClearQueue then
                 (let f' = f\<lparr>f_steering := [], f_followUp := []\<rparr> in ([queue_update_rec f'], f'))
               else ([], f)
           | _ \<Rightarrow> ([], f))
      | _ \<Rightarrow> ([], f))"

fun runFakePi :: "raw list \<Rightarrow> fakepi \<Rightarrow> json list \<times> fakepi" where
  "runFakePi [] f = ([], f)"
| "runFakePi (l # ls) f =
     (let (out, f1) = fakepi_line l f; (out', f2) = runFakePi ls f1 in (out @ out', f2))"


section \<open>Authentication\<close>


section \<open>Commands\<close>

lemma Accept_keeps: "q i = Some c \<Longrightarrow> snd (Accept c' q) i = Some c"
  by (auto simp: Accept_def split: option.splits)

lemma serve_keeps_commands:
  assumes "d_queue d i = Some c"
  shows "d_queue (snd (NewRouter ctext pd os rq d)) i = Some c"
proof -
  have "d_queue (snd (handle_command ctext os rq d)) i = Some c"
  proof (cases "decode_command (rq_body rq)")
    case (Some c')
    obtain e q where q: "Accept c' (d_queue d) = (e, q)" by fastforce
    with Accept_keeps [of "d_queue d" i c c'] assms have "q i = Some c" by simp
    then show ?thesis
      by (auto simp: handle_command_def Some q split: option.split request_error.split prod.split)
  qed (simp add: handle_command_def assms)
  with assms show ?thesis
    by (auto simp: NewRouter_def auth_def serve_def handle_status_def handle_records_def Let_def
        split: endpoint.split option.split prod.split read_result.split)
qed

definition daemon_run ::
    "(json \<Rightarrow> string) \<Rightarrow> (string \<Rightarrow> int option) \<Rightarrow> (os_env \<times> request) list \<Rightarrow> daemon \<Rightarrow> daemon" where
  "daemon_run ctext pd rs d = foldl (\<lambda>d (os, rq). snd (NewRouter ctext pd os rq d)) d rs"

text \<open>C31: an accepted command is never replaced.  Once a command id is known, every later
  sequence of requests leaves the stored command as it is, and asking for it returns it.\<close>

theorem accepted_command_is_stable:
  assumes "d_queue d i = Some c" "i \<noteq> []" "CHR ''/'' \<notin> set i"
    and d': "d' = daemon_run ctext pd rs d"
    and rq: "rq_method rq = ''GET''" "rq_path rq = ''/commands/'' @ i" "d_token d' \<noteq> []" "rq_auth rq = ''Bearer '' @ d_token d'"
  shows "NewRouter ctext pd os rq d' = (Reply (Ok_Command c), d')"
proof -
  have "d_queue d' i = Some c"
    unfolding d' daemon_run_def 
    by (rule foldl_invariant [where P = "\<lambda>d. d_queue d i = Some c"])
      (auto simp: assms(1) intro: serve_keeps_commands)
  moreover have "route ''GET'' (''/commands/'' @ i) = GetCommand i"
    using assms(2,3) by (simp add: route_def has_prefix_def Let_def)
  ultimately show ?thesis
    using rq assms(2) by (simp add: NewRouter_def auth_def serve_def trim_prefix_def has_prefix_def)
qed

text \<open>A re-post delivers its own payload.  When a command is posted again under a known id
  with the same type but another payload, the line written to pi carries the new payload,
  while the reply and every later lookup show the old one.\<close>

theorem repost_delivers_other_payload:
  assumes "d_queue d (c_ID c) = Some old" "c_Type old = c_Type c" "c_ID c \<noteq> []" "c_Type c = CommandPrompt"
    and body: "decode_command (rq_body rq) = Some c" "c_Payload c = RawDoc v"
    and run: "p_running (d_pi d)" "p_cmd (d_pi d) = Some g" "os_write1 os"
  shows "\<exists>d'. handle_command ctext os rq d = (Reply (Accepted (''/commands/'' @ c_ID c) old), d') \<and>
    p_input (d_pi d') = p_input (d_pi d) @
      [(generation (d_pi d), JObj [(''command_id'', JStr (c_ID c)), (''payload'', v), (''type'', JStr ''prompt'')])] \<and>
    d_queue d' (c_ID c) = Some old"
proof -
  have "Accept c (d_queue d) = (None, d_queue d)"
    using assms by (simp add: Accept_def commandTypes_def)
  moreover have "Start (os_self os) (os_io os) (os_launched os) (os_now os) (d_pi d) = (None, d_pi d)"
    using run(1) by (simp add: Start_def Start_check_def)
  ultimately show ?thesis
    using assms
    by (simp add: handle_command_def SendCommand_def deliver_def command_line_def raw_marshal_def write_line_def
        CommandPrompt_def CommandAbort_def CommandSteer_def Let_def)
qed

section \<open>The tracked queue\<close>

definition texts_of :: "string list option \<Rightarrow> string list" where
  "texts_of ts = (case ts of None \<Rightarrow> [] | Some xs \<Rightarrow> xs)"

definition tracks :: "pi \<Rightarrow> fakepi \<Rightarrow> bool" where
  "tracks p f \<longleftrightarrow> texts_of (queuedSteering p) = f_steering f \<and> texts_of (queuedFollowUp p) = f_followUp f"

text \<open>The part of a command that reaches pi: the lines it is sent, answered by the built-in pi,
  whose output is relayed back.\<close>

definition exchange ::
    "(json \<Rightarrow> string) \<Rightarrow> (json \<Rightarrow> bool) \<Rightarrow> spool_io \<Rightarrow> command \<Rightarrow> pi \<times> fakepi \<Rightarrow> pi \<times> fakepi" where
  "exchange ctext mentions io c pf =
     (let p = fst pf; p1 = snd (deliver ctext io True True c p);
          lines = map (RawDoc \<circ> snd) (drop (length (p_input p)) (p_input p1));
          (out, f1) = runFakePi lines (snd pf)
      in (relayStdout ctext mentions io (map RawDoc out) p1, f1))"

lemma queueTexts_strs: "queueTexts ctext (map JStr ts) = ts"
  by (induction ts) auto

lemma track_queue_update:
  assumes "mentions (queue_update_rec f)"
  shows "tracks (trackQueueUpdate ctext mentions (queue_update_rec f) p) f"
  using assms by (simp add: trackQueueUpdate_def queue_update_rec_def tracks_def texts_of_def queueTexts_strs to_lower_def lower_char_def)

lemma tracks_put [simp]: "tracks (notice_put io d p) f = tracks p f" "tracks (write_line l p) f = tracks p f"
  by (simp_all add: tracks_def notice_put_def write_line_def)

lemma relay_one:
  "relayStdout ctext mentions io [RawDoc d] p = notice_put io (RawDoc d) (trackQueueUpdate ctext mentions d p)"
  by (simp add: relayStdout_def spoolStdoutLine_def)

text \<open>Records of another type leave the tracker alone.\<close>

lemma track_other:
  "str_member ''type'' ms [] = Some t \<Longrightarrow> t \<noteq> ''queue_update'' \<Longrightarrow> trackQueueUpdate ctext mentions (JObj ms) p = p"
  by (auto simp: trackQueueUpdate_def split: option.split)

lemma type_member:
  "str_member ''type'' ((''type'', JStr t) # ms) acc = str_member ''type'' ms t"
  "k \<noteq> ''type'' \<Longrightarrow> to_lower k = k \<Longrightarrow> str_member ''type'' ((k, v) # ms) acc = str_member ''type'' ms acc"
  by (simp_all add: to_lower_def lower_char_def)

definition message_command :: "command \<Rightarrow> bool" where
  "message_command c \<longleftrightarrow> c_Type c \<in> commandTypes \<and> (\<exists>m. c_Payload c = RawDoc (JObj [(''message'', JStr m)]))"

lemma fakepi_command:
  assumes "c_Payload c = RawDoc (JObj [(''message'', JStr m)])"
  shows "command_line c = Some (JObj [(''command_id'', JStr (c_ID c)), (''payload'', JObj [(''message'', JStr m)]), (''type'', JStr (c_Type c))])"
    and "fakepi_line (RawDoc (JObj [(''command_id'', JStr (c_ID c)), (''payload'', JObj [(''message'', JStr m)]), (''type'', JStr t)])) f =
      (if t = CommandPrompt then (turn_recs (Suc (f_turn f)), f\<lparr>f_turn := Suc (f_turn f)\<rparr>)
       else if t = CommandSteer then ([queue_update_rec (f\<lparr>f_steering := f_steering f @ [m]\<rparr>)], f\<lparr>f_steering := f_steering f @ [m]\<rparr>)
       else if t = ''follow_up'' then ([queue_update_rec (f\<lparr>f_followUp := f_followUp f @ [m]\<rparr>)], f\<lparr>f_followUp := f_followUp f @ [m]\<rparr>)
       else if t = CommandAbort then ([JObj [(''type'', JStr ''agent_settled''), (''aborted'', JBool True)]], f)
       else if t = CommandClearQueue then ([queue_update_rec (f\<lparr>f_steering := [], f_followUp := []\<rparr>)], f\<lparr>f_steering := [], f_followUp := []\<rparr>)
       else ([], f))"
  using assms by (simp_all add: command_line_def raw_marshal_def fakepi_line_def to_lower_def lower_char_def Let_def)

lemma fakepi_bare:
  "fakepi_line (RawDoc (clear_line c)) f = ([queue_update_rec (f\<lparr>f_steering := [], f_followUp := []\<rparr>)], f\<lparr>f_steering := [], f_followUp := []\<rparr>)"
  "fakepi_line (RawDoc abort_line) f = ([JObj [(''type'', JStr ''agent_settled''), (''aborted'', JBool True)]], f)"
  by (simp_all add: fakepi_line_def clear_line_def abort_line_def to_lower_def lower_char_def CommandPrompt_def
      CommandSteer_def CommandAbort_def CommandClearQueue_def Let_def)

lemma track_turn: "trackQueueUpdate ctext mentions d p = p" if "d \<in> set (turn_recs n)"
proof -
  from that obtain ms t where "d = JObj ms" "str_member ''type'' ms [] = Some t" "t \<noteq> ''queue_update''"
    by (auto simp: turn_recs_def Let_def to_lower_def lower_char_def)
  then show ?thesis by (simp add: track_other)
qed

lemma tracks_turn:
  assumes "set ds \<subseteq> set (turn_recs n)"
  shows "tracks (relayStdout ctext mentions io (map RawDoc ds) p) f = tracks p f"
  using assms
proof (induction ds arbitrary: p)
  case (Cons d ds)
  then show ?case
    by (simp add: relayStdout_def spoolStdoutLine_def track_turn [of d n])
qed (simp add: relayStdout_def)

lemma track_aborted:
  "trackQueueUpdate ctext mentions (JObj [(''type'', JStr ''agent_settled''), (''aborted'', JBool True)]) p = p"
  by (rule track_other [where t = "''agent_settled''"]) (simp_all add: to_lower_def lower_char_def)

lemma deliver_input:
  assumes "p_cmd p = Some g" "c_Payload c = RawDoc (JObj [(''message'', JStr m)])"
  shows "drop (length (p_input p)) (p_input (snd (deliver ctext io True True c p))) =
    (if c_Type c = CommandAbort then [(generation p, clear_line c), (generation p, abort_line)]
     else [(generation p, JObj [(''command_id'', JStr (c_ID c)), (''payload'', JObj [(''message'', JStr m)]), (''type'', JStr (c_Type c))])])"
  using assms
  by (simp add: deliver_def fakepi_command(1) [OF assms(2)] drainNotice_def notice_put_def trackPendingSteer_def write_line_def Let_def)

lemma exchange_tracks:
  assumes p: "p_cmd p = Some g" and c: "message_command c" and m: "\<forall>f. mentions (queue_update_rec f)"
    and t: "tracks p f"
  shows "tracks (fst (exchange ctext mentions io c (p, f))) (snd (exchange ctext mentions io c (p, f)))"
proof -
  obtain msg where msg: "c_Payload c = RawDoc (JObj [(''message'', JStr msg)])" using c by (auto simp: message_command_def)
  let ?p1 = "snd (deliver ctext io True True c p)"
  note inp = deliver_input [OF p msg, of ctext io]
  have q: "tracks (trackQueueUpdate ctext mentions (queue_update_rec f') p') f'" for f' p'
    using m by (simp add: track_queue_update)
  consider "c_Type c = CommandPrompt" | "c_Type c = CommandSteer" | "c_Type c = CommandAbort" | "c_Type c = CommandClearQueue"
    using c by (auto simp: message_command_def commandTypes_def)
  then show ?thesis
  proof cases
    case 1
    then have "tracks ?p1 (f\<lparr>f_turn := Suc (f_turn f)\<rparr>)"
      using p t by (simp add: deliver_def fakepi_command(1) [OF msg] CommandPrompt_def CommandAbort_def CommandSteer_def tracks_def write_line_def)
    with 1 show ?thesis
      by (simp add: exchange_def inp fakepi_command(2) [OF msg] tracks_turn [OF subset_refl] CommandPrompt_def CommandAbort_def)
  next
    case 2
    then show ?thesis
      by (simp add: exchange_def inp fakepi_command(2) [OF msg] relay_one q CommandPrompt_def CommandAbort_def CommandSteer_def)
  next
    case 3
    then show ?thesis
      by (simp add: exchange_def inp fakepi_bare relayStdout_def spoolStdoutLine_def track_aborted q)
  next
    case 4
    then show ?thesis
      by (simp add: exchange_def inp fakepi_command(2) [OF msg] relay_one q CommandPrompt_def CommandAbort_def
          CommandSteer_def CommandClearQueue_def)
  qed
qed

lemma exchange_cmd: "p_cmd (fst (exchange ctext mentions io c (p, f))) = p_cmd p"
proof -
  have core: "same_core p q \<Longrightarrow> p_cmd q = p_cmd p" for q
    unfolding same_core_def by (metis pi.select_convs(1) pi.surjective pi.update_convs(3,7,8,21))
  show ?thesis
    by (rule core) (auto simp: exchange_def Let_def case_prod_beta intro: same_core_trans [OF deliver_core relayStdout_core])
qed


section \<open>Witnesses\<close>

definition demo_daemon :: daemon where
  "demo_daemon = \<lparr>d_agentID = ''a-1'', d_bootID = ''b'', d_token = ''tok'',
     d_queue = [''c-1'' \<mapsto> (demo_command CommandPrompt)\<lparr>c_Payload := RawDoc JNull\<rparr>], d_pi = demo_pi\<rparr>"

definition demo_os :: os_env where
  "demo_os = \<lparr>os_self = None, os_io = demo_io, os_launched = True, os_now = 0, os_write1 = True, os_write2 = True\<rparr>"

definition demo_request :: "string \<Rightarrow> string \<Rightarrow> raw \<Rightarrow> request" where
  "demo_request verb path body = \<lparr>rq_method = verb, rq_path = path, rq_query = (\<lambda>k. []), rq_auth = ''Bearer tok'', rq_body = body\<rparr>"


definition demo_posts :: "(os_env \<times> request) list" where
  "demo_posts = [(demo_os, demo_request ''POST'' ''/commands'' (RawDoc (JObj [(''command_id'', JStr ''c-2''), (''type'', JStr ''steer'')])))]"

lemma token_kept: "d_token (snd (NewRouter ctext pd os rq d)) = d_token d"
proof -
  have "d_token (snd (handle_command ctext os rq d)) = d_token d"
    by (simp add: handle_command_def split: option.split prod.split request_error.split)
  moreover have "d_token (snd (handle_records pd rq d)) = d_token d"
    by (simp add: handle_records_def Let_def split: option.split prod.split read_result.split)
  ultimately show ?thesis
    by (simp add: NewRouter_def auth_def serve_def handle_status_def Let_def split: endpoint.split option.split)
qed

theorem accepted_command_is_stable_witness:
  "NewRouter demo_ctext (\<lambda>s. None) demo_os (demo_request ''GET'' ''/commands/c-1'' (RawBad []))
     (daemon_run demo_ctext (\<lambda>s. None) demo_posts demo_daemon) =
   (Reply (Ok_Command ((demo_command CommandPrompt)\<lparr>c_Payload := RawDoc JNull\<rparr>)),
    daemon_run demo_ctext (\<lambda>s. None) demo_posts demo_daemon)"
proof -
  have "d_token (daemon_run demo_ctext (\<lambda>s. None) demo_posts demo_daemon) = ''tok''"
    by (simp add: daemon_run_def demo_posts_def token_kept demo_daemon_def)
  then show ?thesis
    by (intro accepted_command_is_stable [where i = "''c-1''" and d = demo_daemon, OF _ _ _ refl])
      (simp_all add: demo_daemon_def demo_request_def)
qed

definition demo_repost :: request where
  "demo_repost = demo_request ''POST'' ''/commands''
     (RawDoc (JObj [(''command_id'', JStr ''c-1''), (''type'', JStr ''prompt''), (''payload'', JStr ''new'')]))"

theorem repost_delivers_other_payload_witness:
  "\<exists>d'. handle_command demo_ctext demo_os demo_repost demo_daemon =
      (Reply (Accepted ''/commands/c-1'' ((demo_command CommandPrompt)\<lparr>c_Payload := RawDoc JNull\<rparr>)), d') \<and>
    p_input (d_pi d') = [(1, JObj [(''command_id'', JStr ''c-1''), (''payload'', JStr ''new''), (''type'', JStr ''prompt'')])]"
proof -
  let ?c = "\<lparr>c_ID = ''c-1'', c_Type = ''prompt'', c_Payload = RawDoc (JStr ''new''), c_Status = []\<rparr>"
  let ?old = "(demo_command CommandPrompt)\<lparr>c_Payload := RawDoc JNull\<rparr>"
  have q: "d_queue demo_daemon (c_ID ?c) = Some ?old" "c_Type ?old = c_Type ?c" "c_ID ?c \<noteq> []" "c_Type ?c = CommandPrompt"
    by (simp_all add: demo_daemon_def demo_command_def CommandPrompt_def)
  have b: "decode_command (rq_body demo_repost) = Some ?c" "c_Payload ?c = RawDoc (JStr ''new'')"
    by (simp_all add: demo_repost_def demo_request_def decode_command_def to_lower_def lower_char_def)
  have r: "p_running (d_pi demo_daemon)" "p_cmd (d_pi demo_daemon) = Some 1" "os_write1 demo_os"
    "p_input (d_pi demo_daemon) = []" "generation (d_pi demo_daemon) = 1"
    by (simp_all add: demo_daemon_def demo_pi_def NewPi_def demo_os_def)
  from repost_delivers_other_payload [OF q b r(1,2,3), of demo_ctext] r(4,5) show ?thesis by auto
qed


end
