(* ===== verification/Path_Match.thy ===== *)
theory Path_Match
  imports Go_Lib
begin

text \<open>
  The part of Go's package path that the tool router of kapeproxy uses: path.Match, with its
  helpers scanChunk, matchChunk and getEsc, and utf8.DecodeRuneInString.  Strings are byte
  sequences.  ErrBadPattern is None.  The second half gives the meaning of patterns built from
  literals, question marks and stars by plain backtracking, and shows that the routine, which never
  returns to an earlier star, computes it.
\<close>

subsection \<open>Decoding one rune\<close>

definition RuneError :: nat where
  "RuneError = 65533"

definition cont_byte :: "nat \<Rightarrow> nat \<Rightarrow> nat \<Rightarrow> bool" where
  "cont_byte lo hi b = (lo \<le> b \<and> b \<le> hi)"

definition DecodeRune :: "string \<Rightarrow> nat \<times> nat" where
  "DecodeRune s = (case map of_char s of
       [] \<Rightarrow> (RuneError, 0)
     | b0 # bs \<Rightarrow>
         if b0 < 128 then (b0, 1)
         else if 194 \<le> b0 \<and> b0 \<le> 223 then
           (case bs of b1 # _ \<Rightarrow>
              if cont_byte 128 191 b1 then (b0 mod 32 * 64 + b1 mod 64, 2) else (RuneError, 1)
            | _ \<Rightarrow> (RuneError, 1))
         else if 224 \<le> b0 \<and> b0 \<le> 239 then
           (case bs of b1 # b2 # _ \<Rightarrow>
              if cont_byte (if b0 = 224 then 160 else 128) (if b0 = 237 then 159 else 191) b1
                 \<and> cont_byte 128 191 b2
              then (b0 mod 16 * 4096 + b1 mod 64 * 64 + b2 mod 64, 3) else (RuneError, 1)
            | _ \<Rightarrow> (RuneError, 1))
         else if 240 \<le> b0 \<and> b0 \<le> 244 then
           (case bs of b1 # b2 # b3 # _ \<Rightarrow>
              if cont_byte (if b0 = 240 then 144 else 128) (if b0 = 244 then 143 else 191) b1
                 \<and> cont_byte 128 191 b2 \<and> cont_byte 128 191 b3
              then (b0 mod 8 * 262144 + b1 mod 64 * 4096 + b2 mod 64 * 64 + b3 mod 64, 4)
              else (RuneError, 1)
            | _ \<Rightarrow> (RuneError, 1))
         else (RuneError, 1))"

definition ascii :: "char \<Rightarrow> bool" where
  "ascii c = ((of_char c :: nat) < 128)"

lemma DecodeRune_ascii [simp]:
  "ascii c \<Longrightarrow> DecodeRune (c # s) = (of_char c, 1)"
  by (simp add: DecodeRune_def ascii_def)

lemma DecodeRune_width:
  "s \<noteq> [] \<Longrightarrow> 0 < snd (DecodeRune s)"
  by (cases s) (auto simp: DecodeRune_def split: list.splits if_splits)

subsection \<open>Chunks of a pattern\<close>

definition getEsc :: "string \<Rightarrow> (nat \<times> string) option" where
  "getEsc chunk = (if chunk = [] \<or> hd chunk = CHR ''-'' \<or> hd chunk = CHR '']'' then None
     else let c1 = (if hd chunk = CHR 0x5C then tl chunk else chunk) in
       if c1 = [] then None
       else let (r, n) = DecodeRune c1; nchunk = drop n c1 in
         if r = RuneError \<and> n = 1 then None
         else if nchunk = [] then None
         else Some (r, nchunk))"

lemma getEsc_shorter:
  assumes "getEsc chunk = Some (r, c)"
  shows "c \<noteq> [] \<and> length c < length chunk"
proof -
  define c1 where "c1 = (if hd chunk = CHR 0x5C then tl chunk else chunk)"
  have "c1 \<noteq> []" "c = drop (snd (DecodeRune c1)) c1" "c \<noteq> []"
    using assms
    by (auto simp: getEsc_def c1_def Let_def split: if_splits prod.splits)
  moreover have "length c1 \<le> length chunk" by (simp add: c1_def)
  moreover have "0 < snd (DecodeRune c1)" using DecodeRune_width calculation(1) .
  ultimately show ?thesis by (cases c1) auto
qed

function class_ranges :: "nat \<Rightarrow> nat \<Rightarrow> bool \<Rightarrow> string \<Rightarrow> (bool \<times> string) option" where
  "class_ranges r nrange m chunk =
     (if chunk \<noteq> [] \<and> hd chunk = CHR '']'' \<and> 0 < nrange then Some (m, tl chunk)
      else case getEsc chunk of
        None \<Rightarrow> None
      | Some (lo, c1) \<Rightarrow>
          if hd c1 = CHR ''-'' then
            (case getEsc (tl c1) of
               None \<Rightarrow> None
             | Some (hi, c2) \<Rightarrow> class_ranges r (nrange + 1) (m \<or> lo \<le> r \<and> r \<le> hi) c2)
          else class_ranges r (nrange + 1) (m \<or> lo \<le> r \<and> r \<le> lo) c1)"
  by pat_completeness auto
termination
  by (relation "measure (\<lambda>(r, n, m, chunk). length chunk)")
     (auto dest!: getEsc_shorter)

declare class_ranges.simps [simp del]

lemma class_ranges_shorter:
  "class_ranges r n m chunk = Some (m', rest) \<Longrightarrow> length rest < length chunk"
proof (induction r n m chunk rule: class_ranges.induct)
  case (1 r nrange m chunk)
  show ?case
  proof (cases "chunk \<noteq> [] \<and> hd chunk = CHR '']'' \<and> 0 < nrange")
    case True
    then show ?thesis using "1.prems" by (auto simp: class_ranges.simps)
  next
    case False
    then obtain lo c1 where e: "getEsc chunk = Some (lo, c1)"
      using "1.prems" by (auto simp: class_ranges.simps [of r nrange] split: option.splits)
    note s1 = getEsc_shorter [OF e]
    show ?thesis
    proof (cases "hd c1 = CHR ''-''")
      case True
      then obtain hi c2 where e2: "getEsc (tl c1) = Some (hi, c2)"
        and "class_ranges r (nrange + 1) (m \<or> lo \<le> r \<and> r \<le> hi) c2 = Some (m', rest)"
        using "1.prems" False e by (auto simp: class_ranges.simps [of r nrange] split: option.splits if_splits)
      then have "length rest < length c2" using "1.IH"(1) [OF False e] True by blast
      then show ?thesis using getEsc_shorter [OF e2] s1 by (cases c1) auto
    next
      case False2: False
      then have "class_ranges r (nrange + 1) (m \<or> lo \<le> r \<and> r \<le> lo) c1 = Some (m', rest)"
        using "1.prems" False e by (auto simp: class_ranges.simps [of r nrange] split: if_splits)
      then have "length rest < length c1" using "1.IH"(2) [OF False e] False2 by blast
      then show ?thesis using s1 by simp
    qed
  qed
qed

text \<open>The loop of matchChunk; failed records that the name no longer matches while the rest of the
  chunk is still checked for being well formed.\<close>

function match_loop :: "bool \<Rightarrow> string \<Rightarrow> string \<Rightarrow> string option option" where
  "match_loop failed0 chunk s = (case chunk of
       [] \<Rightarrow> Some (if failed0 then None else Some s)
     | c # chunk1 \<Rightarrow>
       (let failed = (failed0 \<or> s = []) in
        if c = CHR ''['' then
          (let r = (if failed then 0 else fst (DecodeRune s));
               s1 = (if failed then s else drop (snd (DecodeRune s)) s);
               negated = (chunk1 \<noteq> [] \<and> hd chunk1 = CHR ''^'');
               chunk2 = (if negated then tl chunk1 else chunk1)
           in case class_ranges r 0 False chunk2 of
                None \<Rightarrow> None
              | Some (m, chunk3) \<Rightarrow> match_loop (failed \<or> m = negated) chunk3 s1)
        else if c = CHR ''?'' then
          (if failed then match_loop failed chunk1 s
           else match_loop (hd s = CHR ''/'') chunk1 (drop (snd (DecodeRune s)) s))
        else if c = CHR 0x5C then
          (case chunk1 of
             [] \<Rightarrow> None
           | d # chunk2 \<Rightarrow>
               if failed then match_loop failed chunk2 s
               else match_loop (d \<noteq> hd s) chunk2 (tl s))
        else if failed then match_loop failed chunk1 s
        else match_loop (c \<noteq> hd s) chunk1 (tl s)))"
  by pat_completeness auto
termination
  by (relation "measure (\<lambda>(f, chunk, s). length chunk)")
     (auto dest!: class_ranges_shorter split: if_splits)

declare match_loop.simps [simp del]

definition matchChunk :: "string \<Rightarrow> string \<Rightarrow> string option option" where
  "matchChunk chunk s = match_loop False chunk s"

fun scan_body :: "bool \<Rightarrow> string \<Rightarrow> string \<times> string" where
  "scan_body inrange [] = ([], [])"
| "scan_body inrange (c # p) =
     (if c = CHR 0x5C then
        (case p of
           [] \<Rightarrow> ([c], [])
         | d # p' \<Rightarrow> (let (chunk, rest) = scan_body inrange p' in (c # d # chunk, rest)))
      else if c = CHR ''*'' \<and> \<not> inrange then ([], c # p)
      else (let (chunk, rest) =
                  scan_body (if c = CHR ''['' then True else if c = CHR '']'' then False else inrange) p
            in (c # chunk, rest)))"

definition scanChunk :: "string \<Rightarrow> bool \<times> string \<times> string" where
  "scanChunk pattern =
     (let p = dropWhile (\<lambda>c. c = CHR ''*'') pattern
      in (p \<noteq> pattern, scan_body False p))"

lemma scan_body_append:
  "scan_body ir p = (chunk, rest) \<Longrightarrow> p = chunk @ rest"
  by (induction ir p arbitrary: chunk rest rule: scan_body.induct)
     (auto split: if_splits list.splits prod.splits simp: Let_def)

lemma scanChunk_shorter:
  assumes "scanChunk p = (starred, chunk, rest)" "p \<noteq> []"
  shows "length rest < length p"
proof -
  define q where "q = dropWhile (\<lambda>c. c = CHR ''*'') p"
  have b: "scan_body False q = (chunk, rest)" using assms by (auto simp: scanChunk_def q_def Let_def)
  have len: "length q \<le> length p" by (simp add: q_def length_dropWhile_le)
  show ?thesis
  proof (cases q)
    case Nil
    then show ?thesis using b assms by simp
  next
    case (Cons c q')
    then have "c \<noteq> CHR ''*''" by (metis (mono_tags) q_def hd_dropWhile list.sel(1) list.distinct(1))
    then have "chunk \<noteq> []" using b Cons by (auto split: if_splits list.splits prod.splits simp: Let_def)
    then show ?thesis using scan_body_append [OF b] len by (cases chunk) auto
  qed
qed

subsection \<open>path.Match\<close>

text \<open>What is left of the pattern is checked for being well formed before a mismatch is reported.\<close>

function valid_rest :: "string \<Rightarrow> bool" where
  "valid_rest pattern =
     (if pattern = [] then True
      else let (starred, chunk, rest) = scanChunk pattern
           in matchChunk chunk [] \<noteq> None \<and> valid_rest rest)"
  by pat_completeness auto
termination
  by (relation "measure length") (auto dest!: scanChunk_shorter [OF sym])

declare valid_rest.simps [simp del]

fun skip_bytes :: "string \<Rightarrow> bool \<Rightarrow> string \<Rightarrow> string option option" where
  "skip_bytes chunk last_chunk [] = Some None"
| "skip_bytes chunk last_chunk (c # name) =
     (if c = CHR ''/'' then Some None
      else case matchChunk chunk name of
             None \<Rightarrow> None
           | Some None \<Rightarrow> skip_bytes chunk last_chunk name
           | Some (Some t) \<Rightarrow>
               if last_chunk \<and> t \<noteq> [] then skip_bytes chunk last_chunk name else Some (Some t))"

function Match :: "string \<Rightarrow> string \<Rightarrow> bool option" where
  "Match pattern name =
     (if pattern = [] then Some (name = [])
      else let (starred, chunk, rest) = scanChunk pattern;
               mismatch = (if valid_rest rest then Some False else None)
           in if starred \<and> chunk = [] then Some (CHR ''/'' \<notin> set name)
              else case matchChunk chunk name of
                     None \<Rightarrow> None
                   | Some mt \<Rightarrow>
                       if mt \<noteq> None \<and> (the mt = [] \<or> rest \<noteq> []) then Match rest (the mt)
                       else if starred then
                         (case skip_bytes chunk (rest = []) name of
                            None \<Rightarrow> None
                          | Some None \<Rightarrow> mismatch
                          | Some (Some t) \<Rightarrow> Match rest t)
                       else mismatch)"
  by pat_completeness auto
termination
  by (relation "measure (\<lambda>(pattern, name). length pattern)")
     (auto dest!: scanChunk_shorter [OF sym])

declare Match.simps [simp del]


subsection \<open>What a pattern of literals, question marks and stars means\<close>

fun glob :: "string \<Rightarrow> string \<Rightarrow> bool" where
  "glob [] s = (s = [])"
| "glob (c # p) [] = (c = CHR ''*'' \<and> glob p [])"
| "glob (c # p) (d # s) =
     (if c = CHR ''*'' then glob p (d # s) \<or> d \<noteq> CHR ''/'' \<and> glob (c # p) s
      else if c = CHR ''?'' then d \<noteq> CHR ''/'' \<and> glob p s
      else c = d \<and> glob p s)"

definition simple_pattern :: "string \<Rightarrow> bool" where
  "simple_pattern p = (CHR ''['' \<notin> set p \<and> CHR 0x5C \<notin> set p)"

definition plain_name :: "string \<Rightarrow> bool" where
  "plain_name s = (CHR ''/'' \<notin> set s \<and> list_all ascii s)"

definition plain_chunk :: "string \<Rightarrow> bool" where
  "plain_chunk p = (simple_pattern p \<and> CHR ''*'' \<notin> set p)"

fun fits :: "string \<Rightarrow> string \<Rightarrow> bool" where
  "fits [] s = True"
| "fits (c # p) [] = False"
| "fits (c # p) (d # s) = ((if c = CHR ''?'' then d \<noteq> CHR ''/'' else c = d) \<and> fits p s)"

lemma plain_name_simps [simp]:
  "plain_name []"
  "plain_name (c # s) = (c \<noteq> CHR ''/'' \<and> ascii c \<and> plain_name s)"
  by (auto simp: plain_name_def)

lemma plain_name_drop [simp]:
  "plain_name s \<Longrightarrow> plain_name (drop n s)"
  by (auto simp: plain_name_def list_all_iff dest: in_set_dropD)

lemma plain_chunk_simps [simp]:
  "plain_chunk []"
  "plain_chunk (c # p) = (c \<noteq> CHR ''['' \<and> c \<noteq> CHR 0x5C \<and> c \<noteq> CHR ''*'' \<and> plain_chunk p)"
  by (auto simp: plain_chunk_def simple_pattern_def)

lemma match_loop_Nil [simp]:
  "match_loop failed [] s = Some (if failed then None else Some s)"
  by (subst match_loop.simps) simp

lemma match_loop_plain:
  "c \<noteq> CHR ''['' \<Longrightarrow> c \<noteq> CHR 0x5C \<Longrightarrow>
   match_loop failed (c # p) s =
     (if failed \<or> s = [] then match_loop True p s
      else if c = CHR ''?'' then match_loop (hd s = CHR ''/'') p (drop (snd (DecodeRune s)) s)
      else match_loop (c \<noteq> hd s) p (tl s))"
  by (subst match_loop.simps) (auto simp: Let_def)

lemma match_loop_failed:
  "plain_chunk chunk \<Longrightarrow> match_loop True chunk s = Some None"
  by (induction chunk) (simp_all add: match_loop_plain)

lemma match_loop_fits:
  "plain_chunk chunk \<Longrightarrow> plain_name s \<Longrightarrow>
   match_loop False chunk s = Some (if fits chunk s then Some (drop (length chunk) s) else None)"
  by (induction chunk s rule: fits.induct) (auto simp: match_loop_plain match_loop_failed)

lemma matchChunk_fits:
  "plain_chunk chunk \<Longrightarrow> plain_name s \<Longrightarrow>
   matchChunk chunk s = Some (if fits chunk s then Some (drop (length chunk) s) else None)"
  by (simp add: matchChunk_def match_loop_fits)

lemma glob_chunk:
  "plain_chunk chunk \<Longrightarrow> glob (chunk @ p) s = (fits chunk s \<and> glob p (drop (length chunk) s))"
  by (induction chunk s rule: fits.induct) auto

lemma glob_star:
  "plain_name s \<Longrightarrow> glob (CHR ''*'' # p) s = (\<exists>i\<le>length s. glob p (drop i s))"
proof (induction s)
  case (Cons d s)
  have "(\<exists>i\<le>length (d # s). glob p (drop i (d # s))) =
        (glob p (d # s) \<or> (\<exists>i\<le>length s. glob p (drop i s)))"
    by (metis Suc_le_mono drop0 drop_Suc_Cons length_Cons not0_implies_Suc zero_le)
  then show ?case using Cons by simp
qed simp

lemma glob_stars:
  "plain_name s \<Longrightarrow> glob (CHR ''*'' # CHR ''*'' # p) s = glob (CHR ''*'' # p) s"
proof (induction s)
  case (Cons d s)
  then show ?case by auto
qed simp

lemma glob_star_drop:
  "plain_name s \<Longrightarrow> glob (CHR ''*'' # p) (drop n s) \<Longrightarrow> glob (CHR ''*'' # p) s"
proof (induction s arbitrary: n)
  case (Cons d s)
  then show ?case by (cases n) auto
qed simp


subsection \<open>The routine computes the meaning\<close>

definition star_run :: "string \<Rightarrow> bool" where
  "star_run p = (\<forall>c\<in>set p. c = CHR ''*'')"

lemma glob_star_run:
  "star_run u \<Longrightarrow> u \<noteq> [] \<Longrightarrow> plain_name s \<Longrightarrow> glob (u @ p) s = glob (CHR ''*'' # p) s"
proof (induction u arbitrary: s)
  case (Cons c u)
  then have c: "c = CHR ''*''" and u: "star_run u" by (auto simp: star_run_def)
  show ?case
  proof (cases "u = []")
    case False
    have "glob ((c # u) @ p) s = (\<exists>i\<le>length s. glob (u @ p) (drop i s))"
      using c glob_star [OF Cons.prems(3)] by simp
    also have "\<dots> = (\<exists>i\<le>length s. glob (CHR ''*'' # p) (drop i s))"
      using Cons.IH [OF u False] Cons.prems(3) by simp
    also have "\<dots> = glob (CHR ''*'' # CHR ''*'' # p) s"
      by (rule glob_star [OF Cons.prems(3), symmetric])
    finally show ?thesis using glob_stars [OF Cons.prems(3)] by simp
  qed (simp add: c)
qed simp

lemma scan_body_simple:
  "simple_pattern p \<Longrightarrow> scan_body False p = (chunk, rest) \<Longrightarrow>
   plain_chunk chunk \<and> simple_pattern rest \<and> (rest = [] \<or> hd rest = CHR ''*'')"
proof (induction p arbitrary: chunk)
  case (Cons c p)
  then have c: "c \<noteq> CHR ''['' \<and> c \<noteq> CHR 0x5C" and p: "simple_pattern p"
    by (auto simp: simple_pattern_def)
  show ?case
  proof (cases "c = CHR ''*''")
    case True
    then show ?thesis using Cons.prems by auto
  next
    case False
    then obtain ch where "scan_body False p = (ch, rest)" "chunk = c # ch"
      using Cons.prems(2) c by (cases "scan_body False p") (auto simp: Let_def)
    then show ?thesis using Cons.IH [OF p] c False by simp
  qed
qed (simp add: simple_pattern_def)

lemma scanChunk_simple:
  assumes "simple_pattern p" "scanChunk p = (starred, chunk, rest)"
  shows "\<exists>u. p = u @ chunk @ rest \<and> star_run u \<and> (starred \<longleftrightarrow> u \<noteq> [])"
    and "plain_chunk chunk" "simple_pattern rest" "rest = [] \<or> hd rest = CHR ''*''"
proof -
  define q where "q = dropWhile (\<lambda>c. c = CHR ''*'') p"
  define u where "u = takeWhile (\<lambda>c. c = CHR ''*'') p"
  have pq: "p = u @ q" by (simp add: q_def u_def)
  have b: "scan_body False q = (chunk, rest)" "starred = (q \<noteq> p)"
    using assms(2) by (auto simp: scanChunk_def q_def Let_def)
  have "simple_pattern q" using assms(1) pq by (auto simp: simple_pattern_def)
  then show "plain_chunk chunk" "simple_pattern rest" "rest = [] \<or> hd rest = CHR ''*''"
    using scan_body_simple b(1) by blast+
  have "star_run u" by (auto simp: u_def star_run_def dest: set_takeWhileD)
  moreover have "starred = (u \<noteq> [])" using b(2) pq by auto
  ultimately show "\<exists>u. p = u @ chunk @ rest \<and> star_run u \<and> (starred \<longleftrightarrow> u \<noteq> [])"
    using pq scan_body_append [OF b(1)] by blast
qed

lemma valid_rest_simple:
  "simple_pattern p \<Longrightarrow> valid_rest p"
proof (induction p rule: valid_rest.induct)
  case (1 p)
  obtain st chunk rest where s: "scanChunk p = (st, chunk, rest)" by (cases "scanChunk p") auto
  have "matchChunk chunk [] \<noteq> None"
    using matchChunk_fits [OF scanChunk_simple(2) [OF "1.prems" s], of "[]"] by simp
  moreover have "p \<noteq> [] \<Longrightarrow> valid_rest rest"
    using "1.IH" [OF _ s [symmetric] refl] scanChunk_simple(3) [OF "1.prems" s] by blast
  ultimately show ?case by (subst valid_rest.simps) (simp add: s)
qed

text \<open>The positions at which the chunk is accepted: it fits there, and uses up the name when it is
  the last one.\<close>

definition accepted :: "string \<Rightarrow> bool \<Rightarrow> string \<Rightarrow> nat \<Rightarrow> bool" where
  "accepted chunk l s i = (fits chunk (drop i s) \<and> (l \<longrightarrow> drop (length chunk + i) s = []))"

lemma accepted_Suc [simp]:
  "accepted chunk l (c # s) (Suc i) = accepted chunk l s i"
  by (simp add: accepted_def)

text \<open>Trying position 0 first and then skipping finds the leftmost accepted position.\<close>

lemma skip_bytes_leftmost:
  assumes "plain_chunk chunk" "plain_name s"
  shows "skip_bytes chunk l s = Some None \<and> (\<forall>i. 0 < i \<longrightarrow> i \<le> length s \<longrightarrow> \<not> accepted chunk l s i)
    \<or> (\<exists>i. 0 < i \<and> i \<le> length s \<and> accepted chunk l s i \<and> (\<forall>j. 0 < j \<longrightarrow> j < i \<longrightarrow> \<not> accepted chunk l s j)
         \<and> skip_bytes chunk l s = Some (Some (drop (length chunk + i) s)))"
  using assms(2)
proof (induction s)
  case (Cons c s)
  show ?case
  proof (cases "accepted chunk l s 0")
    case True
    then have "skip_bytes chunk l (c # s) = Some (Some (drop (length chunk + 1) (c # s)))"
      using Cons.prems by (auto simp: matchChunk_fits [OF assms(1)] accepted_def)
    then show ?thesis using True by (intro disjI2 exI [of _ 1]) auto
  next
    case False
    then have eq: "skip_bytes chunk l (c # s) = skip_bytes chunk l s"
      using Cons.prems by (auto simp: matchChunk_fits [OF assms(1)] accepted_def)
    have shift: "\<not> accepted chunk l (c # s) 1" using False by simp
    consider (none) "skip_bytes chunk l s = Some None"
        "\<forall>i. 0 < i \<longrightarrow> i \<le> length s \<longrightarrow> \<not> accepted chunk l s i"
      | (some) i where "0 < i" "i \<le> length s" "accepted chunk l s i"
        "\<forall>j. 0 < j \<longrightarrow> j < i \<longrightarrow> \<not> accepted chunk l s j"
        "skip_bytes chunk l s = Some (Some (drop (length chunk + i) s))"
      using Cons by auto
    then show ?thesis
    proof cases
      case none
      have "\<not> accepted chunk l (c # s) i" if "0 < i" "i \<le> length (c # s)" for i
        using that none(2) False by (cases i; cases "i - 1") auto
      then show ?thesis using eq none(1) by auto
    next
      case some
      have "\<not> accepted chunk l (c # s) j" if "0 < j" "j < Suc i" for j
        using that some(4) False by (cases j; cases "j - 1") auto
      then show ?thesis using eq some by (intro disjI2 exI [of _ "Suc i"]) auto
    qed
  qed
qed simp

text \<open>Going on from the leftmost accepted position loses nothing, because what follows is either
  the end of the pattern or another star.\<close>

lemma glob_leftmost:
  assumes "plain_chunk chunk" "plain_name s" "rest = [] \<or> hd rest = CHR ''*''"
    and "i \<le> length s" "accepted chunk (rest = []) s i" "\<forall>j<i. \<not> accepted chunk (rest = []) s j"
  shows "glob (CHR ''*'' # chunk @ rest) s = glob rest (drop (length chunk + i) s)"
proof
  assume "glob rest (drop (length chunk + i) s)"
  then show "glob (CHR ''*'' # chunk @ rest) s"
    using assms by (auto simp: glob_star glob_chunk accepted_def)
next
  assume "glob (CHR ''*'' # chunk @ rest) s"
  then obtain k where k: "k \<le> length s" "fits chunk (drop k s)" "glob rest (drop (length chunk + k) s)"
    using assms(1,2) by (auto simp: glob_star glob_chunk)
  then have "accepted chunk (rest = []) s k" by (auto simp: accepted_def)
  then have "i \<le> k" using assms(6) not_le by blast
  show "glob rest (drop (length chunk + i) s)"
  proof (cases rest)
    case Nil
    then show ?thesis using assms(5) by (simp add: accepted_def)
  next
    case (Cons c r)
    then have "rest = CHR ''*'' # r" using assms(3) by simp
    moreover have "drop (length chunk + k) s = drop (k - i) (drop (length chunk + i) s)"
      using \<open>i \<le> k\<close> by (simp add: algebra_simps)
    ultimately show ?thesis using glob_star_drop k(3) assms(2) plain_name_drop by metis
  qed
qed

lemma Match_step:
  assumes "p \<noteq> []" "simple_pattern p" "plain_name s" "scanChunk p = (starred, chunk, rest)"
  shows "Match p s =
     (if starred \<and> chunk = [] then Some True
      else if accepted chunk (rest = []) s 0 then Match rest (drop (length chunk) s)
      else if starred then
        (case skip_bytes chunk (rest = []) s of
           None \<Rightarrow> None | Some None \<Rightarrow> Some False | Some (Some t) \<Rightarrow> Match rest t)
      else Some False)"
  using assms(1,3) valid_rest_simple [OF scanChunk_simple(3) [OF assms(2,4)]]
    matchChunk_fits [OF scanChunk_simple(2) [OF assms(2,4)] assms(3)]
  by (subst Match.simps) (auto simp: assms(4) accepted_def plain_name_def Let_def)

lemma glob_none_accepted:
  assumes "plain_chunk chunk" "plain_name s" "\<forall>i\<le>length s. \<not> accepted chunk (rest = []) s i"
  shows "\<not> glob (CHR ''*'' # chunk @ rest) s"
  using assms by (auto simp: glob_star glob_chunk accepted_def)

lemma scanChunk_empty:
  "scanChunk p = (starred, [], rest) \<Longrightarrow> rest = []"
proof -
  assume "scanChunk p = (starred, [], rest)"
  then have b: "scan_body False (dropWhile (\<lambda>c. c = CHR ''*'') p) = ([], rest)"
    by (simp add: scanChunk_def Let_def)
  then have r: "dropWhile (\<lambda>c. c = CHR ''*'') p = rest" using scan_body_append by fastforce
  show "rest = []"
  proof (cases rest)
    case (Cons c q)
    then have "c \<noteq> CHR ''*''" using r by (metis (mono_tags) hd_dropWhile list.sel(1) list.distinct(1))
    then show ?thesis using b r Cons by (auto split: if_splits list.splits prod.splits simp: Let_def)
  qed
qed

text \<open>The search after a star, position 0 included, decides the rest of the pattern.\<close>

lemma Match_starred:
  assumes "plain_chunk chunk" "plain_name s" "rest = [] \<or> hd rest = CHR ''*''"
    and IH: "\<And>n. Match rest (drop n s) = Some (glob rest (drop n s))"
  shows "(if accepted chunk (rest = []) s 0 then Match rest (drop (length chunk) s)
      else case skip_bytes chunk (rest = []) s of
             None \<Rightarrow> None | Some None \<Rightarrow> Some False | Some (Some t) \<Rightarrow> Match rest t)
    = Some (glob (CHR ''*'' # chunk @ rest) s)"
proof (cases "accepted chunk (rest = []) s 0")
  case True
  then show ?thesis using glob_leftmost [OF assms(1-3) _ True] IH by simp
next
  case False
  consider (none) "skip_bytes chunk (rest = []) s = Some None"
      "\<forall>i. 0 < i \<longrightarrow> i \<le> length s \<longrightarrow> \<not> accepted chunk (rest = []) s i"
    | (some) i where "0 < i" "i \<le> length s" "accepted chunk (rest = []) s i"
      "\<forall>j. 0 < j \<longrightarrow> j < i \<longrightarrow> \<not> accepted chunk (rest = []) s j"
      "skip_bytes chunk (rest = []) s = Some (Some (drop (length chunk + i) s))"
    using skip_bytes_leftmost [OF assms(1,2)] by blast
  then show ?thesis
  proof cases
    case none
    then have "\<forall>i\<le>length s. \<not> accepted chunk (rest = []) s i" using False by (metis gr0I)
    then show ?thesis using glob_none_accepted [OF assms(1,2)] none(1) False by simp
  next
    case some
    then have "\<forall>j<i. \<not> accepted chunk (rest = []) s j" using False by (metis gr0I)
    then show ?thesis using glob_leftmost [OF assms(1-3) some(2,3)] some(5) False IH by simp
  qed
qed

lemma Match_glob:
  "simple_pattern p \<Longrightarrow> plain_name s \<Longrightarrow> Match p s = Some (glob p s)"
proof (induction "length p" arbitrary: p s rule: less_induct)
  case less
  show ?case
  proof (cases "p = []")
    case True
    then show ?thesis by (subst Match.simps) simp
  next
    case False
    obtain starred chunk rest where sc: "scanChunk p = (starred, chunk, rest)"
      by (cases "scanChunk p") auto
    note sim = scanChunk_simple [OF less.prems(1) sc]
    note step = Match_step [OF False less.prems sc]
    obtain u where u: "p = u @ chunk @ rest" "star_run u" "starred \<longleftrightarrow> u \<noteq> []" using sim(1) by blast
    have IH: "Match rest (drop n s) = Some (glob rest (drop n s))" for n
      using less.hyps [OF scanChunk_shorter [OF sc False] sim(3)] less.prems(2) by simp
    show ?thesis
    proof (cases starred)
      case False
      then have "glob p s = (accepted chunk (rest = []) s 0 \<and> glob rest (drop (length chunk) s))"
        using u glob_chunk [OF sim(2)] by (auto simp: accepted_def)
      then show ?thesis using step False IH by simp
    next
      case True
      then have g: "glob p s = glob (CHR ''*'' # chunk @ rest) s"
        using u glob_star_run [OF u(2) _ less.prems(2)] by simp
      show ?thesis
      proof (cases "chunk = []")
        case nil: True
        then have "rest = []" using sc scanChunk_empty by blast
        then show ?thesis using step True nil g less.prems(2) by (auto simp: glob_star)
      next
        case ne: False
        show ?thesis
          using Match_starred [OF sim(2) less.prems(2) sim(4) IH] step True ne g by (simp split: if_splits)
      qed
    qed
  qed
qed

end
