(* ===== verification/Kapeproxy.thy ===== *)
theory Kapeproxy
  imports Path_Match
begin

text \<open>
  The MCP federation proxy (kapeproxy/internal/proxy): the configuration defaults (config.go), the
  router that maps a namespaced tool name to an upstream (router.go), the JSONPath redactor
  (redaction.go), the upstream client (upstream.go), the audit log (audit.go) and the JSON-RPC
  server that composes them (server.go).  Go maps are association lists in the order the range
  statement happens to visit them, so a statement for every list is a statement for every
  iteration order.  Parameters: the MCP SDK (connecting, listing and calling tools, with results of
  its own type \<open>'r\<close>), jsonpath.Get, the YAML decoder and the clock.  Trace spans are left out.
\<close>

section \<open>Values\<close>

text \<open>A Go value of type \<open>any\<close> as the proxy meets it: what encoding/json decodes, and a
  \<open>*mcp.CallToolResult\<close> of the SDK.\<close>

datatype 'r goval =
    VNil
  | VBool bool
  | VNum rat
  | VStr string
  | VArr "'r goval list"
  | VMap "(string \<times> 'r goval) list"
  | VResult 'r

fun map_put :: "'k \<Rightarrow> 'v \<Rightarrow> ('k \<times> 'v) list \<Rightarrow> ('k \<times> 'v) list" where
  "map_put k v [] = [(k, v)]"
| "map_put k v ((k', v') # m) = (if k' = k then (k, v) # m else (k', v') # map_put k v m)"

lemma map_of_map_put [simp]: "map_of (map_put k v m) = (map_of m)(k \<mapsto> v)"
  by (induction m) auto

text \<open>The verb \<open>%q\<close> of fmt on a string without characters to escape.\<close>

definition quoted :: "string \<Rightarrow> string" where
  "quoted s = CHR 0x22 # s @ [CHR 0x22]"

section \<open>Configuration\<close>

record JSONPathRule =
  JSONPath :: string

record RedactionConfig =
  rc_Input :: "JSONPathRule list"
  rc_Output :: "JSONPathRule list"

text \<open>A nil slice is None.\<close>

record UpstreamConfig =
  uc_URL :: string
  uc_Transport :: string
  uc_AllowedTools :: "string list option"
  uc_Redaction :: "RedactionConfig option"
  uc_Audit :: "bool option"

definition allowed_tools :: "UpstreamConfig \<Rightarrow> string list" where
  "allowed_tools c = (case uc_AllowedTools c of None \<Rightarrow> [] | Some ps \<Rightarrow> ps)"

definition upstream_defaults :: "UpstreamConfig \<Rightarrow> UpstreamConfig" where
  "upstream_defaults up =
     (let up1 = (if uc_Audit up = None then up\<lparr>uc_Audit := Some True\<rparr> else up)
      in if uc_AllowedTools up1 = Some [] then up1\<lparr>uc_AllowedTools := None\<rparr> else up1)"

text \<open>The outcomes of LoadConfig: the file cannot be read, it cannot be parsed, an entry without a
  value is dereferenced.\<close>

datatype load_error =
    ReadFailed string
  | ParseFailed string
  | NilUpstream

fun load_defaults ::
  "(string \<times> UpstreamConfig option) list \<Rightarrow> load_error + (string \<times> UpstreamConfig) list" where
  "load_defaults [] = Inr []"
| "load_defaults ((n, None) # ups) = Inl NilUpstream"
| "load_defaults ((n, Some up) # ups) =
     (case load_defaults ups of
        Inl e \<Rightarrow> Inl e
      | Inr cs \<Rightarrow> Inr ((n, upstream_defaults up) # cs))"

definition LoadConfig ::
  "(string \<Rightarrow> string + string) \<Rightarrow> (string \<Rightarrow> string + (string \<times> UpstreamConfig option) list) \<Rightarrow> string
   \<Rightarrow> load_error + (string \<times> UpstreamConfig) list" where
  "LoadConfig readfile unmarshal p =
     (case readfile p of
        Inl e \<Rightarrow> Inl (ReadFailed e)
      | Inr data \<Rightarrow>
          (case unmarshal data of
             Inl e \<Rightarrow> Inl (ParseFailed e)
           | Inr ups \<Rightarrow> load_defaults ups))"

section \<open>Upstream client\<close>

datatype transport = SSEClientTransport string | StreamableClientTransport string

definition newTransport :: "string \<Rightarrow> string \<Rightarrow> string + transport" where
  "newTransport transportType url =
     (if transportType = ''sse'' then Inr (SSEClientTransport url)
      else if transportType = ''streamable-http'' then Inr (StreamableClientTransport url)
      else Inl (''unknown transport '' @ quoted transportType @ '' (expected sse|streamable-http)''))"

text \<open>The SDK: a session from a transport, its tools, and the answer to the last call of a history
  of calls.\<close>

type_synonym ('s, 'r) tool_call = "'s \<times> string \<times> 'r goval"

record ('s, 'r) mcp_sdk =
  sdk_Connect :: "transport \<Rightarrow> string + 's"
  sdk_ListTools :: "'s \<Rightarrow> string + string list"
  sdk_CallTool :: "('s, 'r) tool_call list \<Rightarrow> string + 'r"

record 's mcpUpstream =
  mu_name :: string
  mu_url :: string
  mu_transport :: string
  mu_available :: bool
  mu_tools :: "string list"
  mu_session :: "'s option"

definition NewMCPUpstream :: "('s, 'r) mcp_sdk \<Rightarrow> string \<Rightarrow> UpstreamConfig \<Rightarrow> 's mcpUpstream" where
  "NewMCPUpstream sdk name cfg =
     (let u = \<lparr>mu_name = name, mu_url = uc_URL cfg, mu_transport = uc_Transport cfg,
               mu_available = False, mu_tools = [], mu_session = None\<rparr>
      in case newTransport (uc_Transport cfg) (uc_URL cfg) of
           Inl e \<Rightarrow> u
         | Inr tr \<Rightarrow>
             (case sdk_Connect sdk tr of
                Inl e \<Rightarrow> u
              | Inr session \<Rightarrow>
                  (case sdk_ListTools sdk session of
                     Inl e \<Rightarrow> u
                   | Inr tools \<Rightarrow>
                       u\<lparr>mu_session := Some session, mu_tools := tools, mu_available := True\<rparr>)))"

definition Available :: "'s mcpUpstream \<Rightarrow> bool" where
  "Available u = mu_available u"

definition ListTools :: "'s mcpUpstream \<Rightarrow> string list" where
  "ListTools u = mu_tools u"

definition Close :: "'s mcpUpstream \<Rightarrow> 's mcpUpstream" where
  "Close u = u\<lparr>mu_available := False\<rparr>"

definition unavailable_msg :: "'s mcpUpstream \<Rightarrow> string" where
  "unavailable_msg u = ''upstream '' @ quoted (mu_name u) @ '' unavailable''"

text \<open>The calls that reach a session are the last component of the result.\<close>

definition CallToolCtx ::
  "('s, 'r) mcp_sdk \<Rightarrow> 's mcpUpstream \<Rightarrow> string \<Rightarrow> 'r goval \<Rightarrow> ('s, 'r) tool_call list
   \<Rightarrow> (string + 'r goval) \<times> ('s, 'r) tool_call list" where
  "CallToolCtx sdk u tool args hist =
     (if \<not> mu_available u \<or> mu_session u = None then (Inl (unavailable_msg u), hist)
      else let h = hist @ [(the (mu_session u), tool, args)]
           in case sdk_CallTool sdk h of
                Inl e \<Rightarrow> (Inl e, h)
              | Inr r \<Rightarrow> (Inr (VResult r), h))"

section \<open>Router\<close>

record 's Router =
  r_cfg :: "(string \<times> UpstreamConfig) list"
  r_upstreams :: "(string \<times> 's mcpUpstream) list"

record 's Entry =
  e_Upstream :: "'s mcpUpstream"
  e_OriginalName :: string
  e_Redaction :: "RedactionConfig option"
  e_Audit :: bool

definition NamespaceSeparator :: string where
  "NamespaceSeparator = ''__''"

definition Namespace :: "string \<Rightarrow> string \<Rightarrow> string" where
  "Namespace upstream tool = upstream @ NamespaceSeparator @ tool"

fun matchesAny :: "string list \<Rightarrow> string \<Rightarrow> bool" where
  "matchesAny [] tool = False"
| "matchesAny (p # ps) tool = (if Match p tool = Some True then True else matchesAny ps tool)"

text \<open>The patterns NewRouter warns about.\<close>

definition NewRouter_warnings :: "(string \<times> UpstreamConfig) list \<Rightarrow> (string \<times> string) list" where
  "NewRouter_warnings cfg =
     concat (map (\<lambda>(upName, upCfg).
       map (\<lambda>p. (upName, p)) (filter (\<lambda>p. Match p [] = None) (allowed_tools upCfg))) cfg)"

text \<open>The body of the loop of Route for the first upstream whose prefix the name has.\<close>

definition route_entry ::
  "(string \<times> 's mcpUpstream) list \<Rightarrow> string \<Rightarrow> string \<times> UpstreamConfig \<Rightarrow> 's Entry option" where
  "route_entry ups namespaced = (\<lambda>(upName, upCfg).
     let original = drop (length (upName @ NamespaceSeparator)) namespaced in
     case map_of ups upName of
       None \<Rightarrow> None
     | Some up \<Rightarrow>
         if length (allowed_tools upCfg) = 0 then None
         else if original \<notin> set (ListTools up) then None
         else if \<not> matchesAny (allowed_tools upCfg) original then None
         else Some \<lparr>e_Upstream = up, e_OriginalName = original,
                    e_Redaction = uc_Redaction upCfg,
                    e_Audit = (case uc_Audit upCfg of None \<Rightarrow> True | Some a \<Rightarrow> a)\<rparr>)"

fun route_loop ::
  "(string \<times> 's mcpUpstream) list \<Rightarrow> string \<Rightarrow> (string \<times> UpstreamConfig) list \<Rightarrow> 's Entry option" where
  "route_loop ups namespaced [] = None"
| "route_loop ups namespaced ((upName, upCfg) # cs) =
     (let pre = upName @ NamespaceSeparator in
      if \<not> has_prefix namespaced pre \<or> length namespaced \<le> length pre
      then route_loop ups namespaced cs
      else route_entry ups namespaced (upName, upCfg))"

definition Route :: "'s Router \<Rightarrow> string \<Rightarrow> 's Entry option" where
  "Route r namespaced = route_loop (r_upstreams r) namespaced (r_cfg r)"

definition upstream_listing ::
  "(string \<times> 's mcpUpstream) list \<Rightarrow> string \<times> UpstreamConfig \<Rightarrow> string list" where
  "upstream_listing ups = (\<lambda>(upName, upCfg).
     case map_of ups upName of
       None \<Rightarrow> []
     | Some up \<Rightarrow>
         if allowed_tools upCfg = [] then []
         else map (Namespace upName) (filter (matchesAny (allowed_tools upCfg)) (ListTools up)))"

definition List_tools :: "'s Router \<Rightarrow> string list" where
  "List_tools r = concat (map (upstream_listing (r_upstreams r)) (r_cfg r))"

section \<open>Redactor\<close>

datatype redact_error =
    NoDollar string
  | UnsupportedFeature string
  | UnmatchedBracket string
  | NonIntegerIndex string
  | UnexpectedChar char string

datatype seg = Key string | Idx int

function split_loop :: "string \<Rightarrow> string \<Rightarrow> redact_error + seg list" where
  "split_loop p rest =
     (case rest of
        [] \<Rightarrow> Inr []
      | c # r \<Rightarrow>
          if c = CHR ''.'' then
            (let nm = takeWhile (\<lambda>d. d \<noteq> CHR ''.'' \<and> d \<noteq> CHR ''['') r;
                 r1 = dropWhile (\<lambda>d. d \<noteq> CHR ''.'' \<and> d \<noteq> CHR ''['') r
             in case split_loop p r1 of
                  Inl e \<Rightarrow> Inl e
                | Inr segs \<Rightarrow> Inr (Key nm # segs))
          else if c = CHR ''['' then
            (if CHR '']'' \<notin> set r then Inl (UnmatchedBracket p)
             else case Sscanf_d (takeWhile (\<lambda>d. d \<noteq> CHR '']'') r) of
                    None \<Rightarrow> Inl (NonIntegerIndex p)
                  | Some idx \<Rightarrow>
                      (case split_loop p (tl (dropWhile (\<lambda>d. d \<noteq> CHR '']'') r)) of
                         Inl e \<Rightarrow> Inl e
                       | Inr segs \<Rightarrow> Inr (Idx idx # segs)))
          else Inl (UnexpectedChar c p))"
  by pat_completeness auto
termination
  by (relation "measure (\<lambda>(p, rest). length rest)")
     (auto simp: le_imp_less_Suc length_dropWhile_le intro: le_less_trans diff_le_self)

declare split_loop.simps [simp del]

definition splitPath :: "string \<Rightarrow> redact_error + seg list" where
  "splitPath p = split_loop p (trim_prefix p ''$'')"

fun zeroLike :: "'r goval \<Rightarrow> 'r goval" where
  "zeroLike (VStr s) = VStr []"
| "zeroLike (VBool b) = VBool False"
| "zeroLike (VNum n) = VNum 0"
| "zeroLike (VMap m) = VMap []"
| "zeroLike (VArr a) = VArr []"
| "zeroLike VNil = VNil"
| "zeroLike (VResult r) = VNil"

definition in_range :: "int \<Rightarrow> 'a list \<Rightarrow> bool" where
  "in_range i a = (0 \<le> i \<and> i < int (length a))"

text \<open>The walk to the parent of the leaf and the overwriting of the leaf.  A value without the
  member or of another kind than the segment expects ends the walk without a change; a member
  that is missing reads as nil.\<close>

fun redact_at :: "seg list \<Rightarrow> 'r goval \<Rightarrow> 'r goval" where
  "redact_at [] v = v"
| "redact_at [Key k] v =
     (case v of
        VMap m \<Rightarrow> VMap (map_put k (zeroLike (case map_of m k of None \<Rightarrow> VNil | Some w \<Rightarrow> w)) m)
      | _ \<Rightarrow> v)"
| "redact_at [Idx i] v =
     (case v of
        VArr a \<Rightarrow> if in_range i a then VArr (a[nat i := zeroLike (a ! nat i)]) else v
      | _ \<Rightarrow> v)"
| "redact_at (Key k # s # ss) v =
     (case v of
        VMap m \<Rightarrow> (case map_of m k of
                     None \<Rightarrow> v
                   | Some w \<Rightarrow> VMap (map_put k (redact_at (s # ss) w) m))
      | _ \<Rightarrow> v)"
| "redact_at (Idx i # s # ss) v =
     (case v of
        VArr a \<Rightarrow> if in_range i a then VArr (a[nat i := redact_at (s # ss) (a ! nat i)]) else v
      | _ \<Rightarrow> v)"

text \<open>jsonpath.Get enters as the question whether it succeeds.\<close>

type_synonym 'r jsonpath_get = "string \<Rightarrow> 'r goval \<Rightarrow> bool"

definition redactPath :: "'r jsonpath_get \<Rightarrow> 'r goval \<Rightarrow> string \<Rightarrow> redact_error + 'r goval" where
  "redactPath jget tree p =
     (if \<not> has_prefix p ''$'' then Inl (NoDollar p)
      else if CHR ''*'' \<in> set p \<or> CHR ''?'' \<in> set p then Inl (UnsupportedFeature p)
      else if \<not> jget p tree then Inr tree
      else case splitPath p of
             Inl e \<Rightarrow> Inl e
           | Inr segs \<Rightarrow> Inr (redact_at segs tree))"

fun Apply :: "'r jsonpath_get \<Rightarrow> 'r goval \<Rightarrow> JSONPathRule list \<Rightarrow> redact_error + 'r goval" where
  "Apply jget tree [] = Inr tree"
| "Apply jget tree (rule # rules) =
     (case redactPath jget tree (JSONPath rule) of
        Inl e \<Rightarrow> Inl e
      | Inr tree1 \<Rightarrow> Apply jget tree1 rules)"

section \<open>Audit log and server\<close>

record AuditEntry =
  ae_NamespacedName :: string
  ae_Upstream :: string
  ae_OriginalName :: string
  ae_Allowed :: bool
  ae_LatencyMS :: int
  ae_Error :: string
  ae_TaskID :: string

record ('s, 'r) Server =
  s_router :: "'s Router"
  s_audit :: "AuditEntry list"
  s_calls :: "('s, 'r) tool_call list"

definition LogIfEnabled :: "bool \<Rightarrow> AuditEntry \<Rightarrow> ('s, 'r) Server \<Rightarrow> ('s, 'r) Server" where
  "LogIfEnabled enabled e st = (if enabled then st\<lparr>s_audit := s_audit st @ [e]\<rparr> else st)"

definition MCPErrMethodNotFound :: int where
  "MCPErrMethodNotFound = - 32601"

definition MCPErrServerError :: int where
  "MCPErrServerError = - 32000"

text \<open>An error of handleToolsCall is its code with the message or the redaction error behind it;
  the failing type assertion on the redacted arguments is a case of its own.\<close>

datatype call_error =
    CallErr int string
  | RedactErr int string redact_error
  | AssertPanic

definition entry_audit :: "string \<Rightarrow> string \<Rightarrow> 's Entry \<Rightarrow> int \<Rightarrow> string \<Rightarrow> AuditEntry" where
  "entry_audit namespaced taskID entry ms err =
     \<lparr>ae_NamespacedName = namespaced, ae_Upstream = mu_name (e_Upstream entry),
      ae_OriginalName = e_OriginalName entry, ae_Allowed = True, ae_LatencyMS = ms,
      ae_Error = err, ae_TaskID = taskID\<rparr>"

text \<open>The two redaction steps, applied only when the entry has rules of that direction.\<close>

definition redact_step ::
  "'r jsonpath_get \<Rightarrow> JSONPathRule list option \<Rightarrow> 'r goval \<Rightarrow> redact_error + 'r goval" where
  "redact_step jget rules v =
     (case rules of
        None \<Rightarrow> Inr v
      | Some rs \<Rightarrow> if 0 < length rs then Apply jget v rs else Inr v)"

definition handleToolsList :: "('s, 'r) Server \<Rightarrow> string list" where
  "handleToolsList st = List_tools (s_router st)"

definition call_upstream ::
  "('s, 'r) mcp_sdk \<Rightarrow> 'r jsonpath_get \<Rightarrow> int \<Rightarrow> string \<Rightarrow> string \<Rightarrow> 's Entry \<Rightarrow> 'r goval
   \<Rightarrow> ('s, 'r) Server \<Rightarrow> (call_error + 'r goval) \<times> ('s, 'r) Server" where
  "call_upstream sdk jget ms namespaced taskID entry redArgs st =
     (let (res, h) = CallToolCtx sdk (e_Upstream entry) (e_OriginalName entry) redArgs (s_calls st);
          st1 = st\<lparr>s_calls := h\<rparr>
      in case res of
           Inl e \<Rightarrow>
             (Inl (CallErr MCPErrServerError e),
              LogIfEnabled (e_Audit entry) (entry_audit namespaced taskID entry ms e) st1)
         | Inr v \<Rightarrow>
             (case redact_step jget (map_option rc_Output (e_Redaction entry)) v of
                Inl e \<Rightarrow> (Inl (RedactErr MCPErrServerError ''output redaction'' e), st1)
              | Inr out \<Rightarrow>
                  (Inr out,
                   LogIfEnabled (e_Audit entry) (entry_audit namespaced taskID entry ms []) st1)))"

definition handleToolsCall ::
  "('s, 'r) mcp_sdk \<Rightarrow> 'r jsonpath_get \<Rightarrow> int \<Rightarrow> string \<Rightarrow> (string \<times> 'r goval) list \<Rightarrow> string
   \<Rightarrow> ('s, 'r) Server \<Rightarrow> (call_error + 'r goval) \<times> ('s, 'r) Server" where
  "handleToolsCall sdk jget ms namespaced args taskID st =
     (case Route (s_router st) namespaced of
        None \<Rightarrow>
          (Inl (CallErr MCPErrMethodNotFound (''tool '' @ quoted namespaced @ '' not allowed'')),
           LogIfEnabled True
             \<lparr>ae_NamespacedName = namespaced, ae_Upstream = [], ae_OriginalName = [],
              ae_Allowed = False, ae_LatencyMS = 0, ae_Error = ''disallowed or unknown tool'',
              ae_TaskID = taskID\<rparr> st)
      | Some entry \<Rightarrow>
          if \<not> Available (e_Upstream entry) then
            (let e = unavailable_msg (e_Upstream entry)
             in (Inl (CallErr MCPErrServerError e),
                 LogIfEnabled (e_Audit entry) (entry_audit namespaced taskID entry ms e) st))
          else
            (case redact_step jget (map_option rc_Input (e_Redaction entry)) (VMap args) of
               Inl e \<Rightarrow> (Inl (RedactErr MCPErrServerError ''input redaction'' e), st)
             | Inr (VMap redArgs) \<Rightarrow>
                 call_upstream sdk jget ms namespaced taskID entry (VMap redArgs) st
             | Inr _ \<Rightarrow> (Inl AssertPanic, st)))"

text \<open>The JSON-RPC envelope: a body that does not decode is None, and so is the response of a
  handler that panicked.\<close>

record 'r jsonrpcRequest =
  rq_ID :: "'r goval"
  rq_Method :: string
  rq_Params :: "(string \<times> 'r goval) list"

record 'r jsonrpcResponse =
  rs_ID :: "'r goval"
  rs_Result :: "'r goval option"
  rs_Error :: "call_error option"

definition writeJSONRPCResult :: "'r goval \<Rightarrow> 'r goval \<Rightarrow> 'r jsonrpcResponse" where
  "writeJSONRPCResult i v = \<lparr>rs_ID = i, rs_Result = Some v, rs_Error = None\<rparr>"

definition writeJSONRPCError :: "'r goval \<Rightarrow> call_error \<Rightarrow> 'r jsonrpcResponse" where
  "writeJSONRPCError i e = \<lparr>rs_ID = i, rs_Result = None, rs_Error = Some e\<rparr>"

definition string_param :: "string \<Rightarrow> (string \<times> 'r goval) list \<Rightarrow> string" where
  "string_param k ps = (case map_of ps k of Some (VStr v) \<Rightarrow> v | _ \<Rightarrow> [])"

definition map_param :: "string \<Rightarrow> (string \<times> 'r goval) list \<Rightarrow> (string \<times> 'r goval) list" where
  "map_param k ps = (case map_of ps k of Some (VMap m) \<Rightarrow> m | _ \<Rightarrow> [])"

definition mcpHandler ::
  "('s, 'r) mcp_sdk \<Rightarrow> 'r jsonpath_get \<Rightarrow> int \<Rightarrow> 'r jsonrpcRequest option \<Rightarrow> string
   \<Rightarrow> ('s, 'r) Server \<Rightarrow> 'r jsonrpcResponse option \<times> ('s, 'r) Server" where
  "mcpHandler sdk jget ms body taskID st =
     (case body of
        None \<Rightarrow>
          (Some (writeJSONRPCError VNil (CallErr MCPErrServerError ''invalid JSON-RPC request'')), st)
      | Some req \<Rightarrow>
          if rq_Method req = ''tools/list'' then
            (Some (writeJSONRPCResult (rq_ID req)
               (VMap [(''tools'', VArr (map (\<lambda>n. VMap [(''name'', VStr n)]) (handleToolsList st)))])), st)
          else if rq_Method req = ''tools/call'' then
            (let (res, st1) = handleToolsCall sdk jget ms (string_param ''name'' (rq_Params req))
                                (map_param ''arguments'' (rq_Params req)) taskID st
             in (case res of
                   Inl AssertPanic \<Rightarrow> None
                 | Inl e \<Rightarrow> Some (writeJSONRPCError (rq_ID req) e)
                 | Inr v \<Rightarrow> Some (writeJSONRPCResult (rq_ID req) v), st1))
          else
            (Some (writeJSONRPCError (rq_ID req)
               (CallErr MCPErrMethodNotFound (''unknown method '' @ quoted (rq_Method req)))), st))"

definition server_Shutdown :: "string option \<Rightarrow> ('s, 'r) Server \<Rightarrow> string option \<times> ('s, 'r) Server" where
  "server_Shutdown http_err st =
     (case http_err of
        Some e \<Rightarrow> (Some (''http shutdown: '' @ e), st)
      | None \<Rightarrow>
          (None, st\<lparr>s_router := (s_router st)\<lparr>r_upstreams :=
             map (\<lambda>(n, up). (n, Close up)) (r_upstreams (s_router st))\<rparr>\<rparr>))"

text \<open>The start of main: one upstream per configured name, and a server without history.\<close>

definition start_proxy :: "('s, 'r) mcp_sdk \<Rightarrow> (string \<times> UpstreamConfig) list \<Rightarrow> ('s, 'r) Server" where
  "start_proxy sdk cfg =
     \<lparr>s_router = \<lparr>r_cfg = cfg, r_upstreams = map (\<lambda>(n, c). (n, NewMCPUpstream sdk n c)) cfg\<rparr>,
      s_audit = [], s_calls = []\<rparr>"

datatype 'r proxy_event =
    Request int "'r jsonrpcRequest option" string
  | Stop "string option"

fun proxy_step ::
  "('s, 'r) mcp_sdk \<Rightarrow> 'r jsonpath_get \<Rightarrow> 'r proxy_event \<Rightarrow> ('s, 'r) Server \<Rightarrow> ('s, 'r) Server" where
  "proxy_step sdk jget (Request ms body taskID) st = snd (mcpHandler sdk jget ms body taskID st)"
| "proxy_step sdk jget (Stop e) st = snd (server_Shutdown e st)"

section \<open>What the router exposes\<close>

definition exposed :: "'s Router \<Rightarrow> string \<Rightarrow> string \<Rightarrow> bool" where
  "exposed r n t = (\<exists>c up. (n, c) \<in> set (r_cfg r) \<and> map_of (r_upstreams r) n = Some up
     \<and> t \<in> set (ListTools up) \<and> matchesAny (allowed_tools c) t)"

lemma matchesAny_iff: "matchesAny ps t = (\<exists>p\<in>set ps. Match p t = Some True)"
  by (induction ps) auto

lemma matchesAny_Nil_iff: "matchesAny ps t \<Longrightarrow> ps \<noteq> []"
  by auto

lemma has_prefix_self [simp]: "has_prefix (p @ s) p"
  by (simp add: has_prefix_def)

lemma Namespace_drop:
  "has_prefix x (n @ NamespaceSeparator) \<Longrightarrow>
   x = Namespace n (drop (length (n @ NamespaceSeparator)) x)"
  by (auto simp: has_prefix_def Namespace_def) (metis append_assoc append_take_drop_id)

lemma upstream_listing_iff:
  "x \<in> set (upstream_listing ups (n, c)) \<longleftrightarrow>
   (\<exists>t up. x = Namespace n t \<and> map_of ups n = Some up \<and> t \<in> set (ListTools up)
     \<and> matchesAny (allowed_tools c) t)"
  by (cases "map_of ups n") (auto simp: upstream_listing_def dest: matchesAny_Nil_iff)

lemma List_tools_iff:
  "x \<in> set (List_tools r) \<longleftrightarrow> (\<exists>n t. x = Namespace n t \<and> exposed r n t)"
proof -
  have "x \<in> set (List_tools r) \<longleftrightarrow>
      (\<exists>n c. (n, c) \<in> set (r_cfg r) \<and> x \<in> set (upstream_listing (r_upstreams r) (n, c)))"
    by (auto simp: List_tools_def)
  then show ?thesis by (auto simp: upstream_listing_iff exposed_def)
qed

text \<open>The test that makes Route decide on a configured upstream.\<close>

definition claims :: "string \<Rightarrow> string \<times> UpstreamConfig \<Rightarrow> bool" where
  "claims x = (\<lambda>(n, c). has_prefix x (n @ NamespaceSeparator) \<and> length (n @ NamespaceSeparator) < length x)"

lemma claims_Namespace [simp]: "claims (Namespace n t) (n, c) \<longleftrightarrow> t \<noteq> []"
  using has_prefix_self [of "n @ NamespaceSeparator" t] by (simp add: claims_def Namespace_def)

lemma route_loop_find:
  "route_loop ups x cs = (case find (claims x) cs of None \<Rightarrow> None | Some e \<Rightarrow> route_entry ups x e)"
proof (induction cs)
  case (Cons e cs)
  then show ?case by (cases e) (simp add: claims_def Let_def not_less [symmetric])
qed simp

lemma route_entry_Some:
  assumes "route_entry ups x (n, c) = Some e" "claims x (n, c)"
  shows "x = Namespace n (e_OriginalName e) \<and> e_OriginalName e \<noteq> [] \<and> map_of ups n = Some (e_Upstream e)
    \<and> e_OriginalName e \<in> set (ListTools (e_Upstream e)) \<and> matchesAny (allowed_tools c) (e_OriginalName e)
    \<and> e_Redaction e = uc_Redaction c"
proof -
  have x: "x = Namespace n (drop (length (n @ NamespaceSeparator)) x)"
    "drop (length (n @ NamespaceSeparator)) x \<noteq> []"
    using assms(2) Namespace_drop [of x n] by (auto simp: claims_def)
  then show ?thesis
    using assms(1) by (auto simp: route_entry_def Let_def split: if_splits option.splits)
qed

lemma route_entry_exposed:
  "map_of ups n = Some up \<Longrightarrow> t \<in> set (ListTools up) \<Longrightarrow> matchesAny (allowed_tools c) t
   \<Longrightarrow> route_entry ups (Namespace n t) (n, c) \<noteq> None"
  by (auto simp: route_entry_def Namespace_def Let_def dest: matchesAny_Nil_iff)

lemma find_SomeD: "find P xs = Some x \<Longrightarrow> x \<in> set xs \<and> P x"
  by (induction xs) (auto split: if_splits)

lemma Route_Some:
  assumes "Route r x = Some e"
  shows "\<exists>n c. (n, c) \<in> set (r_cfg r) \<and> claims x (n, c) \<and> route_entry (r_upstreams r) x (n, c) = Some e"
proof -
  obtain n c where "find (claims x) (r_cfg r) = Some (n, c)"
    "route_entry (r_upstreams r) x (n, c) = Some e"
    using assms by (auto simp: Route_def route_loop_find split: option.splits)
  then show ?thesis using find_SomeD by fastforce
qed

text \<open>Upstream names of which no prefix \<open>n__\<close> extends another.\<close>

definition prefix_free :: "(string \<times> 'c) list \<Rightarrow> bool" where
  "prefix_free cfg = (\<forall>n\<in>set (map fst cfg). \<forall>m\<in>set (map fst cfg).
     has_prefix (n @ NamespaceSeparator) (m @ NamespaceSeparator) \<longrightarrow> n = m)"

lemma has_prefix_chain:
  assumes "has_prefix x p" "has_prefix x q" "length p \<le> length q"
  shows "has_prefix q p"
proof -
  have "take (length p) q = take (length p) (take (length q) x)"
    using assms(2) by (simp add: has_prefix_def)
  also have "\<dots> = p" using assms(1,3) by (simp add: has_prefix_def min_absorb1)
  finally show ?thesis by (simp add: has_prefix_def)
qed

lemma claims_unique:
  assumes "prefix_free cfg" "(n, c) \<in> set cfg" "(m, d) \<in> set cfg" "claims x (n, c)" "claims x (m, d)"
  shows "n = m"
proof -
  let ?n = "n @ NamespaceSeparator" and ?m = "m @ NamespaceSeparator"
  have "has_prefix ?n ?m \<or> has_prefix ?m ?n"
    using assms(4,5) has_prefix_chain [of x ?n ?m] has_prefix_chain [of x ?m ?n]
      linear [of "length ?n" "length ?m"]
    by (auto simp: claims_def)
  moreover have "n \<in> set (map fst cfg)" "m \<in> set (map fst cfg)" using assms(2,3) by force+
  ultimately show ?thesis using assms(1) unfolding prefix_free_def by blast
qed

lemma find_unique:
  assumes "distinct (map fst cfg)" "prefix_free cfg" "(n, c) \<in> set cfg" "claims x (n, c)"
  shows "find (claims x) cfg = Some (n, c)"
proof (cases "find (claims x) cfg")
  case None
  then show ?thesis using assms(3,4) by (auto simp: find_None_iff)
next
  case (Some e)
  obtain m d where e: "e = (m, d)" by (cases e)
  then have "(m, d) \<in> set cfg" "claims x (m, d)" using find_SomeD [OF Some] by auto
  then have "n = m" using claims_unique [OF assms(2,3)] assms(4) by blast
  then have "d = c" using assms(1,3) \<open>(m, d) \<in> set cfg\<close> by (metis map_of_eq_Some_iff option.inject)
  then show ?thesis using Some e \<open>n = m\<close> by simp
qed

end
