(* ===== verification/Kapeproxy_Redaction.thy ===== *)
theory Kapeproxy_Redaction
  imports Kapeproxy
begin

text \<open>
  Properties of the redactor: values read along a path, the effect of blanking a leaf on every
  path, and the outcome of a list of rules of the supported shapes, for every jsonpath.Get with
  the two properties the redactor relies on.
\<close>

section \<open>Reading a value along a path\<close>

fun child :: "seg \<Rightarrow> 'r goval \<Rightarrow> 'r goval option" where
  "child (Key k) (VMap m) = map_of m k"
| "child (Idx i) (VArr a) = (if in_range i a then Some (a ! nat i) else None)"
| "child _ _ = None"

fun set_child :: "seg \<Rightarrow> 'r goval \<Rightarrow> 'r goval \<Rightarrow> 'r goval" where
  "set_child (Key k) w (VMap m) = VMap (map_put k w m)"
| "set_child (Idx i) w (VArr a) = VArr (a[nat i := w])"
| "set_child _ w v = v"

fun value_at :: "seg list \<Rightarrow> 'r goval \<Rightarrow> 'r goval option" where
  "value_at [] v = Some v"
| "value_at (s # ss) v = (case child s v of None \<Rightarrow> None | Some w \<Rightarrow> value_at ss w)"

fun blank :: "'r goval \<Rightarrow> bool" where
  "blank VNil = True"
| "blank (VBool b) = (\<not> b)"
| "blank (VNum n) = (n = 0)"
| "blank (VStr s) = (s = [])"
| "blank (VArr a) = (a = [])"
| "blank (VMap m) = (m = [])"
| "blank (VResult r) = False"

definition gone_or_blank :: "seg list \<Rightarrow> 'r goval \<Rightarrow> bool" where
  "gone_or_blank q v = (case value_at q v of None \<Rightarrow> True | Some w \<Rightarrow> blank w)"

text \<open>Two paths that part before either ends.\<close>

fun diverge :: "seg list \<Rightarrow> seg list \<Rightarrow> bool" where
  "diverge (s # ss) (t # ts) = (s \<noteq> t \<or> diverge ss ts)"
| "diverge _ _ = False"

lemma child_set_same:
  "child s v = Some w \<Longrightarrow> child s (set_child s x v) = Some x"
  by (cases "(s, v)" rule: child.cases) (auto simp: in_range_def split: if_splits)

lemma child_set_other:
  "child s v = Some w \<Longrightarrow> t \<noteq> s \<Longrightarrow> child t (set_child s x v) = child t v"
  by (cases "(s, v)" rule: child.cases; cases t)
     (auto simp: in_range_def nth_list_update split: if_splits)

lemma map_put_id: "map_of m k = Some w \<Longrightarrow> map_put k w m = m"
  by (induction m) (auto split: if_splits)

lemma set_child_id: "child s v = Some w \<Longrightarrow> set_child s w v = v"
  by (cases "(s, v)" rule: child.cases) (auto simp: map_put_id split: if_splits)

lemma blank_zeroLike [simp]: "blank (zeroLike v)"
  by (cases v) auto

lemma child_blank: "blank v \<Longrightarrow> child s v = None"
  by (cases "(s, v)" rule: child.cases) (auto simp: in_range_def)

lemma redact_at_step:
  "child s v = Some w \<Longrightarrow>
   redact_at (s # ss) v = set_child s (if ss = [] then zeroLike w else redact_at ss w) v"
  by (cases "(s, v)" rule: child.cases; cases ss) (auto split: if_splits)

lemma redact_at_no_child:
  "child s v = None \<Longrightarrow> \<not> (ss = [] \<and> (\<exists>k m. s = Key k \<and> v = VMap m)) \<Longrightarrow> redact_at (s # ss) v = v"
  by (cases s; cases v; cases ss) (auto split: if_splits)

lemma redact_at_blanks:
  "value_at segs v = Some w \<Longrightarrow> segs \<noteq> [] \<Longrightarrow> value_at segs (redact_at segs v) = Some (zeroLike w)"
proof (induction segs arbitrary: v)
  case (Cons s ss)
  then obtain x where x: "child s v = Some x" "value_at ss x = Some w" by (auto split: option.splits)
  then show ?case
    using Cons.IH [of x] by (cases "ss = []") (auto simp: redact_at_step child_set_same)
qed simp

lemma redact_at_frame:
  "value_at segs v \<noteq> None \<Longrightarrow> diverge segs q \<Longrightarrow> value_at q (redact_at segs v) = value_at q v"
proof (induction segs q arbitrary: v rule: diverge.induct)
  case (1 s ss t ts)
  then obtain x where x: "child s v = Some x" "value_at ss x \<noteq> None" by (auto split: option.splits)
  show ?case
  proof (cases "s = t")
    case True
    then have "diverge ss ts" using "1.prems"(2) by simp
    then have "ss \<noteq> []" by (cases ss) auto
    then show ?thesis
      using "1.IH" [of x] x True \<open>diverge ss ts\<close> by (simp add: redact_at_step child_set_same)
  next
    case False
    then show ?thesis using x by (simp add: redact_at_step child_set_other)
  qed
qed simp_all

lemma redact_at_keeps_blank:
  "value_at segs v \<noteq> None \<Longrightarrow> segs \<noteq> [] \<Longrightarrow> gone_or_blank q v \<Longrightarrow> gone_or_blank q (redact_at segs v)"
proof (induction segs arbitrary: v q)
  case (Cons s ss)
  then obtain x where x: "child s v = Some x" "value_at ss x \<noteq> None" by (auto split: option.splits)
  show ?case
  proof (cases q)
    case Nil
    then have "blank v" using Cons.prems(3) by (simp add: gone_or_blank_def)
    then show ?thesis using x(1) by (simp add: child_blank)
  next
    case (Cons t ts)
    show ?thesis
    proof (cases "t = s")
      case True
      have "gone_or_blank ts (zeroLike x)"
        by (cases ts) (simp_all add: gone_or_blank_def child_blank)
      moreover have "ss \<noteq> [] \<Longrightarrow> gone_or_blank ts (redact_at ss x)"
        using Cons.IH [of x ts] x Cons.prems(3) Cons True by (simp add: gone_or_blank_def)
      ultimately show ?thesis
        using x(1) Cons True by (simp add: redact_at_step child_set_same gone_or_blank_def)
    next
      case False
      then show ?thesis
        using Cons.prems(3) x(1) Cons by (simp add: redact_at_step child_set_other gone_or_blank_def)
    qed
  qed
qed simp

lemma redact_at_missing:
  "value_at segs v = None \<Longrightarrow> (\<And>ss k m. segs = ss @ [Key k] \<Longrightarrow> value_at ss v \<noteq> Some (VMap m))
   \<Longrightarrow> redact_at segs v = v"
proof (induction segs arbitrary: v)
  case (Cons s ss)
  show ?case
  proof (cases "child s v")
    case None
    then show ?thesis using Cons.prems(2) [of "[]"] by (intro redact_at_no_child) auto
  next
    case (Some x)
    then have "value_at ss x = None" using Cons.prems(1) by simp
    moreover have "value_at ts x \<noteq> Some (VMap m)" if "ss = ts @ [Key k]" for ts k m
      using Cons.prems(2) [of "s # ts" k m] Some that by simp
    ultimately have "redact_at ss x = x" "ss \<noteq> []" using Cons.IH by auto
    moreover have "set_child s x v = v" using Some set_child_id by blast
    ultimately show ?thesis using Some by (simp add: redact_at_step)
  qed
qed simp

section \<open>Rules of the supported shapes\<close>

definition name_char :: "char \<Rightarrow> bool" where
  "name_char c = (let n = (of_char c :: nat)
     in 48 \<le> n \<and> n \<le> 57 \<or> 65 \<le> n \<and> n \<le> 90 \<or> n = 95 \<or> 97 \<le> n \<and> n \<le> 122)"

fun seg_ok :: "seg \<Rightarrow> bool" where
  "seg_ok (Key k) = (k \<noteq> [] \<and> list_all name_char k)"
| "seg_ok (Idx i) = (0 \<le> i \<and> i \<le> max_i64)"

definition path_ok :: "seg list \<Rightarrow> bool" where
  "path_ok segs = (segs \<noteq> [] \<and> list_all seg_ok segs)"

fun render_seg :: "seg \<Rightarrow> string" where
  "render_seg (Key k) = ''.'' @ k"
| "render_seg (Idx i) = ''['' @ dec_string (nat i) @ '']''"

definition render :: "seg list \<Rightarrow> string" where
  "render segs = ''$'' @ concat (map render_seg segs)"

lemma name_char_not:
  "name_char c \<Longrightarrow> c \<noteq> CHR ''.'' \<and> c \<noteq> CHR ''['' \<and> c \<noteq> CHR '']'' \<and> c \<noteq> CHR ''*'' \<and> c \<noteq> CHR ''?''"
  by (auto simp: name_char_def Let_def)

lemma digit_name_char: "is_digit c \<Longrightarrow> name_char c"
  by (auto simp: is_digit_def name_char_def Let_def)

lemma dec_string_name_chars: "c \<in> set (dec_string n) \<Longrightarrow> name_char c"
  using dec_string_digits [of n] digit_name_char by (auto simp: list_all_iff)

text \<open>What follows a segment starts a new one or ends the path.\<close>

lemma rest_starts:
  "concat (map render_seg segs) = [] \<or> hd (concat (map render_seg segs)) \<in> {CHR ''.'', CHR ''[''}"
proof (cases segs)
  case (Cons s ss)
  then show ?thesis by (cases s) auto
qed simp

lemma takeWhile_name:
  assumes "list_all name_char k" "rest = [] \<or> hd rest \<in> {CHR ''.'', CHR ''[''}"
  shows "takeWhile (\<lambda>d. d \<noteq> CHR ''.'' \<and> d \<noteq> CHR ''['') (k @ rest) = k"
    and "dropWhile (\<lambda>d. d \<noteq> CHR ''.'' \<and> d \<noteq> CHR ''['') (k @ rest) = rest"
proof -
  have "\<forall>d\<in>set k. d \<noteq> CHR ''.'' \<and> d \<noteq> CHR ''[''"
    using assms(1) name_char_not by (auto simp: list_all_iff)
  then show "takeWhile (\<lambda>d. d \<noteq> CHR ''.'' \<and> d \<noteq> CHR ''['') (k @ rest) = k"
    "dropWhile (\<lambda>d. d \<noteq> CHR ''.'' \<and> d \<noteq> CHR ''['') (k @ rest) = rest"
    using assms(2) by (cases rest; auto simp: takeWhile_append dropWhile_append)+
qed

lemma takeWhile_index:
  "takeWhile (\<lambda>d. d \<noteq> CHR '']'') (dec_string n @ CHR '']'' # rest) = dec_string n"
  "dropWhile (\<lambda>d. d \<noteq> CHR '']'') (dec_string n @ CHR '']'' # rest) = CHR '']'' # rest"
proof -
  have "\<forall>d\<in>set (dec_string n). d \<noteq> CHR '']''"
    using dec_string_name_chars name_char_not by blast
  then show "takeWhile (\<lambda>d. d \<noteq> CHR '']'') (dec_string n @ CHR '']'' # rest) = dec_string n"
    "dropWhile (\<lambda>d. d \<noteq> CHR '']'') (dec_string n @ CHR '']'' # rest) = CHR '']'' # rest"
    by (auto simp: takeWhile_append dropWhile_append)
qed

lemma split_loop_render:
  "list_all seg_ok segs \<Longrightarrow> split_loop p (concat (map render_seg segs)) = Inr segs"
proof (induction segs)
  case Nil
  show ?case by (subst split_loop.simps) simp
next
  case (Cons s ss)
  define rest where "rest = concat (map render_seg ss)"
  have IH: "split_loop p rest = Inr ss" using Cons by (simp add: rest_def)
  show ?case
  proof (cases s)
    case (Key k)
    then have "list_all name_char k" using Cons.prems by simp
    note tw = takeWhile_name [OF this rest_starts [of ss, folded rest_def]]
    show ?thesis using Key tw IH by (subst split_loop.simps) (simp add: rest_def [symmetric])
  next
    case (Idx i)
    then have "Sscanf_d (dec_string (nat i)) = Some i"
      using Cons.prems Sscanf_d_dec_string [of "nat i"] by simp
    then show ?thesis
      using Idx IH by (subst split_loop.simps) (simp add: rest_def [symmetric] takeWhile_index)
  qed
qed

lemma splitPath_render: "list_all seg_ok segs \<Longrightarrow> splitPath (render segs) = Inr segs"
  by (simp add: splitPath_def render_def trim_prefix_def has_prefix_def split_loop_render)

lemma render_supported:
  assumes "list_all seg_ok segs"
  shows "has_prefix (render segs) ''$''" "CHR ''*'' \<notin> set (render segs)" "CHR ''?'' \<notin> set (render segs)"
proof -
  have "c \<noteq> CHR ''*'' \<and> c \<noteq> CHR ''?''" if "seg_ok s" "c \<in> set (render_seg s)" for s c
    using that name_char_not [of c] dec_string_name_chars [of c] by (cases s) (auto simp: list_all_iff)
  then show "CHR ''*'' \<notin> set (render segs)" "CHR ''?'' \<notin> set (render segs)"
    using assms by (auto simp: render_def list_all_iff)
qed (simp add: render_def has_prefix_def)

lemma value_at_append:
  "value_at (ss @ ts) v = (case value_at ss v of None \<Rightarrow> None | Some w \<Rightarrow> value_at ts w)"
  by (induction ss arbitrary: v) (auto split: option.splits)

definition rule_of :: "seg list \<Rightarrow> JSONPathRule" where
  "rule_of segs = \<lparr>JSONPath = render segs\<rparr>"

lemma redact_one:
  assumes "path_ok segs" "w = (if value_at segs v = None then v else redact_at segs v)"
  shows "gone_or_blank segs w" "gone_or_blank q v \<Longrightarrow> gone_or_blank q w"
    "diverge segs q \<Longrightarrow> value_at q w = value_at q v"
  using assms redact_at_blanks [of segs v] redact_at_keeps_blank [of segs v q] redact_at_frame [of segs v q]
  by (auto simp: path_ok_def gone_or_blank_def)

text \<open>What the redactor relies on: jsonpath.Get succeeds on a path the value has, and fails when
  the last name of the path is not a member of the object it is looked up in.\<close>

locale jsonpath_laws =
  fixes jget :: "'r jsonpath_get"
  assumes get_present: "path_ok segs \<Longrightarrow> value_at segs v \<noteq> None \<Longrightarrow> jget (render segs) v"
    and get_missing: "path_ok (ss @ [Key k]) \<Longrightarrow> value_at ss v = Some (VMap m) \<Longrightarrow> map_of m k = None
      \<Longrightarrow> \<not> jget (render (ss @ [Key k])) v"
begin

lemma redactPath_render:
  assumes "path_ok segs"
  shows "redactPath jget v (render segs) = Inr (if value_at segs v = None then v else redact_at segs v)"
proof -
  have ok: "list_all seg_ok segs" using assms by (simp add: path_ok_def)
  have "redact_at segs v = v" if none: "value_at segs v = None" and get: "jget (render segs) v"
  proof (rule redact_at_missing [OF none])
    fix ss k m assume s: "segs = ss @ [Key k]"
    show "value_at ss v \<noteq> Some (VMap m)"
    proof
      assume a: "value_at ss v = Some (VMap m)"
      then have "map_of m k = None" using none s by (auto simp: value_at_append split: option.splits)
      then show False using get_missing assms get s a by blast
    qed
  qed
  then show ?thesis
    using render_supported [OF ok] splitPath_render [OF ok] get_present [OF assms, of v]
    by (auto simp: redactPath_def)
qed

lemma Apply_supported:
  assumes "list_all path_ok paths"
  shows "\<exists>w. Apply jget v (map rule_of paths) = Inr w
    \<and> (\<forall>q. gone_or_blank q v \<or> q \<in> set paths \<longrightarrow> gone_or_blank q w)
    \<and> (\<forall>q. (\<forall>p\<in>set paths. diverge p q) \<longrightarrow> value_at q w = value_at q v)"
  using assms
proof (induction paths arbitrary: v)
  case (Cons p ps)
  then have p: "path_ok p" by simp
  define u where "u = (if value_at p v = None then v else redact_at p v)"
  note one = redact_one [OF p u_def]
  obtain w where w: "Apply jget u (map rule_of ps) = Inr w"
    "\<And>q. gone_or_blank q u \<or> q \<in> set ps \<Longrightarrow> gone_or_blank q w"
    "\<And>q. \<forall>p\<in>set ps. diverge p q \<Longrightarrow> value_at q w = value_at q u"
    using Cons.IH [of u] Cons.prems by auto
  have "Apply jget v (map rule_of (p # ps)) = Inr w"
    using redactPath_render [OF p, of v] w(1) by (simp add: rule_of_def u_def)
  then show ?case using w(2,3) one by (intro exI [of _ w]) (auto)
qed simp

end


text \<open>A reading of paths that has the properties asked of jsonpath.Get.\<close>

definition reference_get :: "'r jsonpath_get" where
  "reference_get p v = (case splitPath p of Inl e \<Rightarrow> False | Inr segs \<Rightarrow> value_at segs v \<noteq> None)"

interpretation reference: jsonpath_laws reference_get
  by unfold_locales (auto simp: reference_get_def path_ok_def splitPath_render value_at_append)

definition demo_args :: "string goval" where
  "demo_args = VMap [(''token'', VStr ''s3cret''), (''items'', VArr [VMap [(''id'', VNum 7), (''note'', VStr ''x'')]])]"


text \<open>Shapes outside the supported ones that are accepted without an error: a slice redacts its
  first element only, and recursive descent redacts nothing.\<close>

lemma slice_is_first_index: "splitPath ''$[0:2].secret'' = Inr [Idx 0, Key ''secret'']"
  by code_simp

lemma recursive_descent_is_noop:
  assumes "\<forall>m. v = VMap m \<longrightarrow> map_of m [] = None"
  shows "redactPath jget v ''$..secret'' = Inr v"
proof -
  have "splitPath ''$..secret'' = Inr [Key [], Key ''secret'']" by code_simp
  then show ?thesis using assms by (cases v) (auto simp: redactPath_def has_prefix_def)
qed

end
