(* ===== verification/Kapeproxy_Server.thy ===== *)
theory Kapeproxy_Server
  imports Kapeproxy_Redaction
begin

text \<open>
  Properties of the proxy: the router and its listing, the meaning of the allowlist, what reaches
  an upstream over a run of the server, and what output rules do to the results of the MCP SDK.
\<close>

section \<open>Route and List\<close>

lemma Route_order:
  assumes "distinct (map fst cfg)" "prefix_free cfg" "distinct (map fst cfg')" "set cfg' = set cfg"
  shows "route_loop ups x cfg' = route_loop ups x cfg"
proof (cases "\<exists>n c. (n, c) \<in> set cfg \<and> claims x (n, c)")
  case True
  then obtain n c where nc: "(n, c) \<in> set cfg" "claims x (n, c)" by blast
  have "prefix_free cfg'" using assms(2,4) by (simp add: prefix_free_def)
  then show ?thesis
    using find_unique [OF assms(1,2) nc] find_unique [OF assms(3) _ _ nc(2)] nc(1) assms(4)
    by (simp add: route_loop_find)
next
  case False
  then have "find (claims x) cfg = None" "find (claims x) cfg' = None"
    using assms(4) by (auto simp: find_None_iff)
  then show ?thesis by (simp add: route_loop_find)
qed

text \<open>C12: When no upstream prefix extends another and no upstream offers a tool without a name, Route
  accepts exactly the names List advertises, and neither answer depends on the order in which the
  map of upstreams is visited.
\<close>

theorem Route_agrees_with_List:
  assumes "distinct (map fst (r_cfg r))" "prefix_free (r_cfg r)"
    and "\<forall>(n, up)\<in>set (r_upstreams r). [] \<notin> set (ListTools up)"
    and "distinct (map fst cfg')" "set cfg' = set (r_cfg r)"
  shows "(Route r x \<noteq> None \<longleftrightarrow> x \<in> set (List_tools r))
    \<and> Route (r\<lparr>r_cfg := cfg'\<rparr>) x = Route r x
    \<and> set (List_tools (r\<lparr>r_cfg := cfg'\<rparr>)) = set (List_tools r)"
proof (intro conjI)
  show "Route (r\<lparr>r_cfg := cfg'\<rparr>) x = Route r x"
    using Route_order [OF assms(1,2,4,5)] by (simp add: Route_def)
  show "set (List_tools (r\<lparr>r_cfg := cfg'\<rparr>)) = set (List_tools r)"
    using assms(5) by (simp add: List_tools_def)
  show "Route r x \<noteq> None \<longleftrightarrow> x \<in> set (List_tools r)"
  proof
    assume "Route r x \<noteq> None"
    then obtain e where "Route r x = Some e" by blast
    from Route_Some [OF this] route_entry_Some show "x \<in> set (List_tools r)"
      unfolding List_tools_iff exposed_def by blast
  next
    assume "x \<in> set (List_tools r)"
    then obtain n c t up where t: "x = Namespace n t" "(n, c) \<in> set (r_cfg r)"
      "map_of (r_upstreams r) n = Some up" "t \<in> set (ListTools up)" "matchesAny (allowed_tools c) t"
      by (auto simp: List_tools_iff exposed_def)
    then have "t \<noteq> []" using assms(3) map_of_SomeD by fastforce
    then have "find (claims x) (r_cfg r) = Some (n, c)"
      using find_unique [OF assms(1,2) t(2)] t(1) by simp
    then show "Route r x \<noteq> None"
      using route_entry_exposed [OF t(3-5)] t(1) by (simp add: Route_def route_loop_find)
  qed
qed

definition demo_upstream :: "string \<Rightarrow> string list \<Rightarrow> nat mcpUpstream" where
  "demo_upstream n tools = \<lparr>mu_name = n, mu_url = [], mu_transport = ''sse'', mu_available = True,
     mu_tools = tools, mu_session = Some 0\<rparr>"

definition demo_allow :: "string list \<Rightarrow> UpstreamConfig" where
  "demo_allow ps = \<lparr>uc_URL = [], uc_Transport = ''sse'', uc_AllowedTools = Some ps,
     uc_Redaction = None, uc_Audit = Some True\<rparr>"

definition demo_router :: "nat Router" where
  "demo_router = \<lparr>r_cfg = [(''k8s'', demo_allow [''get_*'']), (''gh'', demo_allow [''*''])],
     r_upstreams = [(''gh'', demo_upstream ''gh'' [''pr'']),
       (''k8s'', demo_upstream ''k8s'' [''get_pods'', ''delete''])]\<rparr>"

theorem Route_agrees_with_List_witness:
  "Route demo_router ''k8s__get_pods'' \<noteq> None \<and> Route demo_router ''k8s__delete'' = None
   \<and> Route (demo_router\<lparr>r_cfg := rev (r_cfg demo_router)\<rparr>) ''k8s__get_pods'' = Route demo_router ''k8s__get_pods''"
proof -
  have "''k8s__get_pods'' \<in> set (List_tools demo_router)" "''k8s__delete'' \<notin> set (List_tools demo_router)"
    by code_simp+
  moreover have "distinct (map fst (r_cfg demo_router))" "prefix_free (r_cfg demo_router)"
    "\<forall>(n, up)\<in>set (r_upstreams demo_router). [] \<notin> set (ListTools up)"
    by code_simp+
  ultimately show ?thesis
    using Route_agrees_with_List [of demo_router "rev (r_cfg demo_router)" "''k8s__get_pods''"]
      Route_agrees_with_List [of demo_router "rev (r_cfg demo_router)" "''k8s__delete''"]
    by (simp add: rev_map [symmetric])
qed

text \<open>C40: When the prefix of one upstream extends that of another, a name that List advertises for the
  longer one is accepted or refused by Route depending on which of the two the iteration over the
  map meets first.
\<close>

theorem Route_depends_on_map_order:
  assumes m: "m = n @ NamespaceSeparator @ s" and "t \<noteq> []"
    and "map_of ups n = Some un" "map_of ups m = Some um"
    and "t \<in> set (ListTools um)" "matchesAny (allowed_tools cm) t"
    and "s @ NamespaceSeparator @ t \<notin> set (ListTools un)"
  shows "Namespace m t \<in> set (List_tools \<lparr>r_cfg = [(n, cn), (m, cm)], r_upstreams = ups\<rparr>)
    \<and> Route \<lparr>r_cfg = [(n, cn), (m, cm)], r_upstreams = ups\<rparr> (Namespace m t) = None
    \<and> Route \<lparr>r_cfg = [(m, cm), (n, cn)], r_upstreams = ups\<rparr> (Namespace m t) \<noteq> None"
proof (intro conjI)
  have x: "Namespace m t = Namespace n (s @ NamespaceSeparator @ t)"
    by (simp add: Namespace_def m)
  show "Namespace m t \<in> set (List_tools \<lparr>r_cfg = [(n, cn), (m, cm)], r_upstreams = ups\<rparr>)"
    using assms(4-6) by (auto simp: List_tools_iff exposed_def)
  have "claims (Namespace m t) (n, cn)" unfolding x by (simp add: assms(2))
  moreover have "route_entry ups (Namespace m t) (n, cn) = None"
    using assms(3,7) unfolding x by (simp add: route_entry_def Namespace_def Let_def)
  ultimately show "Route \<lparr>r_cfg = [(n, cn), (m, cm)], r_upstreams = ups\<rparr> (Namespace m t) = None"
    by (simp add: Route_def route_loop_find)
  show "Route \<lparr>r_cfg = [(m, cm), (n, cn)], r_upstreams = ups\<rparr> (Namespace m t) \<noteq> None"
    using route_entry_exposed [OF assms(4-6)] assms(2) by (simp add: Route_def route_loop_find)
qed

theorem Route_depends_on_map_order_witness:
  "''k8s__prod__get'' \<in> set (List_tools \<lparr>r_cfg = [(''k8s'', demo_allow [''*'']), (''k8s__prod'', demo_allow [''*''])],
       r_upstreams = [(''k8s'', demo_upstream ''k8s'' [''get'']), (''k8s__prod'', demo_upstream ''k8s__prod'' [''get''])]\<rparr>)
   \<and> Route \<lparr>r_cfg = [(''k8s'', demo_allow [''*'']), (''k8s__prod'', demo_allow [''*''])],
       r_upstreams = [(''k8s'', demo_upstream ''k8s'' [''get'']), (''k8s__prod'', demo_upstream ''k8s__prod'' [''get''])]\<rparr>
       ''k8s__prod__get'' = None"
proof -
  have "matchesAny (allowed_tools (demo_allow [''*''])) ''get''" by code_simp
  then show ?thesis
    using Route_depends_on_map_order [of "''k8s__prod''" "''k8s''" "''prod''" "''get''"
        "[(''k8s'', demo_upstream ''k8s'' [''get'']), (''k8s__prod'', demo_upstream ''k8s__prod'' [''get''])]"
        "demo_upstream ''k8s'' [''get'']" "demo_upstream ''k8s__prod'' [''get'']" "demo_allow [''*'']" "demo_allow [''*'']"]
    by (simp add: NamespaceSeparator_def Namespace_def demo_upstream_def ListTools_def)
qed



section \<open>What reaches an upstream\<close>

text \<open>A call of a session is granted when the session belongs to a configured upstream that
  offers the tool, one of the patterns of its allowlist matches, and the arguments are the outcome
  of its input rules.\<close>

definition call_granted :: "'r jsonpath_get \<Rightarrow> 's Router \<Rightarrow> ('s, 'r) tool_call \<Rightarrow> bool" where
  "call_granted jget r = (\<lambda>(session, tool, args). \<exists>n c up raw.
     (n, c) \<in> set (r_cfg r) \<and> map_of (r_upstreams r) n = Some up \<and> mu_session up = Some session
     \<and> tool \<in> set (ListTools up) \<and> matchesAny (allowed_tools c) tool
     \<and> redact_step jget (map_option rc_Input (uc_Redaction c)) (VMap raw) = Inr args)"

lemma LogIfEnabled_frame [simp]:
  "s_router (LogIfEnabled b e st) = s_router st" "s_calls (LogIfEnabled b e st) = s_calls st"
  by (simp_all add: LogIfEnabled_def)

lemma call_upstream_frame:
  assumes "call_upstream sdk jget ms nm tid entry args st = (res, st1)"
  shows "s_router st1 = s_router st" and "s_calls st1 = s_calls st
    \<or> (\<exists>session. mu_session (e_Upstream entry) = Some session
          \<and> s_calls st1 = s_calls st @ [(session, e_OriginalName entry, args)])"
  using assms
  by (auto simp: call_upstream_def CallToolCtx_def Let_def split: if_splits sum.splits)

lemma handleToolsCall_calls:
  assumes "handleToolsCall sdk jget ms nm args tid st = (res, st1)"
  shows "s_router st1 = s_router st \<and> (s_calls st1 = s_calls st
    \<or> (\<exists>call. s_calls st1 = s_calls st @ [call] \<and> call_granted jget (s_router st) call))"
proof (cases "Route (s_router st) nm")
  case None
  then show ?thesis using assms by (auto simp: handleToolsCall_def)
next
  case (Some entry)
  obtain n c where nc: "(n, c) \<in> set (r_cfg (s_router st))" "claims nm (n, c)"
    "route_entry (r_upstreams (s_router st)) nm (n, c) = Some entry"
    using Route_Some [OF Some] by blast
  note e = route_entry_Some [OF nc(3,2)]
  consider (same) "st1 = st \<or> (\<exists>a. st1 = LogIfEnabled (e_Audit entry) a st)"
    | (call) m where "redact_step jget (map_option rc_Input (e_Redaction entry)) (VMap args) = Inr (VMap m)"
        "call_upstream sdk jget ms nm tid entry (VMap m) st = (res, st1)"
    using assms Some
    by (auto simp: handleToolsCall_def Let_def split: if_splits sum.splits goval.splits)
  then show ?thesis
  proof cases
    case same
    then show ?thesis by auto
  next
    case call
    have "call_granted jget (s_router st) (session, e_OriginalName entry, VMap m)"
      if "mu_session (e_Upstream entry) = Some session" for session
      using nc(1) e call(1) that by (force simp: call_granted_def)
    then show ?thesis using call_upstream_frame [OF call(2)] by blast
  qed
qed

lemma mcpHandler_calls:
  "s_router (snd (mcpHandler sdk jget ms body tid st)) = s_router st
   \<and> (s_calls (snd (mcpHandler sdk jget ms body tid st)) = s_calls st
    \<or> (\<exists>call. s_calls (snd (mcpHandler sdk jget ms body tid st)) = s_calls st @ [call]
          \<and> call_granted jget (s_router st) call))"
proof (cases "\<exists>req. body = Some req \<and> rq_Method req = ''tools/call''")
  case True
  then obtain req where b: "body = Some req" "rq_Method req = ''tools/call''" by blast
  obtain res st1 where h: "handleToolsCall sdk jget ms (string_param ''name'' (rq_Params req))
      (map_param ''arguments'' (rq_Params req)) tid st = (res, st1)" by fastforce
  show ?thesis using handleToolsCall_calls [OF h] b h by (simp add: mcpHandler_def)
next
  case False
  then show ?thesis by (auto simp: mcpHandler_def split: option.splits)
qed

definition stopped :: "'s Router \<Rightarrow> 's Router" where
  "stopped r = r\<lparr>r_upstreams := map (\<lambda>(n, up). (n, Close up)) (r_upstreams r)\<rparr>"

lemma Shutdown_frame:
  "s_calls (snd (server_Shutdown e st)) = s_calls st"
  "s_router (snd (server_Shutdown e st)) = (if e = None then stopped (s_router st) else s_router st)"
  by (simp_all add: server_Shutdown_def stopped_def split: option.splits)

lemma Close_simps [simp]:
  "ListTools (Close up) = ListTools up" "mu_session (Close up) = mu_session up"
  by (simp_all add: ListTools_def Close_def)

lemma map_of_stopped: "map_of (r_upstreams (stopped r)) n = map_option Close (map_of (r_upstreams r) n)"
  by (simp add: stopped_def map_of_map)

lemma call_granted_stopped: "call_granted jget (stopped r) = call_granted jget r"
proof -
  have cfg: "r_cfg (stopped r) = r_cfg r" by (simp add: stopped_def)
  have "(\<exists>up. map_of (r_upstreams (stopped r)) n = Some up \<and> mu_session up = Some s \<and> t \<in> set (ListTools up))
    \<longleftrightarrow> (\<exists>up. map_of (r_upstreams r) n = Some up \<and> mu_session up = Some s \<and> t \<in> set (ListTools up))" for n s t
    by (cases "map_of (r_upstreams r) n") (simp_all add: map_of_stopped)
  then show ?thesis unfolding call_granted_def cfg fun_eq_iff by (simp split: prod.splits) blast
qed

lemma proxy_run_granted:
  assumes "\<forall>call\<in>set (s_calls st). call_granted jget r call"
    and "call_granted jget (s_router st) = call_granted jget r"
  shows "\<forall>call\<in>set (s_calls (fold (proxy_step sdk jget) evs st)). call_granted jget r call"
  using assms
proof (induction evs arbitrary: st)
  case (Cons ev evs)
  have "(\<forall>call\<in>set (s_calls (proxy_step sdk jget ev st)). call_granted jget r call)
      \<and> call_granted jget (s_router (proxy_step sdk jget ev st)) = call_granted jget r"
  proof (cases ev)
    case (Request ms body tid)
    then show ?thesis
      using mcpHandler_calls [of sdk jget ms body tid st] Cons.prems by auto
  next
    case (Stop e)
    then show ?thesis using Cons.prems by (simp add: Shutdown_frame call_granted_stopped)
  qed
  then show ?case using Cons.IH [of "proxy_step sdk jget ev st"] by simp
qed simp

definition all_closed :: "'s Router \<Rightarrow> bool" where
  "all_closed r = list_all (\<lambda>(n, up). \<not> mu_available up) (r_upstreams r)"

lemma all_closed_stopped: "all_closed (stopped r)"
  by (auto simp: all_closed_def stopped_def list_all_iff Close_def)

lemma Route_all_closed:
  assumes "all_closed r" "Route r x = Some e"
  shows "\<not> Available (e_Upstream e)"
proof -
  obtain n c where "claims x (n, c)" "route_entry (r_upstreams r) x (n, c) = Some e"
    using Route_Some [OF assms(2)] by blast
  then have "map_of (r_upstreams r) n = Some (e_Upstream e)" using route_entry_Some by blast
  then show ?thesis using assms(1) map_of_SomeD by (fastforce simp: all_closed_def list_all_iff Available_def)
qed

lemma handleToolsCall_all_closed:
  assumes "all_closed (s_router st)"
  shows "s_calls (snd (handleToolsCall sdk jget ms nm args tid st)) = s_calls st"
  using Route_all_closed [OF assms] by (auto simp: handleToolsCall_def Let_def split: option.splits)

lemma mcpHandler_all_closed:
  assumes "all_closed (s_router st)"
  shows "s_calls (snd (mcpHandler sdk jget ms body tid st)) = s_calls st"
  using handleToolsCall_all_closed [OF assms]
  by (auto simp: mcpHandler_def split: option.splits prod.splits) (metis snd_conv)

lemma proxy_run_all_closed:
  assumes "all_closed (s_router st)"
  shows "s_calls (fold (proxy_step sdk jget) evs st) = s_calls st"
  using assms
proof (induction evs arbitrary: st)
  case (Cons ev evs)
  have "s_calls (proxy_step sdk jget ev st) = s_calls st \<and> all_closed (s_router (proxy_step sdk jget ev st))"
    using Cons.prems
    by (cases ev) (simp_all add: mcpHandler_all_closed mcpHandler_calls Shutdown_frame all_closed_stopped)
  then show ?case using Cons.IH by simp
qed simp

text \<open>C6: Over every sequence of requests and shutdowns, each call that reaches an upstream session is
  for a tool that the upstream offers and its allowlist matches, with arguments that went through
  its input rules; after a shutdown no call reaches an upstream.
\<close>

theorem proxy_calls_are_granted:
  "(\<forall>call\<in>set (s_calls (fold (proxy_step sdk jget) evs (start_proxy sdk cfg))).
      call_granted jget (s_router (start_proxy sdk cfg)) call)
   \<and> s_calls (fold (proxy_step sdk jget) (evs @ Stop None # evs') (start_proxy sdk cfg))
       = s_calls (fold (proxy_step sdk jget) evs (start_proxy sdk cfg))"
proof
  show "\<forall>call\<in>set (s_calls (fold (proxy_step sdk jget) evs (start_proxy sdk cfg))).
      call_granted jget (s_router (start_proxy sdk cfg)) call"
    by (rule proxy_run_granted) (simp_all add: start_proxy_def)
  show "s_calls (fold (proxy_step sdk jget) (evs @ Stop None # evs') (start_proxy sdk cfg))
       = s_calls (fold (proxy_step sdk jget) evs (start_proxy sdk cfg))"
    by (simp add: proxy_run_all_closed Shutdown_frame all_closed_stopped)
qed

definition demo_sdk :: "(nat, string) mcp_sdk" where
  "demo_sdk = \<lparr>sdk_Connect = \<lambda>tr. Inr 0, sdk_ListTools = \<lambda>s. Inr [''get'', ''delete''],
     sdk_CallTool = \<lambda>h. Inr ''password''\<rparr>"

definition demo_redacting :: "(string \<times> UpstreamConfig) list" where
  "demo_redacting = [(''k8s'', (demo_allow [''get*''])\<lparr>uc_Redaction :=
     Some \<lparr>rc_Input = [rule_of [Key ''token'']], rc_Output = [rule_of [Key ''content'']]\<rparr>\<rparr>)]"

definition proxy_request :: "string \<Rightarrow> string proxy_event" where
  "proxy_request tool = Request 3 (Some \<lparr>rq_ID = VNum 1, rq_Method = ''tools/call'',
     rq_Params = [(''name'', VStr tool), (''arguments'', VMap [(''token'', VStr ''s3cret'')])]\<rparr>) ''task''"

theorem proxy_calls_are_granted_witness:
  "call_granted (reference_get :: string jsonpath_get) (s_router (start_proxy demo_sdk demo_redacting))
     (0, ''get'', VMap [(''token'', VStr [])])
   \<and> s_calls (fold (proxy_step demo_sdk reference_get)
       [proxy_request ''k8s__delete'', proxy_request ''k8s__get'', Stop None, proxy_request ''k8s__get'']
       (start_proxy demo_sdk demo_redacting)) = [(0, ''get'', VMap [(''token'', VStr [])])]"
proof -
  have "s_calls (fold (proxy_step demo_sdk reference_get) [proxy_request ''k8s__delete'', proxy_request ''k8s__get'']
      (start_proxy demo_sdk demo_redacting)) = [(0, ''get'', VMap [(''token'', VStr [])])]"
    by code_simp
  then show ?thesis
    using proxy_calls_are_granted [of demo_sdk reference_get
        "[proxy_request ''k8s__delete'', proxy_request ''k8s__get'']" demo_redacting "[proxy_request ''k8s__get'']"]
    by simp
qed

section \<open>Output rules on results of the SDK\<close>

lemma redact_at_result [simp]: "redact_at segs (VResult r) = VResult r"
  by (induction segs "VResult r :: 'a goval" rule: redact_at.induct) auto

lemma Apply_result: "Apply jget (VResult r) rules = Inr v \<Longrightarrow> v = VResult r"
  by (induction rules) (auto simp: redactPath_def split: if_splits sum.splits)

text \<open>C39: Output rules never change what a client receives: when the upstream answers a call, the
  client gets the result as the upstream sent it, or, when a rule is malformed, an error for a
  call that was executed and of which the audit log has no entry.
\<close>

theorem output_rules_never_redact:
  assumes "handleToolsCall sdk jget ms nm args tid st = (res, st1)"
    and "s_calls st1 \<noteq> s_calls st" "sdk_CallTool sdk (s_calls st1) = Inr r"
  shows "res = Inr (VResult r)
    \<or> (\<exists>e. res = Inl (RedactErr MCPErrServerError ''output redaction'' e) \<and> s_audit st1 = s_audit st)"
proof -
  obtain entry m where "call_upstream sdk jget ms nm tid entry (VMap m) st = (res, st1)"
    using assms(1,2)
    by (auto simp: handleToolsCall_def Let_def split: if_splits sum.splits goval.splits option.splits)
  then show ?thesis
    using assms(2,3)
    by (auto simp: call_upstream_def CallToolCtx_def redact_step_def Let_def
        split: if_splits sum.splits option.splits dest: Apply_result)
qed

theorem output_rules_never_redact_witness:
  "fst (handleToolsCall demo_sdk (\<lambda>p v. True) 3 ''k8s__get'' [] ''task'' (start_proxy demo_sdk demo_redacting))
   = Inr (VResult ''password'')"
proof -
  let ?st = "start_proxy demo_sdk demo_redacting"
  obtain res st1 where h: "handleToolsCall demo_sdk (\<lambda>p v. True) 3 ''k8s__get'' [] ''task'' ?st = (res, st1)"
    by fastforce
  have "s_calls (snd (handleToolsCall demo_sdk (\<lambda>p v. True) 3 ''k8s__get'' [] ''task'' ?st)) \<noteq> s_calls ?st"
    "is_err (fst (handleToolsCall demo_sdk (\<lambda>p v. True) 3 ''k8s__get'' [] ''task'' ?st)) = False"
    by code_simp+
  then show ?thesis
    using output_rules_never_redact [OF h, of "''password''"] h by (auto simp: demo_sdk_def)
qed

end
